(* ===== verification/Go_Runtime.thy ===== *)
theory Go_Runtime imports Complex_Main "HOL-Library.AList" "HOL-Library.Multiset" "HOL-Library.Signed_Division" "HOL-Library.Word" begin

text \<open>
  The part of Go that the whole model rests on: 64-bit signed integers, instants and durations
  of package \<open>time\<close>, IEEE numbers as far as the program uses them, maps and the order in which
  a \<open>range\<close> loop visits them.

  Integers of type \<open>int\<close> and \<open>int64\<close> are HOL integers; every operation that can leave the
  64-bit range goes through \<open>wrap64\<close>. An instant is the number of nanoseconds since the Unix
  epoch; a duration is a 64-bit number of nanoseconds, so sums of instants saturate on
  subtraction exactly as \<open>Time.Sub\<close> does.

  A Go map is an association list with distinct keys. The list's order carries no meaning: a
  loop over a map goes through \<open>go_range ch\<close>, which permutes the list by a choice function
  \<open>ch\<close>; every choice gives a permutation and every permutation is given by a choice, so a
  statement for all \<open>ch\<close> is a statement for every order the runtime may pick.
\<close>

named_theorems go_arith \<open>ranges and conversions of machine integers and times\<close>
named_theorems map_facts \<open>lookups in and keys of association lists that stand for Go maps\<close>

subsection \<open>Machine integers\<close>

definition wrap64 :: "int \<Rightarrow> int" where
  "wrap64 x = (x + 2 ^ 63) mod 2 ^ 64 - 2 ^ 63"

definition in_int64 :: "int \<Rightarrow> bool" where
  "in_int64 x \<longleftrightarrow> - (2 ^ 63) \<le> x \<and> x < 2 ^ 63"

lemma wrap64_id [go_arith]: "in_int64 x \<Longrightarrow> wrap64 x = x"
  by (simp add: wrap64_def in_int64_def)

lemma wrap64_range [go_arith]: "in_int64 (wrap64 x)"
proof -
  have "0 \<le> (x + 2 ^ 63) mod 2 ^ 64" and "(x + 2 ^ 63) mod 2 ^ 64 < (2 ^ 64 :: int)"
    by (simp_all add: pos_mod_bound)
  then show ?thesis by (simp add: wrap64_def in_int64_def)
qed

lemma in_int64_mult_bound:
  assumes "0 \<le> a" and "a \<le> A" and "0 \<le> b" and "b \<le> B" and "A * B < 2 ^ 63"
  shows "in_int64 (a * b)"
proof -
  have "a * b \<le> A * B" using assms by (intro mult_mono) auto
  moreover have "0 \<le> a * b" using assms by simp
  moreover from this have "- (2 ^ 63) \<le> a * b" by (rule order_trans [rotated]) simp
  ultimately show ?thesis using assms by (simp add: in_int64_def)
qed

subsection \<open>Instants and durations\<close>

type_synonym time = int
type_synonym duration = int

definition second :: duration where "second = 1000000000"
definition millisecond :: duration where "millisecond = 1000000"

text \<open>\<open>time.Time{}\<close>, the first of January of the year 1.\<close>

definition zero_time :: time where "zero_time = - 62135596800 * 1000000000"

definition time_Unix :: "int \<Rightarrow> time" where "time_Unix s = s * second"
definition Unix :: "time \<Rightarrow> int" where "Unix t = t div second"
definition time_Add :: "time \<Rightarrow> duration \<Rightarrow> time" where "time_Add t d = t + d"

definition time_Sub :: "time \<Rightarrow> time \<Rightarrow> duration" where
  "time_Sub t u = max (- (2 ^ 63)) (min (2 ^ 63 - 1) (t - u))"

definition dur_mult :: "int \<Rightarrow> duration \<Rightarrow> duration" where
  "dur_mult n d = wrap64 (n * d)"

text \<open>\<open>int(d.Seconds())\<close>: the conversion cuts the fraction off, towards zero.\<close>

definition whole_seconds :: "duration \<Rightarrow> int" where
  "whole_seconds d = d sdiv second"

lemma Unix_time_Unix [simp]: "Unix (time_Unix s) = s"
  by (simp add: Unix_def time_Unix_def second_def)

lemma Unix_Add_seconds [go_arith]: "Unix (time_Add t (s * second)) = Unix t + s"
  by (simp add: Unix_def time_Add_def second_def)

lemma Unix_mono: "t \<le> u \<Longrightarrow> Unix t \<le> Unix u"
  by (simp add: Unix_def second_def zdiv_mono1)

lemma whole_seconds_mult [go_arith]: "whole_seconds (s * second) = s"
  by (cases "s < 0") (auto simp: whole_seconds_def second_def signed_divide_int_def sgn_if)

subsection \<open>Floating-point numbers\<close>

text \<open>
  A \<open>float64\<close> is an exact rational or one of the three special values; the rounding of a
  rational to 53 bits is not modelled. The program divides two integers, compares, prints with
  one decimal and reads decimal literals.
\<close>

datatype float64 = Num rat | PosInf | NegInf | NaN

definition float_of_int :: "int \<Rightarrow> float64" where "float_of_int n = Num (of_int n)"

text \<open>\<open>float64(a) / float64(b)\<close>.\<close>

definition float_ratio :: "int \<Rightarrow> int \<Rightarrow> float64" where
  "float_ratio a b =
     (if b \<noteq> 0 then Num (of_int a / of_int b)
      else if 0 < a then PosInf else if a < 0 then NegInf else NaN)"

fun float_less :: "float64 \<Rightarrow> float64 \<Rightarrow> bool" where
  "float_less (Num a) (Num b) \<longleftrightarrow> a < b"
| "float_less (Num a) PosInf \<longleftrightarrow> True"
| "float_less NegInf (Num b) \<longleftrightarrow> True"
| "float_less NegInf PosInf \<longleftrightarrow> True"
| "float_less _ _ \<longleftrightarrow> False"

fun float_eq :: "float64 \<Rightarrow> float64 \<Rightarrow> bool" where
  "float_eq (Num a) (Num b) \<longleftrightarrow> a = b"
| "float_eq PosInf PosInf \<longleftrightarrow> True"
| "float_eq NegInf NegInf \<longleftrightarrow> True"
| "float_eq _ _ \<longleftrightarrow> False"

lemma float_eq_refl: "float_eq x x \<longleftrightarrow> x \<noteq> NaN"
  by (cases x) auto

lemma float_less_trans: "float_less x y \<Longrightarrow> float_less y z \<Longrightarrow> float_less x z"
  by (cases x; cases y; cases z) auto

lemma float_less_irrefl [simp]: "\<not> float_less x x"
  by (cases x) auto

lemma float_less_negtrans: "y \<noteq> NaN \<Longrightarrow> float_less x z \<Longrightarrow> float_less x y \<or> float_less y z"
  by (cases x; cases y; cases z) auto

subsection \<open>Range over a map\<close>

type_synonym choice = "nat \<Rightarrow> nat"

text \<open>The iteration of a Go map: at each step any of the remaining entries is taken.\<close>

function go_range :: "choice \<Rightarrow> 'a list \<Rightarrow> 'a list" where
  "go_range ch xs =
     (if xs = [] then []
      else let i = ch (length xs) mod length xs
           in xs ! i # go_range ch (take i xs @ drop (Suc i) xs))"
  by pat_completeness auto
termination
proof (relation "measure (\<lambda>(ch, xs). length xs)")
  show "wf (measure (\<lambda>(ch, xs). length xs))" by simp
next
  fix ch :: choice and xs :: "'a list" and i
  assume "xs \<noteq> []" and "i = ch (length xs) mod length xs"
  then have "i < length xs" by simp
  then show "((ch, take i xs @ drop (Suc i) xs), ch, xs) \<in> measure (\<lambda>(ch, xs). length xs)"
    by simp
qed

declare go_range.simps [simp del]

lemma go_range_Nil [simp]: "go_range ch [] = []"
  by (simp add: go_range.simps)

lemma mset_remove_nth:
  assumes "i < length xs"
  shows "add_mset (xs ! i) (mset (take i xs @ drop (Suc i) xs)) = mset xs"
proof -
  have "xs = take i xs @ xs ! i # drop (Suc i) xs"
    using assms by (simp add: Cons_nth_drop_Suc)
  then have "mset xs = mset (take i xs @ xs ! i # drop (Suc i) xs)" by simp
  then show ?thesis by simp
qed

lemma mset_go_range [simp]: "mset (go_range ch xs) = mset xs"
proof (induction ch xs rule: go_range.induct)
  case (1 ch xs)
  show ?case
  proof (cases "xs = []")
    case False
    let ?i = "ch (length xs) mod length xs"
    have "?i < length xs" using False by simp
    moreover have "mset (go_range ch xs) =
        add_mset (xs ! ?i) (mset (take ?i xs @ drop (Suc ?i) xs))"
      using False 1 by (subst go_range.simps) (simp add: Let_def)
    ultimately show ?thesis by (simp only: mset_remove_nth)
  qed simp
qed

lemma set_go_range [simp]: "set (go_range ch xs) = set xs"
  by (metis mset_go_range set_mset_mset)

lemma length_go_range [simp]: "length (go_range ch xs) = length xs"
  by (metis mset_go_range size_mset)

lemma distinct_go_range [simp]: "distinct (go_range ch xs) = distinct xs"
  by (metis mset_eq_imp_distinct_iff mset_go_range)

lemma mset_map_go_range [simp]: "mset (map f (go_range ch xs)) = mset (map f xs)"
  by simp

lemma distinct_map_go_range [simp]: "distinct (map f (go_range ch xs)) = distinct (map f xs)"
  by (metis mset_eq_imp_distinct_iff mset_map_go_range)

text \<open>The choice that takes the first entry each time visits the list as it is.\<close>

lemma go_range_first [simp]: "go_range (\<lambda>_. 0) xs = xs"
proof (induction xs)
  case (Cons x xs)
  then show ?case by (subst go_range.simps) (simp add: Let_def)
qed simp

lemma map_of_go_range [map_facts]:
  "distinct (map fst xs) \<Longrightarrow> map_of (go_range ch xs) = map_of xs"
  by (rule map_of_inject_set [THEN iffD2]) simp_all

subsection \<open>Go maps as association lists\<close>

type_synonym ('k, 'v) gomap = "('k \<times> 'v) list"

text \<open>
  Assignment and deletion are \<open>AList.update\<close> and \<open>AList.delete\<close>; both keep the keys
  distinct. The names below hide that choice from the components.
\<close>

definition mput :: "'k \<Rightarrow> 'v \<Rightarrow> ('k, 'v) gomap \<Rightarrow> ('k, 'v) gomap" where
  "mput k v m = AList.update k v m"

definition mdel :: "'k \<Rightarrow> ('k, 'v) gomap \<Rightarrow> ('k, 'v) gomap" where
  "mdel k m = AList.delete k m"

definition gomap_ok :: "('k, 'v) gomap \<Rightarrow> bool" where
  "gomap_ok m \<longleftrightarrow> distinct (map fst m)"

lemma map_of_mput [map_facts, simp]: "map_of (mput k v m) = (map_of m)(k \<mapsto> v)"
  by (simp add: mput_def update_conv')

lemma map_of_mdel [map_facts, simp]: "map_of (mdel k m) = (map_of m)(k := None)"
  by (simp add: mdel_def delete_conv')

lemma keys_mput [map_facts, simp]: "fst ` set (mput k v m) = insert k (fst ` set m)"
  by (metis dom_map_of_conv_image_fst dom_fun_upd map_of_mput option.distinct(1))

lemma keys_mdel [map_facts, simp]: "fst ` set (mdel k m) = fst ` set m - {k}"
  by (metis dom_map_of_conv_image_fst dom_fun_upd map_of_mdel)

lemma gomap_ok_Nil [simp, intro]: "gomap_ok []"
  by (simp add: gomap_ok_def)

lemma gomap_ok_mput [intro, simp]: "gomap_ok m \<Longrightarrow> gomap_ok (mput k v m)"
  by (simp add: gomap_ok_def mput_def distinct_update)

lemma gomap_ok_mdel [intro, simp]: "gomap_ok m \<Longrightarrow> gomap_ok (mdel k m)"
  by (simp add: gomap_ok_def mdel_def distinct_delete)

lemma gomap_ok_go_range [simp]: "gomap_ok (go_range ch m) = gomap_ok m"
  by (simp add: gomap_ok_def)

lemma map_of_Some_iff [map_facts]: "gomap_ok m \<Longrightarrow> map_of m k = Some v \<longleftrightarrow> (k, v) \<in> set m"
  by (simp add: gomap_ok_def)

lemma mput_eq_Nil [simp]: "mput k v m \<noteq> []"
  by (cases m) (auto simp: mput_def)

lemma set_mput_subset: "set (mput k v m) \<subseteq> insert (k, v) (set m)"
  by (induction m) (auto simp: mput_def)

lemma values_mput_subset: "snd ` set (mput k v m) \<subseteq> insert v (snd ` set m)"
  using set_mput_subset [of k v m] by force

subsection \<open>Indexed loops\<close>

text \<open>\<open>for index := 0; index < n; index++\<close> visits these indices.\<close>

definition upto_index :: "int \<Rightarrow> int list" where
  "upto_index n = [0..n - 1]"

lemma set_upto_index [simp]: "set (upto_index n) = {i. 0 \<le> i \<and> i < n}"
  by (auto simp: upto_index_def)

lemma distinct_upto_index [simp]: "distinct (upto_index n)"
  by (simp add: upto_index_def)

lemma length_upto_index [simp]: "length (upto_index n) = nat n"
  by (simp add: upto_index_def)

text \<open>A fold over a list keeps what each of its steps keeps.\<close>

lemma fold_invariant_set:
  assumes "P s" and "\<And>x s. x \<in> set xs \<Longrightarrow> P s \<Longrightarrow> P (f x s)"
  shows "P (fold f xs s)"
  using assms by (induction xs arbitrary: s) auto

text \<open>
  Many loops of the program store at most one entry per step into a map. Seen through a view
  \<open>V\<close> of the state, the result of the loop is known key by key.
\<close>

lemma fold_view_out:
  assumes "\<And>x s. x \<in> set xs \<Longrightarrow> V (f x s) = (if P x then (V s)(k x \<mapsto> m x) else V s)"
    and "y \<notin> k ` set xs"
  shows "V (fold f xs s) y = V s y"
  using assms by (induction xs arbitrary: s) auto

lemma fold_view_in:
  assumes "\<And>x s. x \<in> set xs \<Longrightarrow> V (f x s) = (if P x then (V s)(k x \<mapsto> m x) else V s)"
    and "distinct (map k xs)" and "x \<in> set xs"
  shows "V (fold f xs s) (k x) = (if P x then Some (m x) else V s (k x))"
  using assms
proof (induction xs arbitrary: s)
  case (Cons y ys)
  show ?case
  proof (cases "x = y")
    case True
    have "k x \<notin> k ` set ys" using Cons.prems True by auto
    then have "V (fold f ys (f y s)) (k x) = V (f y s) (k x)"
      using Cons.prems(1) by (intro fold_view_out) auto
    then show ?thesis using True Cons.prems(1) [of y s] by simp
  next
    case False
    then have x: "x \<in> set ys" using Cons.prems by simp
    moreover have "k y \<noteq> k x" using Cons.prems(2) x by auto
    ultimately show ?thesis using Cons.IH [of "f y s"] Cons.prems by auto
  qed
qed simp

end
