(* ===== verification/Go_Strings.thy ===== *)
theory Go_Strings imports Go_Runtime "HOL-Library.Char_ord" begin

text \<open>
  The functions of \<open>strconv\<close>, \<open>strings\<close> and \<open>fmt\<close> that the program calls, on strings of
  bytes: \<open>Itoa\<close>, \<open>Atoi\<close>, \<open>Split\<close> and \<open>Join\<close> on one-byte separators, the verb \<open>%.1f\<close> and
  \<open>ParseFloat\<close>, with the round trips the codecs of the models need.
\<close>

named_theorems text_facts \<open>which characters a printed number can hold\<close>

subsection \<open>Decimal digits\<close>

definition digit_char :: "nat \<Rightarrow> char" where "digit_char d = char_of (48 + d)"

definition is_digit :: "char \<Rightarrow> bool" where
  "is_digit c \<longleftrightarrow> 48 \<le> (of_char c :: nat) \<and> (of_char c :: nat) \<le> 57"

definition digit_val :: "char \<Rightarrow> nat" where "digit_val c = of_char c - 48"

fun digits_of :: "nat \<Rightarrow> string" where
  "digits_of n = (if n < 10 then [digit_char n] else digits_of (n div 10) @ [digit_char (n mod 10)])"

declare digits_of.simps [simp del]

definition nat_of_digits :: "string \<Rightarrow> nat" where
  "nat_of_digits s = foldl (\<lambda>a c. 10 * a + digit_val c) 0 s"

lemma digit_val_char [simp]: "d < 10 \<Longrightarrow> digit_val (digit_char d) = d"
  by (simp add: digit_val_def digit_char_def)

lemma is_digit_char [simp]: "d < 10 \<Longrightarrow> is_digit (digit_char d)"
  by (simp add: is_digit_def digit_char_def)

lemma digits_of_digits [text_facts]: "c \<in> set (digits_of n) \<Longrightarrow> is_digit c"
proof (induction n rule: digits_of.induct)
  case (1 n)
  then show ?case
    by (subst (asm) (2) digits_of.simps) (auto split: if_splits)
qed

lemma digits_of_nonempty [simp]: "digits_of n \<noteq> []"
  by (subst digits_of.simps) simp

lemma nat_of_digits_append [simp]:
  "nat_of_digits (s @ [c]) = 10 * nat_of_digits s + digit_val c"
  by (simp add: nat_of_digits_def)

lemma nat_of_digits_of [simp]: "nat_of_digits (digits_of n) = n"
proof (induction n rule: digits_of.induct)
  case (1 n)
  show ?case
  proof (cases "n < 10")
    case True
    then show ?thesis by (subst digits_of.simps) (simp add: nat_of_digits_def)
  next
    case False
    with 1 show ?thesis by (subst digits_of.simps) simp
  qed
qed

lemma digits_of_inject [simp]: "digits_of m = digits_of n \<longleftrightarrow> m = n"
  by (metis nat_of_digits_of)

lemma filter_digits_of [simp]:
  "takeWhile is_digit (digits_of n @ r) = digits_of n @ takeWhile is_digit r"
  "dropWhile is_digit (digits_of n @ r) = dropWhile is_digit r"
  by (auto simp: takeWhile_append2 dropWhile_append2 digits_of_digits)

lemma list_all_digits_of [simp]: "list_all is_digit (digits_of n)"
  by (auto simp: list_all_iff digits_of_digits)

subsection \<open>Itoa and Atoi\<close>

definition itoa :: "int \<Rightarrow> string" where
  "itoa n = (if n < 0 then CHR ''-'' # digits_of (nat (- n)) else digits_of (nat n))"

text \<open>An optional sign, then at least one digit and nothing else.\<close>

definition unsigned_digits :: "string \<Rightarrow> int option" where
  "unsigned_digits s = (if s \<noteq> [] \<and> list_all is_digit s then Some (int (nat_of_digits s)) else None)"

fun signed_digits :: "string \<Rightarrow> int option" where
  "signed_digits [] = None"
| "signed_digits (c # s) =
     (if c = CHR ''-'' then map_option uminus (unsigned_digits s)
      else if c = CHR ''+'' then unsigned_digits s
      else unsigned_digits (c # s))"

definition atoi :: "string \<Rightarrow> int option" where
  "atoi s = (case signed_digits s of
     None \<Rightarrow> None
   | Some n \<Rightarrow> if in_int64 n then Some n else None)"

lemma sign_not_digit [simp]: "\<not> is_digit CHR ''-''" "\<not> is_digit CHR ''+''"
  by (simp_all add: is_digit_def)

lemma unsigned_digits_of [simp]: "unsigned_digits (digits_of n) = Some (int n)"
  by (simp add: unsigned_digits_def)

lemma signed_digits_of [simp]: "signed_digits (digits_of n) = Some (int n)"
proof -
  obtain c s where cs: "digits_of n = c # s" by (cases "digits_of n") auto
  then have "is_digit c" by (metis digits_of_digits list.set_intros(1))
  then have "c \<noteq> CHR ''-''" "c \<noteq> CHR ''+''" by auto
  then show ?thesis using unsigned_digits_of [of n] by (simp add: cs)
qed

lemma signed_digits_itoa [simp]: "signed_digits (itoa n) = Some n"
  by (auto simp: itoa_def)

lemma atoi_itoa [simp]: "in_int64 n \<Longrightarrow> atoi (itoa n) = Some n"
  by (simp add: atoi_def)

lemma itoa_inject [simp]: "itoa m = itoa n \<longleftrightarrow> m = n"
  by (metis option.inject signed_digits_itoa)

lemma itoa_chars [text_facts]: "c \<in> set (itoa n) \<Longrightarrow> is_digit c \<or> c = CHR ''-''"
  by (auto simp: itoa_def dest: digits_of_digits split: if_splits)

lemma itoa_no_separator [simp]:
  "CHR '','' \<notin> set (itoa n)" "CHR ''/'' \<notin> set (itoa n)"
  by (auto dest: itoa_chars simp: is_digit_def)

lemma itoa_nonempty [simp]: "itoa n \<noteq> []"
  by (simp add: itoa_def)

subsection \<open>Split and Join\<close>

text \<open>\<open>strings.Split(s, sep)\<close> for a separator of one byte: the empty string has one part.\<close>

fun split_on :: "char \<Rightarrow> string \<Rightarrow> string list" where
  "split_on c [] = [[]]"
| "split_on c (x # xs) =
     (if x = c then [] # split_on c xs
      else case split_on c xs of [] \<Rightarrow> [[x]] | w # ws \<Rightarrow> (x # w) # ws)"

fun join_with :: "string \<Rightarrow> string list \<Rightarrow> string" where
  "join_with sep [] = []"
| "join_with sep [w] = w"
| "join_with sep (w # v # ws) = w @ sep @ join_with sep (v # ws)"

lemma split_on_nonempty [simp]: "split_on c s \<noteq> []"
  by (induction s) (auto split: list.split)

lemma split_on_append [simp]:
  "c \<notin> set a \<Longrightarrow> split_on c (a @ c # b) = a # split_on c b"
  by (induction a) auto

lemma split_on_single [simp]: "c \<notin> set a \<Longrightarrow> split_on c a = [a]"
  by (induction a) auto

lemma join_split_on [simp]: "join_with [c] (split_on c s) = s"
proof (induction s)
  case (Cons x xs)
  then show ?case
    by (cases "split_on c xs" rule: list.exhaust) (auto, (case_tac x22; simp)+)
qed simp

lemma length_split_on: "length (split_on c s) = Suc (count_list s c)"
  by (induction s) (auto split: list.split)

lemma split_on_concat: "split_on c (a @ c # b) = split_on c a @ split_on c b"
  by (induction a) (auto split: list.split)

lemma split_on_last: "c \<notin> set b \<Longrightarrow> last (split_on c (a @ c # b)) = b"
  by (simp add: split_on_concat)

subsection \<open>One decimal of a float64\<close>

definition round_half_even :: "rat \<Rightarrow> int" where
  "round_half_even r =
     (let n = \<lfloor>r\<rfloor>; f = r - of_int n in
      if f < 1 / 2 then n else if 1 / 2 < f then n + 1 else if even n then n else n + 1)"

text \<open>The verb \<open>%.1f\<close>: the nearest tenth, ties to even.\<close>

fun fmt1 :: "float64 \<Rightarrow> string" where
  "fmt1 (Num r) =
     (let n = nat (round_half_even (10 * \<bar>r\<bar>)) in
      (if r < 0 then ''-'' else []) @ digits_of (n div 10) @ ''.'' @ digits_of (n mod 10))"
| "fmt1 PosInf = ''+Inf''"
| "fmt1 NegInf = ''-Inf''"
| "fmt1 NaN = ''NaN''"

text \<open>The number that \<open>fmt1\<close> prints.\<close>

definition round1 :: "rat \<Rightarrow> rat" where
  "round1 r = (if r < 0 then -1 else 1) * (of_int (round_half_even (10 * \<bar>r\<bar>)) / 10)"

subsection \<open>ParseFloat\<close>

definition lower :: "char \<Rightarrow> char" where
  "lower c = (let n = (of_char c :: nat) in if 65 \<le> n \<and> n \<le> 90 then char_of (n + 32) else c)"

definition scale10 :: "rat \<Rightarrow> int \<Rightarrow> rat" where
  "scale10 m e = (if 0 \<le> e then m * 10 ^ nat e else m / 10 ^ nat (- e))"

text \<open>Digits with an optional point, then an optional exponent; no sign.\<close>

definition parse_decimal :: "string \<Rightarrow> rat option" where
  "parse_decimal s =
     (let ip = takeWhile is_digit s; r1 = dropWhile is_digit s;
          fp = (case r1 of [] \<Rightarrow> [] | c # r \<Rightarrow> if c = CHR ''.'' then takeWhile is_digit r else []);
          r2 = (case r1 of [] \<Rightarrow> [] | c # r \<Rightarrow> if c = CHR ''.'' then dropWhile is_digit r else r1);
          m = of_nat (nat_of_digits (ip @ fp)) / 10 ^ length fp
      in if ip = [] \<and> fp = [] then None
         else case r2 of
                [] \<Rightarrow> Some m
              | c # r \<Rightarrow> if lower c = CHR ''e'' then map_option (scale10 m) (signed_digits r) else None)"

text \<open>The least value that rounds to infinity: halfway above the largest \<open>float64\<close>.\<close>

definition float_limit :: rat where "float_limit = 2 ^ 1024 - 2 ^ 970"

definition finite_float :: "rat \<Rightarrow> float64 option" where
  "finite_float r = (if \<bar>r\<bar> < float_limit then Some (Num r) else None)"

text \<open>Small numbers are settled without the limit, which is long to write out.\<close>

lemma finite_float_small [code]:
  "finite_float r = (if \<bar>r\<bar> < 4294967296 then Some (Num r)
     else if \<bar>r\<bar> < float_limit then Some (Num r) else None)"
proof -
  have "(4294967296 :: rat) < float_limit" by (simp add: float_limit_def)
  then show ?thesis by (simp add: finite_float_def)
qed

fun parse_float :: "string \<Rightarrow> float64 option" where
  "parse_float s =
     (let l = map lower s in
      if l = ''nan'' then Some NaN
      else if l \<in> {''inf'', ''+inf'', ''infinity'', ''+infinity''} then Some PosInf
      else if l \<in> {''-inf'', ''-infinity''} then Some NegInf
      else case s of
             [] \<Rightarrow> None
           | c # r \<Rightarrow>
               if c = CHR ''-'' then Option.bind (parse_decimal r) (\<lambda>m. finite_float (- m))
               else if c = CHR ''+'' then Option.bind (parse_decimal r) finite_float
               else Option.bind (parse_decimal s) finite_float)"

declare parse_float.simps [simp del]

lemma round_half_even_nonneg: "0 \<le> r \<Longrightarrow> 0 \<le> round_half_even r"
  by (simp add: round_half_even_def Let_def)

lemma round_half_even_of_int [simp]: "round_half_even (of_int n) = n"
  by (simp add: round_half_even_def)

lemma length_digit [simp]: "d < 10 \<Longrightarrow> digits_of d = [digit_char d]"
  by (simp add: digits_of.simps)

lemma point_not_digit [simp]: "\<not> is_digit CHR ''.''"
  by (simp add: is_digit_def)

lemma parse_decimal_fmt1:
  assumes "d < 10"
  shows "parse_decimal (digits_of i @ ''.'' @ digits_of d) = Some ((of_nat (10 * i + d)) / 10)"
proof -
  have "nat_of_digits (digits_of i @ [digit_char d]) = 10 * i + d"
    using assms by simp
  then show ?thesis
    using assms by (simp add: parse_decimal_def Let_def)
qed

lemma lower_digit: "is_digit c \<Longrightarrow> lower c = c"
  by (auto simp: is_digit_def lower_def Let_def)

lemma number_not_special:
  assumes "is_digit c"
  shows "map lower (c # s) \<noteq> ''nan''"
    and "map lower (c # s) \<notin> {''inf'', ''+inf'', ''infinity'', ''+infinity''}"
    and "map lower (c # s) \<notin> {''-inf'', ''-infinity''}"
    and "map lower (CHR ''-'' # c # s) \<noteq> ''nan''"
    and "map lower (CHR ''-'' # c # s) \<notin> {''inf'', ''+inf'', ''infinity'', ''+infinity''}"
    and "map lower (CHR ''-'' # c # s) \<notin> {''-inf'', ''-infinity''}"
  using assms by (auto simp: lower_digit is_digit_def)

lemma digits_of_Cons: "\<exists>c s. digits_of n = c # s \<and> is_digit c"
  by (metis digits_of_digits digits_of_nonempty list.exhaust list.set_intros(1))

text \<open>Reading back what \<open>%.1f\<close> printed gives the rounded number.\<close>

lemma parse_float_fmt1:
  assumes "\<bar>round1 r\<bar> < float_limit"
  shows "parse_float (fmt1 (Num r)) = Some (Num (round1 r))"
proof -
  define k where "k = round_half_even (10 * \<bar>r\<bar>)"
  define n where "n = nat k"
  have k0: "0 \<le> k" by (simp add: k_def round_half_even_nonneg)
  have kn: "of_int k = (of_nat n :: rat)" using k0 by (simp add: n_def)
  obtain c s where cs: "digits_of (n div 10) = c # s" and c: "is_digit c"
    using digits_of_Cons by blast
  have dec: "parse_decimal (digits_of (n div 10) @ ''.'' @ digits_of (n mod 10)) = Some (of_nat n / 10)"
    using parse_decimal_fmt1 [of "n mod 10" "n div 10"] by simp
  have fmt: "fmt1 (Num r) =
      (if r < 0 then ''-'' else []) @ digits_of (n div 10) @ ''.'' @ digits_of (n mod 10)"
    by (simp only: fmt1.simps n_def k_def Let_def)
  have nc: "c \<noteq> CHR ''-''" "c \<noteq> CHR ''+''" using c by auto
  show ?thesis
  proof (cases "r < 0")
    case True
    then have r: "round1 r = - (of_nat n / 10)" by (simp add: round1_def k_def flip: kn)
    have "fmt1 (Num r) = CHR ''-'' # c # (s @ ''.'' @ digits_of (n mod 10))"
      using True by (simp add: fmt cs del: length_digit fmt1.simps)
    then show ?thesis
      using number_not_special(4-6) [OF c, of "s @ ''.'' @ digits_of (n mod 10)"] dec assms r
      by (simp add: parse_float.simps [of "CHR ''-'' # _"] finite_float_def cs Let_def
          del: length_digit list.map insert_iff)
  next
    case False
    then have r: "round1 r = of_nat n / 10" by (simp add: round1_def k_def flip: kn)
    have "fmt1 (Num r) = c # (s @ ''.'' @ digits_of (n mod 10))"
      using False by (simp add: fmt cs del: length_digit fmt1.simps)
    then show ?thesis
      using number_not_special(1-3) [OF c, of "s @ ''.'' @ digits_of (n mod 10)"] dec assms r nc
      by (simp add: parse_float.simps [of "c # _"] finite_float_def cs Let_def
          del: length_digit list.map insert_iff)
  qed
qed

lemma fmt1_no_comma [simp]: "CHR '','' \<notin> set (fmt1 x)"
  by (cases x) (auto simp: Let_def is_digit_def simp del: length_digit dest!: digits_of_digits)

text \<open>A multiple of a tenth survives.\<close>

lemma round1_tenth [simp]: "round1 (of_int n / 10) = of_int n / 10"
proof -
  have "10 * \<bar>of_int n / 10 :: rat\<bar> = of_int \<bar>n\<bar>" by (simp add: abs_if)
  then show ?thesis by (simp add: round1_def abs_if)
qed

lemma round1_idem [simp]: "round1 (round1 r) = round1 r"
proof -
  have "round1 r = of_int ((if r < 0 then -1 else 1) * round_half_even (10 * \<bar>r\<bar>)) / 10"
    by (simp add: round1_def)
  then show ?thesis by (metis round1_tenth)
qed

end
