(* ===== verification/Go_Json.thy ===== *)
theory Go_Json imports Go_Strings begin

text \<open>
  What the program uses of \<open>encoding/json\<close> and \<open>encoding/base64\<close>.

  JSON is modelled on the level of documents: a byte sequence is either the text of a document
  or some other text, and the lexer and the printer between text and document are left out.
  Decoding into a struct follows \<open>Unmarshal\<close>: keys are compared without regard to case, an
  unknown key is skipped, \<open>null\<close> leaves a field as it is, the last of several entries wins and
  an entry of the wrong type makes the call fail. Numbers written with a fraction or an exponent
  are kept apart from integers because a Go \<open>int\<close> field refuses them.
\<close>

subsection \<open>Documents\<close>

datatype json =
    JNull
  | JBool bool
  | JInt int
  | JDec rat
  | JStr string
  | JArr "json list"
  | JObj "(string \<times> json) list"

datatype bytes = Raw string | Doc json

definition fold_eq :: "string \<Rightarrow> string \<Rightarrow> bool" where
  "fold_eq k k' \<longleftrightarrow> map lower k = map lower k'"

lemma fold_eq_refl [simp]: "fold_eq k k"
  by (simp add: fold_eq_def)

subsection \<open>Decoding\<close>

fun jint :: "json \<Rightarrow> int option" where
  "jint (JInt n) = (if in_int64 n then Some n else None)"
| "jint _ = None"

fun jfloat :: "json \<Rightarrow> float64 option" where
  "jfloat (JInt n) = finite_float (of_int n)"
| "jfloat (JDec r) = finite_float r"
| "jfloat _ = None"

fun jstr :: "json \<Rightarrow> string option" where
  "jstr (JStr s) = Some s"
| "jstr _ = None"

fun jbool :: "json \<Rightarrow> bool option" where
  "jbool (JBool b) = Some b"
| "jbool _ = None"

text \<open>The value of one field after all entries of an object were stored into it in turn.\<close>

fun jfield :: "(json \<Rightarrow> 'a option) \<Rightarrow> string \<Rightarrow> 'a \<Rightarrow> (string \<times> json) list \<Rightarrow> 'a option" where
  "jfield dec k v [] = Some v"
| "jfield dec k v ((k', j) # fs) =
     (if fold_eq k k' \<and> j \<noteq> JNull
      then (case dec j of None \<Rightarrow> None | Some v' \<Rightarrow> jfield dec k v' fs)
      else jfield dec k v fs)"

lemma jfield_append:
  "jfield dec k v (fs @ gs) =
     (case jfield dec k v fs of None \<Rightarrow> None | Some v' \<Rightarrow> jfield dec k v' gs)"
  by (induction fs arbitrary: v) (auto split: option.split)

text \<open>\<open>json.Unmarshal\<close> into a struct with the given zero value and field decoder.\<close>

fun unmarshal_struct :: "((string \<times> json) list \<Rightarrow> 'a option) \<Rightarrow> 'a \<Rightarrow> bytes \<Rightarrow> 'a option" where
  "unmarshal_struct dec zero (Doc (JObj fs)) = dec fs"
| "unmarshal_struct dec zero (Doc JNull) = Some zero"
| "unmarshal_struct dec zero _ = None"

text \<open>\<open>json.Unmarshal\<close> into a slice of structs.\<close>

fun map_opt :: "('a \<Rightarrow> 'b option) \<Rightarrow> 'a list \<Rightarrow> 'b list option" where
  "map_opt f [] = Some []"
| "map_opt f (x # xs) =
     (case f x of None \<Rightarrow> None
      | Some y \<Rightarrow> (case map_opt f xs of None \<Rightarrow> None | Some ys \<Rightarrow> Some (y # ys)))"

fun unmarshal_slice :: "(bytes \<Rightarrow> 'a option) \<Rightarrow> bytes \<Rightarrow> 'a list option" where
  "unmarshal_slice elem (Doc (JArr js)) = map_opt (elem \<circ> Doc) js"
| "unmarshal_slice elem (Doc JNull) = Some []"
| "unmarshal_slice elem _ = None"

lemma map_opt_map: "(\<And>x. x \<in> set xs \<Longrightarrow> f (g x) = Some x) \<Longrightarrow> map_opt f (map g xs) = Some xs"
  by (induction xs) auto

subsection \<open>Encoding\<close>

text \<open>A \<open>float64\<close> with an integral value is printed without a point; \<open>NaN\<close> and the
  infinities make \<open>Marshal\<close> fail.\<close>

fun enc_float :: "float64 \<Rightarrow> json option" where
  "enc_float (Num r) = Some (if r = of_int \<lfloor>r\<rfloor> \<and> \<bar>r\<bar> < 10 ^ 21 then JInt \<lfloor>r\<rfloor> else JDec r)"
| "enc_float _ = None"

text \<open>The callers drop the error of \<open>Marshal\<close> and go on with the empty result.\<close>

definition marshal :: "json option \<Rightarrow> bytes" where
  "marshal j = (case j of None \<Rightarrow> Raw [] | Some d \<Rightarrow> Doc d)"

definition float_ok :: "float64 \<Rightarrow> bool" where
  "float_ok x = (case x of Num r \<Rightarrow> \<bar>r\<bar> < float_limit | _ \<Rightarrow> False)"

lemma jint_int [simp]: "in_int64 n \<Longrightarrow> jint (JInt n) = Some n"
  by simp

lemma float_ok_cases: "float_ok x \<Longrightarrow> \<exists>r. x = Num r \<and> \<bar>r\<bar> < float_limit"
  by (auto simp: float_ok_def split: float64.splits)

lemma enc_float_roundtrip:
  assumes "float_ok x"
  shows "\<exists>j. enc_float x = Some j \<and> j \<noteq> JNull \<and> jfloat j = Some x"
  using float_ok_cases [OF assms] by (force simp: finite_float_def)

subsection \<open>Base64, standard alphabet with padding\<close>

definition b64_alphabet :: string where
  "b64_alphabet = ''ABCDEFGHIJKLMNOPQRSTUVWXYZabcdefghijklmnopqrstuvwxyz0123456789+/''"

definition b64_char :: "nat \<Rightarrow> char" where "b64_char n = b64_alphabet ! n"

fun index_of :: "'a \<Rightarrow> 'a list \<Rightarrow> nat option" where
  "index_of x [] = None"
| "index_of x (y # ys) = (if x = y then Some 0 else map_option Suc (index_of x ys))"

definition b64_val :: "char \<Rightarrow> nat option" where "b64_val c = index_of c b64_alphabet"

abbreviation byte_of :: "char \<Rightarrow> nat" where "byte_of c \<equiv> of_char c"

text \<open>Three bytes make four characters of six bits; a rest of one or two bytes is padded.\<close>

fun b64_encode :: "string \<Rightarrow> string" where
  "b64_encode [] = []"
| "b64_encode [a] =
     [b64_char (byte_of a div 4), b64_char (byte_of a mod 4 * 16), CHR ''='', CHR ''='']"
| "b64_encode [a, b] =
     [b64_char (byte_of a div 4), b64_char (byte_of a mod 4 * 16 + byte_of b div 16),
      b64_char (byte_of b mod 16 * 4), CHR ''='']"
| "b64_encode (a # b # c # s) =
     b64_char (byte_of a div 4) # b64_char (byte_of a mod 4 * 16 + byte_of b div 16)
     # b64_char (byte_of b mod 16 * 4 + byte_of c div 64) # b64_char (byte_of c mod 64)
     # b64_encode s"

text \<open>
  Decoding takes four characters at a time; padding is accepted in the last group only. The
  line breaks that \<open>DecodeString\<close> skips are left out first. Trailing bits are not checked.
\<close>

fun b64_groups :: "string \<Rightarrow> string option" where
  "b64_groups [] = Some []"
| "b64_groups (p # q # r # t # s) =
     (case (b64_val p, b64_val q) of
        (Some i, Some j) \<Rightarrow>
          if r = CHR ''='' then
            (if t = CHR ''='' \<and> s = [] then Some [char_of (i * 4 + j div 16)] else None)
          else (case b64_val r of
            None \<Rightarrow> None
          | Some k \<Rightarrow>
              if t = CHR ''='' then
                (if s = [] then Some [char_of (i * 4 + j div 16), char_of (j mod 16 * 16 + k div 4)]
                 else None)
              else (case b64_val t of
                None \<Rightarrow> None
              | Some l \<Rightarrow>
                  map_option (\<lambda>d. char_of (i * 4 + j div 16) # char_of (j mod 16 * 16 + k div 4)
                                 # char_of (k mod 4 * 64 + l) # d) (b64_groups s)))
      | _ \<Rightarrow> None)"
| "b64_groups _ = None"

definition b64_decode :: "string \<Rightarrow> string option" where
  "b64_decode s = b64_groups (filter (\<lambda>c. c \<noteq> CHR 0x0A \<and> c \<noteq> CHR 0x0D) s)"

lemma b64_alphabet_facts:
  "length b64_alphabet = 64" "distinct b64_alphabet"
  "CHR ''='' \<notin> set b64_alphabet" "CHR '' '' \<notin> set b64_alphabet"
  "CHR 0x0A \<notin> set b64_alphabet" "CHR 0x0D \<notin> set b64_alphabet"
  by (code_simp)+

lemma index_of_nth: "distinct xs \<Longrightarrow> n < length xs \<Longrightarrow> index_of (xs ! n) xs = Some n"
proof (induction xs arbitrary: n)
  case (Cons x xs)
  then show ?case by (cases n) auto
qed simp

lemma b64_val_char [simp]: "n < 64 \<Longrightarrow> b64_val (b64_char n) = Some n"
  by (simp add: b64_val_def b64_char_def index_of_nth b64_alphabet_facts)

lemma b64_char_in [simp]: "n < 64 \<Longrightarrow> b64_char n \<in> set b64_alphabet"
  by (simp add: b64_char_def b64_alphabet_facts)

lemma b64_char_neq [simp]:
  assumes "n < 64"
  shows "b64_char n \<noteq> CHR ''=''" "b64_char n \<noteq> CHR 0x0A" "b64_char n \<noteq> CHR 0x0D"
    "b64_char n \<noteq> CHR '' ''"
  using b64_char_in [OF assms] b64_alphabet_facts by metis+

lemma byte_of_bound [simp]: "byte_of c < 256"
  by (rule nat_of_char_less_256)

lemma byte_bits [simp]:
  "byte_of a div 4 < 64" "byte_of a mod 4 * 16 < 64" "byte_of b mod 16 * 4 < 64"
  "byte_of a mod 4 * 16 + byte_of b div 16 < 64"
  "byte_of b mod 16 * 4 + byte_of c div 64 < 64"
  using byte_of_bound [of a] byte_of_bound [of b] byte_of_bound [of c] by linarith+

lemma byte_top_bits [simp]:
  "byte_of b div 16 div 16 = 0" "byte_of c div 64 div 4 = 0"
  "byte_of b div 16 mod 16 = byte_of b div 16" "byte_of c div 64 mod 4 = byte_of c div 64"
proof -
  have "byte_of b div 16 < 16" and "byte_of c div 64 < 4"
    using byte_of_bound [of b] byte_of_bound [of c] by linarith+
  then show "byte_of b div 16 div 16 = 0" "byte_of c div 64 div 4 = 0"
    "byte_of b div 16 mod 16 = byte_of b div 16" "byte_of c div 64 mod 4 = byte_of c div 64"
    by simp_all
qed

lemma b64_groups_encode: "b64_groups (b64_encode s) = Some s"
  by (induction s rule: b64_encode.induct) simp_all

lemma b64_encode_chars: "c \<in> set (b64_encode s) \<Longrightarrow> c \<in> set b64_alphabet \<or> c = CHR ''=''"
  by (induction s rule: b64_encode.induct) auto

lemma b64_encode_no_space: "CHR '' '' \<notin> set (b64_encode s)"
  using b64_encode_chars b64_alphabet_facts by fastforce

lemma b64_roundtrip [simp]: "b64_decode (b64_encode s) = Some s"
proof -
  have "filter (\<lambda>c. c \<noteq> CHR 0x0A \<and> c \<noteq> CHR 0x0D) (b64_encode s) = b64_encode s"
    unfolding filter_id_conv using b64_encode_chars b64_alphabet_facts(5,6) by fastforce
  then show ?thesis by (simp add: b64_decode_def b64_groups_encode)
qed

end
