(* ===== verification/Heartbeats.thy ===== *)
theory Heartbeats imports Go_Json "HOL-Library.Monad_Syntax" begin

text \<open>
  \<open>models/instance_heartbeat.go\<close> and \<open>models/heartbeat.go\<close>: what a DEA reports about the
  instances it runs, and the CSV and JSON forms of the reports. Field names carry the prefix
  \<open>hb_\<close> because several structs share them.
\<close>

type_synonym InstanceState = string

definition InstanceStateInvalid :: InstanceState where "InstanceStateInvalid = ''''"
definition InstanceStateStarting :: InstanceState where "InstanceStateStarting = ''STARTING''"
definition InstanceStateRunning :: InstanceState where "InstanceStateRunning = ''RUNNING''"
definition InstanceStateCrashed :: InstanceState where "InstanceStateCrashed = ''CRASHED''"
definition InstanceStateEvacuating :: InstanceState where "InstanceStateEvacuating = ''EVACUATING''"

named_theorems state_defs \<open>the values of the instance states\<close>

lemmas instance_state_defs [state_defs] =
  InstanceStateInvalid_def InstanceStateStarting_def InstanceStateRunning_def
  InstanceStateCrashed_def InstanceStateEvacuating_def

record InstanceHeartbeat =
  hb_AppGuid :: string
  hb_AppVersion :: string
  hb_InstanceGuid :: string
  hb_InstanceIndex :: int
  hb_State :: InstanceState
  hb_StateTimestamp :: float64
  hb_DeaGuid :: string

text \<open>\<open>InstanceHeartbeat{}\<close>.\<close>

definition zero_InstanceHeartbeat :: InstanceHeartbeat where
  "zero_InstanceHeartbeat = \<lparr>hb_AppGuid = [], hb_AppVersion = [], hb_InstanceGuid = [],
     hb_InstanceIndex = 0, hb_State = [], hb_StateTimestamp = Num 0, hb_DeaGuid = []\<rparr>"

definition IsStarting :: "InstanceHeartbeat \<Rightarrow> bool" where
  "IsStarting h \<longleftrightarrow> hb_State h = InstanceStateStarting"

definition IsRunning :: "InstanceHeartbeat \<Rightarrow> bool" where
  "IsRunning h \<longleftrightarrow> hb_State h = InstanceStateRunning"

definition IsStartingOrRunning :: "InstanceHeartbeat \<Rightarrow> bool" where
  "IsStartingOrRunning h \<longleftrightarrow> IsStarting h \<or> IsRunning h"

definition IsCrashed :: "InstanceHeartbeat \<Rightarrow> bool" where
  "IsCrashed h \<longleftrightarrow> hb_State h = InstanceStateCrashed"

definition IsEvacuating :: "InstanceHeartbeat \<Rightarrow> bool" where
  "IsEvacuating h \<longleftrightarrow> hb_State h = InstanceStateEvacuating"

lemma instance_states_disjoint:
  "IsEvacuating h \<Longrightarrow> \<not> IsStartingOrRunning h" "IsEvacuating h \<Longrightarrow> \<not> IsCrashed h"
  "IsCrashed h \<Longrightarrow> \<not> IsStartingOrRunning h"
  by (auto simp: IsEvacuating_def IsStartingOrRunning_def IsStarting_def IsRunning_def
      IsCrashed_def state_defs)

definition InstanceHeartbeat_StoreKey :: "InstanceHeartbeat \<Rightarrow> string" where
  "InstanceHeartbeat_StoreKey h = hb_InstanceGuid h"

subsection \<open>CSV\<close>

datatype csv_error = WrongNumberOfValues nat | BadInteger string | BadFloat string

definition InstanceHeartbeat_ToCSV :: "InstanceHeartbeat \<Rightarrow> string" where
  "InstanceHeartbeat_ToCSV h =
     itoa (hb_InstanceIndex h) @ '','' @ hb_State h @ '','' @ fmt1 (hb_StateTimestamp h) @ '',''
     @ hb_DeaGuid h"

definition NewInstanceHeartbeatFromCSV ::
    "string \<Rightarrow> string \<Rightarrow> string \<Rightarrow> string \<Rightarrow> csv_error + InstanceHeartbeat" where
  "NewInstanceHeartbeatFromCSV appGuid appVersion instanceGuid encoded =
     (let values = split_on CHR '','' encoded in
      if length values \<noteq> 4 then Inl (WrongNumberOfValues (length values))
      else case atoi (values ! 0) of
             None \<Rightarrow> Inl (BadInteger (values ! 0))
           | Some instanceIndex \<Rightarrow>
               (case parse_float (values ! 2) of
                  None \<Rightarrow> Inl (BadFloat (values ! 2))
                | Some stateTimestamp \<Rightarrow>
                    Inr \<lparr>hb_AppGuid = appGuid, hb_AppVersion = appVersion,
                         hb_InstanceGuid = instanceGuid, hb_InstanceIndex = instanceIndex,
                         hb_State = values ! 1, hb_StateTimestamp = stateTimestamp,
                         hb_DeaGuid = values ! 3\<rparr>))"

text \<open>The heartbeats that CSV can carry: no comma in a text field and a finite timestamp.\<close>

definition csv_ok :: "InstanceHeartbeat \<Rightarrow> bool" where
  "csv_ok h \<longleftrightarrow> in_int64 (hb_InstanceIndex h) \<and> CHR '','' \<notin> set (hb_State h)
     \<and> CHR '','' \<notin> set (hb_DeaGuid h)
     \<and> (case hb_StateTimestamp h of Num r \<Rightarrow> \<bar>round1 r\<bar> < float_limit | _ \<Rightarrow> False)"

fun round_timestamp :: "float64 \<Rightarrow> float64" where
  "round_timestamp (Num r) = Num (round1 r)"
| "round_timestamp x = x"

lemma InstanceHeartbeat_csv_roundtrip:
  assumes "csv_ok h"
  shows "NewInstanceHeartbeatFromCSV (hb_AppGuid h) (hb_AppVersion h) (hb_InstanceGuid h)
           (InstanceHeartbeat_ToCSV h) =
         Inr (h\<lparr>hb_StateTimestamp := round_timestamp (hb_StateTimestamp h)\<rparr>)"
proof -
  obtain r where r: "hb_StateTimestamp h = Num r" and lim: "\<bar>round1 r\<bar> < float_limit"
    using assms by (auto simp: csv_ok_def split: float64.splits)
  have "split_on CHR '','' (InstanceHeartbeat_ToCSV h) =
      [itoa (hb_InstanceIndex h), hb_State h, fmt1 (Num r), hb_DeaGuid h]"
    using assms r by (simp add: InstanceHeartbeat_ToCSV_def csv_ok_def del: fmt1.simps)
  then show ?thesis
    using assms r lim
    by (simp add: NewInstanceHeartbeatFromCSV_def csv_ok_def parse_float_fmt1 del: fmt1.simps)
qed

lemma NewInstanceHeartbeatFromCSV_fields:
  assumes "NewInstanceHeartbeatFromCSV g v i s = Inr h"
  shows "hb_AppGuid h = g" "hb_AppVersion h = v" "hb_InstanceGuid h = i"
  using assms by (auto simp: NewInstanceHeartbeatFromCSV_def Let_def split: if_splits option.splits)

subsection \<open>JSON\<close>

definition InstanceHeartbeat_json :: "InstanceHeartbeat \<Rightarrow> json option" where
  "InstanceHeartbeat_json h =
     (case enc_float (hb_StateTimestamp h) of
        None \<Rightarrow> None
      | Some t \<Rightarrow> Some (JObj
          [(''droplet'', JStr (hb_AppGuid h)), (''version'', JStr (hb_AppVersion h)),
           (''instance'', JStr (hb_InstanceGuid h)), (''index'', JInt (hb_InstanceIndex h)),
           (''state'', JStr (hb_State h)), (''state_timestamp'', t),
           (''dea_guid'', JStr (hb_DeaGuid h))]))"

definition InstanceHeartbeat_ToJSON :: "InstanceHeartbeat \<Rightarrow> bytes" where
  "InstanceHeartbeat_ToJSON h = marshal (InstanceHeartbeat_json h)"

definition decode_InstanceHeartbeat :: "(string \<times> json) list \<Rightarrow> InstanceHeartbeat option" where
  "decode_InstanceHeartbeat fs = do {
     guid \<leftarrow> jfield jstr ''droplet'' [] fs;
     version \<leftarrow> jfield jstr ''version'' [] fs;
     inst \<leftarrow> jfield jstr ''instance'' [] fs;
     index \<leftarrow> jfield jint ''index'' 0 fs;
     state \<leftarrow> jfield jstr ''state'' [] fs;
     stamp \<leftarrow> jfield jfloat ''state_timestamp'' (Num 0) fs;
     dea \<leftarrow> jfield jstr ''dea_guid'' [] fs;
     Some \<lparr>hb_AppGuid = guid, hb_AppVersion = version, hb_InstanceGuid = inst,
       hb_InstanceIndex = index, hb_State = state, hb_StateTimestamp = stamp, hb_DeaGuid = dea\<rparr> }"

definition NewInstanceHeartbeatFromJSON :: "bytes \<Rightarrow> InstanceHeartbeat option" where
  "NewInstanceHeartbeatFromJSON encoded =
     unmarshal_struct decode_InstanceHeartbeat zero_InstanceHeartbeat encoded"

lemma InstanceHeartbeat_json_roundtrip:
  assumes "in_int64 (hb_InstanceIndex h)" and "float_ok (hb_StateTimestamp h)"
  shows "NewInstanceHeartbeatFromJSON (InstanceHeartbeat_ToJSON h) = Some h"
proof -
  obtain t where "enc_float (hb_StateTimestamp h) = Some t" "t \<noteq> JNull"
      "jfloat t = Some (hb_StateTimestamp h)"
    using enc_float_roundtrip [OF assms(2)] by blast
  then show ?thesis
    using assms(1)
    by (simp add: NewInstanceHeartbeatFromJSON_def InstanceHeartbeat_ToJSON_def marshal_def
        InstanceHeartbeat_json_def decode_InstanceHeartbeat_def fold_eq_def lower_def Let_def)
qed

subsection \<open>The heartbeat of a DEA\<close>

record Heartbeat =
  DeaGuid :: string
  InstanceHeartbeats :: "InstanceHeartbeat list"

fun decode_droplets :: "json \<Rightarrow> InstanceHeartbeat list option" where
  "decode_droplets (JArr js) = map_opt (NewInstanceHeartbeatFromJSON \<circ> Doc) js"
| "decode_droplets _ = None"

definition decode_Heartbeat :: "(string \<times> json) list \<Rightarrow> Heartbeat option" where
  "decode_Heartbeat fs = do {
     dea \<leftarrow> jfield jstr ''dea'' [] fs;
     droplets \<leftarrow> jfield decode_droplets ''droplets'' [] fs;
     Some \<lparr>DeaGuid = dea, InstanceHeartbeats = droplets\<rparr> }"

text \<open>After parsing, every instance is stamped with the guid of the DEA that reported it.\<close>

definition NewHeartbeatFromJSON :: "bytes \<Rightarrow> Heartbeat option" where
  "NewHeartbeatFromJSON encoded =
     map_option
       (\<lambda>heartbeat. heartbeat\<lparr>InstanceHeartbeats :=
          map (\<lambda>h. h\<lparr>hb_DeaGuid := DeaGuid heartbeat\<rparr>) (InstanceHeartbeats heartbeat)\<rparr>)
       (unmarshal_struct decode_Heartbeat \<lparr>DeaGuid = [], InstanceHeartbeats = []\<rparr> encoded)"

definition Heartbeat_ToJSON :: "Heartbeat \<Rightarrow> bytes" where
  "Heartbeat_ToJSON hb =
     marshal (map_option
       (\<lambda>js. JObj [(''dea'', JStr (DeaGuid hb)), (''droplets'', JArr js)])
       (map_opt InstanceHeartbeat_json (InstanceHeartbeats hb)))"

text \<open>\<open>LogDescription\<close>: how many instances are in each state.\<close>

definition count_state :: "InstanceState \<Rightarrow> Heartbeat \<Rightarrow> int" where
  "count_state st hb = int (length (filter (\<lambda>h. hb_State h = st) (InstanceHeartbeats hb)))"

definition Heartbeat_LogDescription :: "Heartbeat \<Rightarrow> (string, string) gomap" where
  "Heartbeat_LogDescription hb =
     [(''DEA'', DeaGuid hb),
      (''Evacuating'', itoa (count_state InstanceStateEvacuating hb)),
      (''Crashed'', itoa (count_state InstanceStateCrashed hb)),
      (''Running'', itoa (count_state InstanceStateRunning hb)),
      (''Starting'', itoa (count_state InstanceStateStarting hb))]"

lemma NewHeartbeatFromJSON_dea:
  assumes "NewHeartbeatFromJSON b = Some hb" and "h \<in> set (InstanceHeartbeats hb)"
  shows "hb_DeaGuid h = DeaGuid hb"
  using assms by (auto simp: NewHeartbeatFromJSON_def)

end
