(* ===== verification/Desired_State.thy ===== *)
theory Desired_State imports Go_Json "HOL-Library.Monad_Syntax" begin

text \<open>
  \<open>models/desired_app_state.go\<close>: what the cloud controller wants of an app, with its CSV and
  JSON forms and its key.
\<close>

type_synonym AppState = string
type_synonym AppPackageState = string

definition AppStateStarted :: AppState where "AppStateStarted = ''STARTED''"
definition AppStateStopped :: AppState where "AppStateStopped = ''STOPPED''"
definition AppPackageStateFailed :: AppPackageState where "AppPackageStateFailed = ''FAILED''"
definition AppPackageStatePending :: AppPackageState where "AppPackageStatePending = ''PENDING''"
definition AppPackageStateStaged :: AppPackageState where "AppPackageStateStaged = ''STAGED''"

record DesiredAppState =
  ds_AppGuid :: string
  ds_AppVersion :: string
  ds_NumberOfInstances :: int
  ds_State :: AppState
  ds_PackageState :: AppPackageState

definition zero_DesiredAppState :: DesiredAppState where
  "zero_DesiredAppState = \<lparr>ds_AppGuid = [], ds_AppVersion = [], ds_NumberOfInstances = 0,
     ds_State = [], ds_PackageState = []\<rparr>"

definition decode_DesiredAppState :: "(string \<times> json) list \<Rightarrow> DesiredAppState option" where
  "decode_DesiredAppState fs = do {
     guid \<leftarrow> jfield jstr ''id'' [] fs;
     version \<leftarrow> jfield jstr ''version'' [] fs;
     n \<leftarrow> jfield jint ''instances'' 0 fs;
     state \<leftarrow> jfield jstr ''state'' [] fs;
     package \<leftarrow> jfield jstr ''package_state'' [] fs;
     Some \<lparr>ds_AppGuid = guid, ds_AppVersion = version, ds_NumberOfInstances = n,
       ds_State = state, ds_PackageState = package\<rparr> }"

definition NewDesiredAppStateFromJSON :: "bytes \<Rightarrow> DesiredAppState option" where
  "NewDesiredAppStateFromJSON encoded =
     unmarshal_struct decode_DesiredAppState zero_DesiredAppState encoded"

datatype desired_csv_error = DesiredWrongNumberOfValues nat | DesiredBadInteger string

definition NewDesiredAppStateFromCSV ::
    "string \<Rightarrow> string \<Rightarrow> string \<Rightarrow> desired_csv_error + DesiredAppState" where
  "NewDesiredAppStateFromCSV appGuid appVersion encoded =
     (let values = split_on CHR '','' encoded in
      if length values \<noteq> 3 then Inl (DesiredWrongNumberOfValues (length values))
      else case atoi (values ! 0) of
             None \<Rightarrow> Inl (DesiredBadInteger (values ! 0))
           | Some n \<Rightarrow>
               Inr \<lparr>ds_AppGuid = appGuid, ds_AppVersion = appVersion, ds_NumberOfInstances = n,
                    ds_State = values ! 1, ds_PackageState = values ! 2\<rparr>)"

definition DesiredAppState_json :: "DesiredAppState \<Rightarrow> json" where
  "DesiredAppState_json d = JObj
     [(''id'', JStr (ds_AppGuid d)), (''version'', JStr (ds_AppVersion d)),
      (''instances'', JInt (ds_NumberOfInstances d)), (''state'', JStr (ds_State d)),
      (''package_state'', JStr (ds_PackageState d))]"

definition DesiredAppState_ToJSON :: "DesiredAppState \<Rightarrow> bytes" where
  "DesiredAppState_ToJSON d = Doc (DesiredAppState_json d)"

definition DesiredAppState_ToCSV :: "DesiredAppState \<Rightarrow> string" where
  "DesiredAppState_ToCSV d =
     itoa (ds_NumberOfInstances d) @ '','' @ ds_State d @ '','' @ ds_PackageState d"

definition DesiredAppState_Equal :: "DesiredAppState \<Rightarrow> DesiredAppState \<Rightarrow> bool" where
  "DesiredAppState_Equal d e \<longleftrightarrow>
     ds_AppGuid d = ds_AppGuid e \<and> ds_AppVersion d = ds_AppVersion e
   \<and> ds_NumberOfInstances d = ds_NumberOfInstances e \<and> ds_State d = ds_State e
   \<and> ds_PackageState d = ds_PackageState e"

definition DesiredAppState_StoreKey :: "DesiredAppState \<Rightarrow> string" where
  "DesiredAppState_StoreKey d = ds_AppGuid d @ '','' @ ds_AppVersion d"

lemma DesiredAppState_Equal_iff: "DesiredAppState_Equal d e \<longleftrightarrow> d = e"
  by (auto simp: DesiredAppState_Equal_def intro!: DesiredAppState.equality)

lemma DesiredAppState_json_roundtrip:
  assumes "in_int64 (ds_NumberOfInstances d)"
  shows "NewDesiredAppStateFromJSON (DesiredAppState_ToJSON d) = Some d"
  using assms
  by (simp add: NewDesiredAppStateFromJSON_def DesiredAppState_ToJSON_def DesiredAppState_json_def
      decode_DesiredAppState_def fold_eq_def lower_def Let_def)

lemma DesiredAppState_csv_roundtrip:
  assumes "in_int64 (ds_NumberOfInstances d)"
    and "CHR '','' \<notin> set (ds_State d)" and "CHR '','' \<notin> set (ds_PackageState d)"
  shows "NewDesiredAppStateFromCSV (ds_AppGuid d) (ds_AppVersion d) (DesiredAppState_ToCSV d) = Inr d"
proof -
  have "split_on CHR '','' (DesiredAppState_ToCSV d) =
      [itoa (ds_NumberOfInstances d), ds_State d, ds_PackageState d]"
    using assms by (simp add: DesiredAppState_ToCSV_def)
  then show ?thesis using assms by (simp add: NewDesiredAppStateFromCSV_def)
qed

end
