(* ===== verification/Messages.thy ===== *)
theory Messages imports Go_Json "HOL-Library.Monad_Syntax" begin

text \<open>
  The small structs of \<open>models\<close> that travel over HTTP, NATS and the store: the crash count of an
  index, the start and stop messages, the report of an exited droplet, the freshness timestamp
  and the credentials of basic authentication.
\<close>

subsection \<open>Crash counts\<close>

record CrashCountRec =
  cc_AppGuid :: string
  cc_AppVersion :: string
  cc_InstanceIndex :: int
  cc_CrashCount :: int
  cc_CreatedAt :: int

definition CrashCount_json :: "CrashCountRec \<Rightarrow> json" where
  "CrashCount_json c = JObj
     [(''droplet'', JStr (cc_AppGuid c)), (''version'', JStr (cc_AppVersion c)),
      (''instance_index'', JInt (cc_InstanceIndex c)), (''crash_count'', JInt (cc_CrashCount c)),
      (''created_at'', JInt (cc_CreatedAt c))]"

definition CrashCount_ToJSON :: "CrashCountRec \<Rightarrow> bytes" where
  "CrashCount_ToJSON c = Doc (CrashCount_json c)"

definition decode_CrashCount :: "(string \<times> json) list \<Rightarrow> CrashCountRec option" where
  "decode_CrashCount fs = do {
     guid \<leftarrow> jfield jstr ''droplet'' [] fs;
     version \<leftarrow> jfield jstr ''version'' [] fs;
     index \<leftarrow> jfield jint ''instance_index'' 0 fs;
     crashes \<leftarrow> jfield jint ''crash_count'' 0 fs;
     created \<leftarrow> jfield jint ''created_at'' 0 fs;
     Some \<lparr>cc_AppGuid = guid, cc_AppVersion = version, cc_InstanceIndex = index,
       cc_CrashCount = crashes, cc_CreatedAt = created\<rparr> }"

definition NewCrashCountFromJSON :: "bytes \<Rightarrow> CrashCountRec option" where
  "NewCrashCountFromJSON encoded =
     unmarshal_struct decode_CrashCount
       \<lparr>cc_AppGuid = [], cc_AppVersion = [], cc_InstanceIndex = 0, cc_CrashCount = 0,
        cc_CreatedAt = 0\<rparr> encoded"

definition CrashCount_StoreKey :: "CrashCountRec \<Rightarrow> string" where
  "CrashCount_StoreKey c = cc_AppGuid c @ ''-'' @ cc_AppVersion c @ ''-'' @ itoa (cc_InstanceIndex c)"

definition crash_count_ok :: "CrashCountRec \<Rightarrow> bool" where
  "crash_count_ok c \<longleftrightarrow>
     in_int64 (cc_InstanceIndex c) \<and> in_int64 (cc_CrashCount c) \<and> in_int64 (cc_CreatedAt c)"

lemma CrashCount_json_roundtrip:
  assumes "crash_count_ok c"
  shows "NewCrashCountFromJSON (CrashCount_ToJSON c) = Some c"
  using assms
  by (simp add: crash_count_ok_def NewCrashCountFromJSON_def CrashCount_ToJSON_def
      CrashCount_json_def decode_CrashCount_def fold_eq_def lower_def Let_def)

subsection \<open>Start and stop messages\<close>

record StartMessage =
  sm_MessageId :: string
  sm_AppGuid :: string
  sm_AppVersion :: string
  sm_InstanceIndex :: int

record StopMessage =
  xm_MessageId :: string
  xm_AppGuid :: string
  xm_AppVersion :: string
  xm_InstanceGuid :: string
  xm_InstanceIndex :: int
  xm_IsDuplicate :: bool

definition StartMessage_ToJSON :: "StartMessage \<Rightarrow> bytes" where
  "StartMessage_ToJSON m = Doc (JObj
     [(''message_id'', JStr (sm_MessageId m)), (''droplet'', JStr (sm_AppGuid m)),
      (''version'', JStr (sm_AppVersion m)), (''instance_index'', JInt (sm_InstanceIndex m))])"

definition StopMessage_ToJSON :: "StopMessage \<Rightarrow> bytes" where
  "StopMessage_ToJSON m = Doc (JObj
     [(''message_id'', JStr (xm_MessageId m)), (''droplet'', JStr (xm_AppGuid m)),
      (''version'', JStr (xm_AppVersion m)), (''instance_guid'', JStr (xm_InstanceGuid m)),
      (''instance_index'', JInt (xm_InstanceIndex m)), (''is_duplicate'', JBool (xm_IsDuplicate m))])"

definition NewStartMessageFromJSON :: "bytes \<Rightarrow> StartMessage option" where
  "NewStartMessageFromJSON encoded =
     unmarshal_struct
       (\<lambda>fs. do {
          i \<leftarrow> jfield jstr ''message_id'' [] fs;
          guid \<leftarrow> jfield jstr ''droplet'' [] fs;
          version \<leftarrow> jfield jstr ''version'' [] fs;
          index \<leftarrow> jfield jint ''instance_index'' 0 fs;
          Some \<lparr>sm_MessageId = i, sm_AppGuid = guid, sm_AppVersion = version,
            sm_InstanceIndex = index\<rparr> })
       \<lparr>sm_MessageId = [], sm_AppGuid = [], sm_AppVersion = [], sm_InstanceIndex = 0\<rparr> encoded"

definition NewStopMessageFromJSON :: "bytes \<Rightarrow> StopMessage option" where
  "NewStopMessageFromJSON encoded =
     unmarshal_struct
       (\<lambda>fs. do {
          i \<leftarrow> jfield jstr ''message_id'' [] fs;
          guid \<leftarrow> jfield jstr ''droplet'' [] fs;
          version \<leftarrow> jfield jstr ''version'' [] fs;
          inst \<leftarrow> jfield jstr ''instance_guid'' [] fs;
          index \<leftarrow> jfield jint ''instance_index'' 0 fs;
          dup \<leftarrow> jfield jbool ''is_duplicate'' False fs;
          Some \<lparr>xm_MessageId = i, xm_AppGuid = guid, xm_AppVersion = version,
            xm_InstanceGuid = inst, xm_InstanceIndex = index, xm_IsDuplicate = dup\<rparr> })
       \<lparr>xm_MessageId = [], xm_AppGuid = [], xm_AppVersion = [], xm_InstanceGuid = [],
        xm_InstanceIndex = 0, xm_IsDuplicate = False\<rparr> encoded"

lemma StartMessage_json_roundtrip:
  "in_int64 (sm_InstanceIndex m) \<Longrightarrow> NewStartMessageFromJSON (StartMessage_ToJSON m) = Some m"
  by (simp add: NewStartMessageFromJSON_def StartMessage_ToJSON_def fold_eq_def lower_def Let_def)

lemma StopMessage_json_roundtrip:
  "in_int64 (xm_InstanceIndex m) \<Longrightarrow> NewStopMessageFromJSON (StopMessage_ToJSON m) = Some m"
  by (simp add: NewStopMessageFromJSON_def StopMessage_ToJSON_def fold_eq_def lower_def Let_def)

subsection \<open>Exited droplets\<close>

type_synonym DropletExitedReason = string

definition DropletExitedReasonStopped :: DropletExitedReason where
  "DropletExitedReasonStopped = ''STOPPED''"
definition DropletExitedReasonCrashed :: DropletExitedReason where
  "DropletExitedReasonCrashed = ''CRASHED''"
definition DropletExitedReasonDEAShutdown :: DropletExitedReason where
  "DropletExitedReasonDEAShutdown = ''DEA_SHUTDOWN''"
definition DropletExitedReasonDEAEvacuation :: DropletExitedReason where
  "DropletExitedReasonDEAEvacuation = ''DEA_EVACUATION''"

record DropletExited =
  de_CCPartition :: string
  de_AppGuid :: string
  de_AppVersion :: string
  de_InstanceGuid :: string
  de_InstanceIndex :: int
  de_Reason :: DropletExitedReason
  de_ExitStatusCode :: int
  de_ExitDescription :: string
  de_CrashTimestamp :: int

definition zero_DropletExited :: DropletExited where
  "zero_DropletExited = \<lparr>de_CCPartition = [], de_AppGuid = [], de_AppVersion = [],
     de_InstanceGuid = [], de_InstanceIndex = 0, de_Reason = [], de_ExitStatusCode = 0,
     de_ExitDescription = [], de_CrashTimestamp = 0\<rparr>"

definition decode_DropletExited :: "(string \<times> json) list \<Rightarrow> DropletExited option" where
  "decode_DropletExited fs = do {
     part \<leftarrow> jfield jstr ''cc_partition'' [] fs;
     guid \<leftarrow> jfield jstr ''droplet'' [] fs;
     version \<leftarrow> jfield jstr ''version'' [] fs;
     inst \<leftarrow> jfield jstr ''instance'' [] fs;
     index \<leftarrow> jfield jint ''index'' 0 fs;
     reason \<leftarrow> jfield jstr ''reason'' [] fs;
     status \<leftarrow> jfield jint ''exit_status'' 0 fs;
     descr \<leftarrow> jfield jstr ''exit_description'' [] fs;
     crash \<leftarrow> jfield jint ''crash_timestamp'' 0 fs;
     Some \<lparr>de_CCPartition = part, de_AppGuid = guid, de_AppVersion = version,
       de_InstanceGuid = inst, de_InstanceIndex = index, de_Reason = reason,
       de_ExitStatusCode = status, de_ExitDescription = descr, de_CrashTimestamp = crash\<rparr> }"

definition NewDropletExitedFromJSON :: "bytes \<Rightarrow> DropletExited option" where
  "NewDropletExitedFromJSON encoded =
     unmarshal_struct decode_DropletExited zero_DropletExited encoded"

text \<open>The tag \<open>omitempty\<close> leaves a zero crash timestamp out.\<close>

definition DropletExited_ToJSON :: "DropletExited \<Rightarrow> bytes" where
  "DropletExited_ToJSON d = Doc (JObj
     ([(''cc_partition'', JStr (de_CCPartition d)), (''droplet'', JStr (de_AppGuid d)),
       (''version'', JStr (de_AppVersion d)), (''instance'', JStr (de_InstanceGuid d)),
       (''index'', JInt (de_InstanceIndex d)), (''reason'', JStr (de_Reason d)),
       (''exit_status'', JInt (de_ExitStatusCode d)),
       (''exit_description'', JStr (de_ExitDescription d))]
      @ (if de_CrashTimestamp d = 0 then [] else [(''crash_timestamp'', JInt (de_CrashTimestamp d))])))"

lemma DropletExited_json_roundtrip:
  assumes "in_int64 (de_InstanceIndex d)" and "in_int64 (de_ExitStatusCode d)"
    and "in_int64 (de_CrashTimestamp d)"
  shows "NewDropletExitedFromJSON (DropletExited_ToJSON d) = Some d"
  using assms
  by (cases "de_CrashTimestamp d = 0")
    (simp_all add: NewDropletExitedFromJSON_def DropletExited_ToJSON_def decode_DropletExited_def
      fold_eq_def lower_def Let_def)

subsection \<open>The freshness timestamp\<close>

record FreshnessTimestamp =
  Timestamp :: int

definition FreshnessTimestamp_ToJSON :: "FreshnessTimestamp \<Rightarrow> bytes" where
  "FreshnessTimestamp_ToJSON f = Doc (JObj [(''timestamp'', JInt (Timestamp f))])"

definition FreshnessTimestampFromJSON :: "bytes \<Rightarrow> FreshnessTimestamp option" where
  "FreshnessTimestampFromJSON encoded =
     unmarshal_struct
       (\<lambda>fs. do { t \<leftarrow> jfield jint ''timestamp'' 0 fs; Some \<lparr>Timestamp = t\<rparr> })
       \<lparr>Timestamp = 0\<rparr> encoded"

lemma FreshnessTimestamp_json_roundtrip:
  "in_int64 (Timestamp f) \<Longrightarrow> FreshnessTimestampFromJSON (FreshnessTimestamp_ToJSON f) = Some f"
  by (simp add: FreshnessTimestampFromJSON_def FreshnessTimestamp_ToJSON_def fold_eq_def lower_def
      Let_def)

subsection \<open>Basic authentication\<close>

record BasicAuthInfo =
  User :: string
  Password :: string

definition BasicAuthInfo_Encode :: "BasicAuthInfo \<Rightarrow> string" where
  "BasicAuthInfo_Encode info = ''Basic '' @ b64_encode (User info @ '':'' @ Password info)"

definition DecodeBasicAuthInfo :: "string \<Rightarrow> BasicAuthInfo option" where
  "DecodeBasicAuthInfo encoded =
     (let parts = split_on CHR '' '' encoded in
      if length parts \<noteq> 2 \<or> parts ! 0 \<noteq> ''Basic'' then None
      else case b64_decode (parts ! 1) of
             None \<Rightarrow> None
           | Some decoded \<Rightarrow>
               (let userPassword = split_on CHR '':'' decoded in
                if length userPassword \<noteq> 2 then None
                else Some \<lparr>User = userPassword ! 0, Password = userPassword ! 1\<rparr>))"

lemma split_encoded_auth:
  "split_on CHR '' '' (BasicAuthInfo_Encode info) =
     [''Basic'', b64_encode (User info @ '':'' @ Password info)]"
proof -
  have "BasicAuthInfo_Encode info = ''Basic'' @ CHR '' '' # b64_encode (User info @ '':'' @ Password info)"
    by (simp add: BasicAuthInfo_Encode_def)
  then show ?thesis
    by (simp only: split_on_concat) (simp add: b64_encode_no_space)
qed

lemma DecodeBasicAuthInfo_Encode:
  "DecodeBasicAuthInfo (BasicAuthInfo_Encode info) =
     (if CHR '':'' \<in> set (User info) \<union> set (Password info) then None else Some info)"
proof -
  have len: "length (split_on CHR '':'' (User info @ '':'' @ Password info)) =
      2 + (count_list (User info) CHR '':'' + count_list (Password info) CHR '':'')"
    by (simp add: length_split_on)
  show ?thesis
  proof (cases "CHR '':'' \<in> set (User info) \<union> set (Password info)")
    case True
    then have "count_list (User info) CHR '':'' + count_list (Password info) CHR '':'' \<noteq> 0"
      by (auto simp: count_list_0_iff)
    then show ?thesis
      using True len by (simp add: DecodeBasicAuthInfo_def split_encoded_auth)
  next
    case False
    then show ?thesis by (simp add: DecodeBasicAuthInfo_def split_encoded_auth)
  qed
qed

end
