(* ===== verification/App_Model.thy ===== *)
theory App_Model imports Heartbeats Desired_State Messages begin

text \<open>
  \<open>models/app.go\<close>: an app as the analyzer and the sender see it, with its desired state, the
  heartbeats of its instances, its crash counts and the index of heartbeats that the first
  query builds and later queries reuse (\<open>instanceHeartbeatsByIndex\<close>, here an optional map). The
  invariant \<open>app_ok\<close> says that the index, once built, agrees with the heartbeats; under it every
  query is a filter of the heartbeat list.
\<close>

record App =
  app_AppGuid :: string
  app_AppVersion :: string
  app_Desired :: DesiredAppState
  app_InstanceHeartbeats :: "InstanceHeartbeat list"
  app_CrashCounts :: "(int, CrashCountRec) gomap"
  instanceHeartbeatsByIndex :: "(int, InstanceHeartbeat list) gomap option"

definition NewApp :: "string \<Rightarrow> string \<Rightarrow> DesiredAppState \<Rightarrow> InstanceHeartbeat list
    \<Rightarrow> (int, CrashCountRec) gomap \<Rightarrow> App" where
  "NewApp appGuid appVersion desired instanceHeartbeats crashCounts =
     \<lparr>app_AppGuid = appGuid, app_AppVersion = appVersion, app_Desired = desired,
      app_InstanceHeartbeats = instanceHeartbeats, app_CrashCounts = crashCounts,
      instanceHeartbeatsByIndex = None\<rparr>"

definition IsStaged :: "App \<Rightarrow> bool" where
  "IsStaged a \<longleftrightarrow> ds_PackageState (app_Desired a) = AppPackageStateStaged"

definition IsDesired :: "App \<Rightarrow> bool" where
  "IsDesired a \<longleftrightarrow> ds_AppGuid (app_Desired a) \<noteq> ''''"

definition NumberOfDesiredInstances :: "App \<Rightarrow> int" where
  "NumberOfDesiredInstances a = ds_NumberOfInstances (app_Desired a)"

definition IsIndexDesired :: "App \<Rightarrow> int \<Rightarrow> bool" where
  "IsIndexDesired a index \<longleftrightarrow> index < NumberOfDesiredInstances a"

text \<open>The indices visited by the loop \<open>for index := 0; a.IsIndexDesired(index); index++\<close>.\<close>

definition desired_indices :: "App \<Rightarrow> int list" where
  "desired_indices a = upto_index (NumberOfDesiredInstances a)"

lemma set_desired_indices [simp]: "set (desired_indices a) = {i. 0 \<le> i \<and> IsIndexDesired a i}"
  by (simp add: desired_indices_def IsIndexDesired_def)

lemma distinct_desired_indices [simp]: "distinct (desired_indices a)"
  by (simp add: desired_indices_def)

subsection \<open>The index of heartbeats\<close>

definition add_heartbeat ::
    "InstanceHeartbeat \<Rightarrow> (int, InstanceHeartbeat list) gomap \<Rightarrow> (int, InstanceHeartbeat list) gomap" where
  "add_heartbeat h m =
     (let i = hb_InstanceIndex h in
      mput i ((case map_of m i of None \<Rightarrow> [] | Some hs \<Rightarrow> hs) @ [h]) m)"

definition HeartbeatsByIndex :: "App \<Rightarrow> (int, InstanceHeartbeat list) gomap" where
  "HeartbeatsByIndex a = fold add_heartbeat (app_InstanceHeartbeats a) []"

definition verifyInstanceHeartbeatsByIndexIsReady :: "App \<Rightarrow> App" where
  "verifyInstanceHeartbeatsByIndexIsReady a =
     (case instanceHeartbeatsByIndex a of
        None \<Rightarrow> a\<lparr>instanceHeartbeatsByIndex := Some (fold add_heartbeat (app_InstanceHeartbeats a) [])\<rparr>
      | Some _ \<Rightarrow> a)"

definition ready_index :: "App \<Rightarrow> (int, InstanceHeartbeat list) gomap" where
  "ready_index a =
     (case instanceHeartbeatsByIndex (verifyInstanceHeartbeatsByIndexIsReady a) of
        None \<Rightarrow> [] | Some m \<Rightarrow> m)"

definition InstanceHeartbeatsAtIndex :: "App \<Rightarrow> int \<Rightarrow> InstanceHeartbeat list" where
  "InstanceHeartbeatsAtIndex a index =
     (case map_of (ready_index a) index of None \<Rightarrow> [] | Some heartbeats \<Rightarrow> heartbeats)"

subsection \<open>Queries\<close>

definition InstanceWithGuid :: "App \<Rightarrow> string \<Rightarrow> InstanceHeartbeat" where
  "InstanceWithGuid a instanceGuid =
     (case find (\<lambda>h. hb_InstanceGuid h = instanceGuid) (app_InstanceHeartbeats a) of
        None \<Rightarrow> zero_InstanceHeartbeat
      | Some h \<Rightarrow> h)"

definition ExtraStartingOrRunningInstances :: "App \<Rightarrow> InstanceHeartbeat list" where
  "ExtraStartingOrRunningInstances a =
     filter (\<lambda>h. \<not> IsIndexDesired a (hb_InstanceIndex h) \<and> IsStartingOrRunning h)
       (app_InstanceHeartbeats a)"

definition HasStartingOrRunningInstances :: "App \<Rightarrow> bool" where
  "HasStartingOrRunningInstances a \<longleftrightarrow> list_ex IsStartingOrRunning (app_InstanceHeartbeats a)"

definition StartingOrRunningInstancesAtIndex :: "App \<Rightarrow> int \<Rightarrow> InstanceHeartbeat list" where
  "StartingOrRunningInstancesAtIndex a index =
     filter IsStartingOrRunning (InstanceHeartbeatsAtIndex a index)"

definition EvacuatingInstancesAtIndex :: "App \<Rightarrow> int \<Rightarrow> InstanceHeartbeat list" where
  "EvacuatingInstancesAtIndex a index =
     filter (\<lambda>h. IsEvacuating h \<and> hb_InstanceIndex h = index) (app_InstanceHeartbeats a)"

definition HasRunningInstanceAtIndex :: "App \<Rightarrow> int \<Rightarrow> bool" where
  "HasRunningInstanceAtIndex a index \<longleftrightarrow> list_ex IsRunning (InstanceHeartbeatsAtIndex a index)"

definition HasStartingInstanceAtIndex :: "App \<Rightarrow> int \<Rightarrow> bool" where
  "HasStartingInstanceAtIndex a index \<longleftrightarrow> list_ex IsStarting (InstanceHeartbeatsAtIndex a index)"

definition HasStartingOrRunningInstanceAtIndex :: "App \<Rightarrow> int \<Rightarrow> bool" where
  "HasStartingOrRunningInstanceAtIndex a index \<longleftrightarrow>
     list_ex IsStartingOrRunning (InstanceHeartbeatsAtIndex a index)"

definition HasEvacuatingInstanceAtIndex :: "App \<Rightarrow> int \<Rightarrow> bool" where
  "HasEvacuatingInstanceAtIndex a index \<longleftrightarrow> 0 < length (EvacuatingInstancesAtIndex a index)"

definition HasCrashedInstanceAtIndex :: "App \<Rightarrow> int \<Rightarrow> bool" where
  "HasCrashedInstanceAtIndex a index \<longleftrightarrow> list_ex IsCrashed (InstanceHeartbeatsAtIndex a index)"

definition CrashCountAtIndex :: "App \<Rightarrow> int \<Rightarrow> time \<Rightarrow> CrashCountRec" where
  "CrashCountAtIndex a instanceIndex currentTime =
     (case map_of (app_CrashCounts a) instanceIndex of
        None \<Rightarrow> \<lparr>cc_AppGuid = app_AppGuid a, cc_AppVersion = app_AppVersion a,
                 cc_InstanceIndex = instanceIndex, cc_CrashCount = 0,
                 cc_CreatedAt = Unix currentTime\<rparr>
      | Some crashCount \<Rightarrow> crashCount)"

definition NumberOfDesiredIndicesWithAStartingOrRunningInstance :: "App \<Rightarrow> int" where
  "NumberOfDesiredIndicesWithAStartingOrRunningInstance a =
     int (length (filter (HasStartingOrRunningInstanceAtIndex a) (desired_indices a)))"

definition NumberOfDesiredIndicesReporting :: "App \<Rightarrow> int" where
  "NumberOfDesiredIndicesReporting a =
     int (length (filter (\<lambda>i. 0 < length (InstanceHeartbeatsAtIndex a i)) (desired_indices a)))"

definition NumberOfStartingOrRunningInstances :: "App \<Rightarrow> int" where
  "NumberOfStartingOrRunningInstances a =
     int (length (filter IsStartingOrRunning (app_InstanceHeartbeats a)))"

definition NumberOfCrashedInstances :: "App \<Rightarrow> int" where
  "NumberOfCrashedInstances a = int (length (filter IsCrashed (app_InstanceHeartbeats a)))"

definition NumberOfCrashedIndices :: "App \<Rightarrow> int" where
  "NumberOfCrashedIndices a =
     int (length (filter
       (\<lambda>i. HasCrashedInstanceAtIndex a i \<and> \<not> HasStartingOrRunningInstanceAtIndex a i)
       (map fst (ready_index a))))"

subsection \<open>JSON\<close>

text \<open>
  An app without heartbeats was made with a nil slice, which \<open>Marshal\<close> prints as \<open>null\<close>. The
  crash counts come out in the order of a range over their map.
\<close>

definition App_json :: "choice \<Rightarrow> App \<Rightarrow> json option" where
  "App_json ch a =
     map_option
       (\<lambda>hs. JObj
          [(''droplet'', JStr (app_AppGuid a)), (''version'', JStr (app_AppVersion a)),
           (''instance_heartbeats'', if app_InstanceHeartbeats a = [] then JNull else JArr hs),
           (''crash_counts'', JArr (map (CrashCount_json \<circ> snd) (go_range ch (app_CrashCounts a))))])
       (map_opt InstanceHeartbeat_json (app_InstanceHeartbeats a))"

subsection \<open>The index agrees with the heartbeats\<close>

definition app_ok :: "App \<Rightarrow> bool" where
  "app_ok a \<longleftrightarrow>
     (instanceHeartbeatsByIndex a = None
      \<or> instanceHeartbeatsByIndex a = Some (HeartbeatsByIndex a))
   \<and> gomap_ok (app_CrashCounts a)"

lemma app_ok_NewApp [simp, intro]: "gomap_ok cc \<Longrightarrow> app_ok (NewApp g v d hs cc)"
  by (simp add: app_ok_def NewApp_def)

lemma app_ok_set_desired [simp, intro]: "app_ok a \<Longrightarrow> app_ok (a\<lparr>app_Desired := d\<rparr>)"
  by (simp add: app_ok_def HeartbeatsByIndex_def)

lemma app_ok_verify [simp, intro]: "app_ok a \<Longrightarrow> app_ok (verifyInstanceHeartbeatsByIndexIsReady a)"
  by (auto simp: app_ok_def verifyInstanceHeartbeatsByIndexIsReady_def HeartbeatsByIndex_def
      split: option.split)

lemma ready_index_ok: "app_ok a \<Longrightarrow> ready_index a = HeartbeatsByIndex a"
  by (auto simp: app_ok_def ready_index_def verifyInstanceHeartbeatsByIndexIsReady_def
      HeartbeatsByIndex_def split: option.split)

lemma map_of_fold_add_heartbeat:
  "map_of (fold add_heartbeat hs m) i =
     (case map_of m i of
        None \<Rightarrow> (let fs = filter (\<lambda>h. hb_InstanceIndex h = i) hs in if fs = [] then None else Some fs)
      | Some gs \<Rightarrow> Some (gs @ filter (\<lambda>h. hb_InstanceIndex h = i) hs))"
  by (induction hs arbitrary: m) (auto simp: add_heartbeat_def Let_def split: option.splits)

lemma gomap_ok_fold_add_heartbeat: "gomap_ok m \<Longrightarrow> gomap_ok (fold add_heartbeat hs m)"
  by (rule fold_invariant_set) (auto simp: add_heartbeat_def Let_def)

lemma gomap_ok_HeartbeatsByIndex [simp]: "gomap_ok (HeartbeatsByIndex a)"
  by (simp add: HeartbeatsByIndex_def gomap_ok_fold_add_heartbeat)

lemma map_of_HeartbeatsByIndex:
  "map_of (HeartbeatsByIndex a) i =
     (let fs = filter (\<lambda>h. hb_InstanceIndex h = i) (app_InstanceHeartbeats a)
      in if fs = [] then None else Some fs)"
  by (simp add: HeartbeatsByIndex_def map_of_fold_add_heartbeat)

lemma keys_HeartbeatsByIndex:
  "fst ` set (HeartbeatsByIndex a) = hb_InstanceIndex ` set (app_InstanceHeartbeats a)"
proof -
  have "i \<in> dom (map_of (HeartbeatsByIndex a)) \<longleftrightarrow>
      i \<in> hb_InstanceIndex ` set (app_InstanceHeartbeats a)" for i
    by (auto simp: dom_def map_of_HeartbeatsByIndex Let_def filter_empty_conv split: if_splits)
  then show ?thesis by (auto simp: dom_map_of_conv_image_fst)
qed

lemma InstanceHeartbeatsAtIndex_eq:
  "app_ok a \<Longrightarrow>
     InstanceHeartbeatsAtIndex a i = filter (\<lambda>h. hb_InstanceIndex h = i) (app_InstanceHeartbeats a)"
  by (simp add: InstanceHeartbeatsAtIndex_def ready_index_ok map_of_HeartbeatsByIndex Let_def)

text \<open>Building the index changes no answer.\<close>

lemma InstanceHeartbeatsAtIndex_verify:
  "InstanceHeartbeatsAtIndex (verifyInstanceHeartbeatsByIndexIsReady a) i = InstanceHeartbeatsAtIndex a i"
  by (simp add: InstanceHeartbeatsAtIndex_def ready_index_def
      verifyInstanceHeartbeatsByIndexIsReady_def split: option.split)

named_theorems app_queries \<open>the queries of an app in terms of its heartbeats\<close>

lemma HasStartingOrRunningInstanceAtIndex_iff [app_queries]:
  "app_ok a \<Longrightarrow> HasStartingOrRunningInstanceAtIndex a i \<longleftrightarrow>
     (\<exists>h\<in>set (app_InstanceHeartbeats a). hb_InstanceIndex h = i \<and> IsStartingOrRunning h)"
  by (auto simp: HasStartingOrRunningInstanceAtIndex_def InstanceHeartbeatsAtIndex_eq list_ex_iff)

lemma HasRunningInstanceAtIndex_iff [app_queries]:
  "app_ok a \<Longrightarrow> HasRunningInstanceAtIndex a i \<longleftrightarrow>
     (\<exists>h\<in>set (app_InstanceHeartbeats a). hb_InstanceIndex h = i \<and> IsRunning h)"
  by (auto simp: HasRunningInstanceAtIndex_def InstanceHeartbeatsAtIndex_eq list_ex_iff)

lemma HasStartingInstanceAtIndex_iff [app_queries]:
  "app_ok a \<Longrightarrow> HasStartingInstanceAtIndex a i \<longleftrightarrow>
     (\<exists>h\<in>set (app_InstanceHeartbeats a). hb_InstanceIndex h = i \<and> IsStarting h)"
  by (auto simp: HasStartingInstanceAtIndex_def InstanceHeartbeatsAtIndex_eq list_ex_iff)

lemma HasCrashedInstanceAtIndex_iff [app_queries]:
  "app_ok a \<Longrightarrow> HasCrashedInstanceAtIndex a i \<longleftrightarrow>
     (\<exists>h\<in>set (app_InstanceHeartbeats a). hb_InstanceIndex h = i \<and> IsCrashed h)"
  by (auto simp: HasCrashedInstanceAtIndex_def InstanceHeartbeatsAtIndex_eq list_ex_iff)

lemma HasEvacuatingInstanceAtIndex_iff [app_queries]:
  "HasEvacuatingInstanceAtIndex a i \<longleftrightarrow>
     (\<exists>h\<in>set (app_InstanceHeartbeats a). hb_InstanceIndex h = i \<and> IsEvacuating h)"
  by (auto simp: HasEvacuatingInstanceAtIndex_def EvacuatingInstancesAtIndex_def filter_empty_conv)

lemma HasStartingOrRunning_split:
  "HasStartingOrRunningInstanceAtIndex a i \<longleftrightarrow>
     HasRunningInstanceAtIndex a i \<or> HasStartingInstanceAtIndex a i"
  by (auto simp: HasStartingOrRunningInstanceAtIndex_def HasRunningInstanceAtIndex_def
      HasStartingInstanceAtIndex_def IsStartingOrRunning_def list_ex_iff)

lemma InstanceWithGuid_cases:
  "InstanceWithGuid a g \<in> set (app_InstanceHeartbeats a) \<and> hb_InstanceGuid (InstanceWithGuid a g) = g
   \<or> InstanceWithGuid a g = zero_InstanceHeartbeat
     \<and> (\<forall>h\<in>set (app_InstanceHeartbeats a). hb_InstanceGuid h \<noteq> g)"
proof (cases "find (\<lambda>h. hb_InstanceGuid h = g) (app_InstanceHeartbeats a)")
  case None
  from find_None_iff [THEN iffD1, OF this] show ?thesis
    by (simp add: InstanceWithGuid_def None)
next
  case (Some h)
  from find_Some_iff [THEN iffD1, OF this]
  have "h \<in> set (app_InstanceHeartbeats a)" and "hb_InstanceGuid h = g" by auto
  then show ?thesis by (simp add: InstanceWithGuid_def Some)
qed

lemma NumberOfDesiredIndicesWithAStartingOrRunningInstance_bounds:
  "0 \<le> NumberOfDesiredIndicesWithAStartingOrRunningInstance a"
  "0 \<le> NumberOfDesiredInstances a \<Longrightarrow>
     NumberOfDesiredIndicesWithAStartingOrRunningInstance a \<le> NumberOfDesiredInstances a"
proof -
  show "0 \<le> NumberOfDesiredIndicesWithAStartingOrRunningInstance a"
    by (simp add: NumberOfDesiredIndicesWithAStartingOrRunningInstance_def)
  assume "0 \<le> NumberOfDesiredInstances a"
  moreover have "length (filter (HasStartingOrRunningInstanceAtIndex a) (desired_indices a))
      \<le> nat (NumberOfDesiredInstances a)"
    using length_filter_le [of "HasStartingOrRunningInstanceAtIndex a" "desired_indices a"]
    by (simp add: desired_indices_def)
  ultimately show "NumberOfDesiredIndicesWithAStartingOrRunningInstance a \<le> NumberOfDesiredInstances a"
    by (simp add: NumberOfDesiredIndicesWithAStartingOrRunningInstance_def)
qed

text \<open>An index without a running instance makes the count strictly smaller.\<close>

lemma some_index_missing:
  assumes "0 \<le> i" and "IsIndexDesired a i" and "\<not> HasStartingOrRunningInstanceAtIndex a i"
  shows "NumberOfDesiredIndicesWithAStartingOrRunningInstance a < NumberOfDesiredInstances a"
proof -
  have "i \<in> set (desired_indices a)" using assms by simp
  then have "length (filter (HasStartingOrRunningInstanceAtIndex a) (desired_indices a))
      < length (desired_indices a)"
    using assms(3) by (intro length_filter_less)
  also have "\<dots> = nat (NumberOfDesiredInstances a)" by (simp add: desired_indices_def)
  finally show ?thesis
    using assms by (simp add: NumberOfDesiredIndicesWithAStartingOrRunningInstance_def IsIndexDesired_def)
qed

lemma NumberOfDesiredIndicesReporting_bounds:
  "0 \<le> NumberOfDesiredInstances a \<Longrightarrow>
     NumberOfDesiredIndicesReporting a \<le> NumberOfDesiredInstances a"
  using length_filter_le [of "\<lambda>i. 0 < length (InstanceHeartbeatsAtIndex a i)" "desired_indices a"]
  by (simp add: NumberOfDesiredIndicesReporting_def desired_indices_def)

end
