(* ===== verification/Pending_Messages.thy ===== *)
theory Pending_Messages imports Messages begin

text \<open>
  \<open>models/pending_messages.go\<close>: the start and stop messages that wait in the store until the
  sender sends, keeps or deletes them. The struct \<open>PendingMessage\<close> embedded in both is the
  record that the two message records extend. The random \<open>MessageId\<close> made by \<open>Guid()\<close> is an
  argument of the constructors.

  The interface \<open>Storeable\<close> of \<open>store/store.go\<close>, which both messages implement, is the locale
  \<open>storeable\<close> at the end, interpreted for both.
\<close>

type_synonym PendingStartMessageReason = string
type_synonym PendingStopMessageReason = string

definition PendingStartMessageReasonInvalid :: PendingStartMessageReason where
  "PendingStartMessageReasonInvalid = ''''"
definition PendingStartMessageReasonCrashed :: PendingStartMessageReason where
  "PendingStartMessageReasonCrashed = ''CRASHED''"
definition PendingStartMessageReasonMissing :: PendingStartMessageReason where
  "PendingStartMessageReasonMissing = ''MISSING''"
definition PendingStartMessageReasonEvacuating :: PendingStartMessageReason where
  "PendingStartMessageReasonEvacuating = ''EVACUATING''"

definition PendingStopMessageReasonInvalid :: PendingStopMessageReason where
  "PendingStopMessageReasonInvalid = ''''"
definition PendingStopMessageReasonExtra :: PendingStopMessageReason where
  "PendingStopMessageReasonExtra = ''EXTRA''"
definition PendingStopMessageReasonDuplicate :: PendingStopMessageReason where
  "PendingStopMessageReasonDuplicate = ''DUPLICATE''"
definition PendingStopMessageReasonEvacuationComplete :: PendingStopMessageReason where
  "PendingStopMessageReasonEvacuationComplete = ''EVACUATION_COMPLETE''"

named_theorems reason_defs \<open>the values of the start and stop reasons\<close>

lemmas message_reason_defs [reason_defs] =
  PendingStartMessageReasonCrashed_def PendingStartMessageReasonMissing_def
  PendingStartMessageReasonEvacuating_def PendingStopMessageReasonExtra_def
  PendingStopMessageReasonDuplicate_def PendingStopMessageReasonEvacuationComplete_def

record PendingMessage =
  MessageId :: string
  SendOn :: int
  SentOn :: int
  KeepAlive :: int
  AppGuid :: string
  AppVersion :: string

record PendingStartMessage = PendingMessage +
  IndexToStart :: int
  Priority :: float64
  SkipVerification :: bool
  StartReason :: PendingStartMessageReason

record PendingStopMessage = PendingMessage +
  InstanceGuid :: string
  StopReason :: PendingStopMessageReason

subsection \<open>Making messages\<close>

definition newPendingMessage ::
    "string \<Rightarrow> time \<Rightarrow> int \<Rightarrow> int \<Rightarrow> string \<Rightarrow> string \<Rightarrow> PendingMessage" where
  "newPendingMessage guid now delayInSeconds keepAliveInSeconds appGuid appVersion =
     \<lparr>MessageId = guid,
      SendOn = Unix (time_Add now (dur_mult delayInSeconds second)),
      SentOn = 0,
      KeepAlive = keepAliveInSeconds,
      AppGuid = appGuid,
      AppVersion = appVersion\<rparr>"

definition NewPendingStartMessage ::
    "string \<Rightarrow> time \<Rightarrow> int \<Rightarrow> int \<Rightarrow> string \<Rightarrow> string \<Rightarrow> int \<Rightarrow> float64
     \<Rightarrow> PendingStartMessageReason \<Rightarrow> PendingStartMessage" where
  "NewPendingStartMessage guid now delay keepAlive appGuid appVersion indexToStart priority startReason =
     PendingMessage.extend (newPendingMessage guid now delay keepAlive appGuid appVersion)
       (PendingStartMessage.fields indexToStart priority False startReason)"

definition NewPendingStopMessage ::
    "string \<Rightarrow> time \<Rightarrow> int \<Rightarrow> int \<Rightarrow> string \<Rightarrow> string \<Rightarrow> string
     \<Rightarrow> PendingStopMessageReason \<Rightarrow> PendingStopMessage" where
  "NewPendingStopMessage guid now delay keepAlive appGuid appVersion instanceGuid stopReason =
     PendingMessage.extend (newPendingMessage guid now delay keepAlive appGuid appVersion)
       (PendingStopMessage.fields instanceGuid stopReason)"

named_theorems message_simps \<open>the fields of freshly made messages\<close>

lemma NewPendingStartMessage_simps [message_simps, simp]:
  "MessageId (NewPendingStartMessage g now d k a v i p r) = g"
  "SendOn (NewPendingStartMessage g now d k a v i p r) = Unix (time_Add now (dur_mult d second))"
  "SentOn (NewPendingStartMessage g now d k a v i p r) = 0"
  "KeepAlive (NewPendingStartMessage g now d k a v i p r) = k"
  "AppGuid (NewPendingStartMessage g now d k a v i p r) = a"
  "AppVersion (NewPendingStartMessage g now d k a v i p r) = v"
  "IndexToStart (NewPendingStartMessage g now d k a v i p r) = i"
  "Priority (NewPendingStartMessage g now d k a v i p r) = p"
  "SkipVerification (NewPendingStartMessage g now d k a v i p r) = False"
  "StartReason (NewPendingStartMessage g now d k a v i p r) = r"
  by (simp_all add: NewPendingStartMessage_def newPendingMessage_def PendingMessage.defs
      PendingStartMessage.defs)

lemma NewPendingStopMessage_simps [message_simps, simp]:
  "MessageId (NewPendingStopMessage g now d k a v i r) = g"
  "SendOn (NewPendingStopMessage g now d k a v i r) = Unix (time_Add now (dur_mult d second))"
  "SentOn (NewPendingStopMessage g now d k a v i r) = 0"
  "KeepAlive (NewPendingStopMessage g now d k a v i r) = k"
  "AppGuid (NewPendingStopMessage g now d k a v i r) = a"
  "AppVersion (NewPendingStopMessage g now d k a v i r) = v"
  "InstanceGuid (NewPendingStopMessage g now d k a v i r) = i"
  "StopReason (NewPendingStopMessage g now d k a v i r) = r"
  by (simp_all add: NewPendingStopMessage_def newPendingMessage_def PendingMessage.defs
      PendingStopMessage.defs)

subsection \<open>When a message is due\<close>

definition HasBeenSent :: "('a) PendingMessage_scheme \<Rightarrow> bool" where
  "HasBeenSent message \<longleftrightarrow> SentOn message \<noteq> 0"

definition IsTimeToSend :: "('a) PendingMessage_scheme \<Rightarrow> time \<Rightarrow> bool" where
  "IsTimeToSend message currentTime \<longleftrightarrow>
     \<not> HasBeenSent message \<and> SendOn message \<le> Unix currentTime"

definition IsExpired :: "('a) PendingMessage_scheme \<Rightarrow> time \<Rightarrow> bool" where
  "IsExpired message currentTime \<longleftrightarrow>
     HasBeenSent message \<and> wrap64 (SentOn message + KeepAlive message) \<le> Unix currentTime"

text \<open>The states of a pending message exclude each other.\<close>

lemma due_not_expired: "IsTimeToSend m t \<Longrightarrow> \<not> IsExpired m t'"
  by (simp add: IsTimeToSend_def IsExpired_def)

lemma IsTimeToSend_mono: "IsTimeToSend m t \<Longrightarrow> t \<le> u \<Longrightarrow> IsTimeToSend m u"
  using Unix_mono by (fastforce simp: IsTimeToSend_def)

definition pendingEqual :: "('a) PendingMessage_scheme \<Rightarrow> ('b) PendingMessage_scheme \<Rightarrow> bool" where
  "pendingEqual m n \<longleftrightarrow>
     SendOn m = SendOn n \<and> SentOn m = SentOn n \<and> KeepAlive m = KeepAlive n
   \<and> AppGuid m = AppGuid n \<and> AppVersion m = AppVersion n"

definition PendingStartMessage_Equal :: "PendingStartMessage \<Rightarrow> PendingStartMessage \<Rightarrow> bool" where
  "PendingStartMessage_Equal m n \<longleftrightarrow>
     pendingEqual m n \<and> IndexToStart m = IndexToStart n \<and> float_eq (Priority m) (Priority n)
   \<and> SkipVerification m = SkipVerification n \<and> StartReason m = StartReason n"

definition PendingStopMessage_Equal :: "PendingStopMessage \<Rightarrow> PendingStopMessage \<Rightarrow> bool" where
  "PendingStopMessage_Equal m n \<longleftrightarrow>
     pendingEqual m n \<and> InstanceGuid m = InstanceGuid n \<and> StopReason m = StopReason n"

subsection \<open>Sorting by priority\<close>

definition Less :: "PendingStartMessage \<Rightarrow> PendingStartMessage \<Rightarrow> bool" where
  "Less a b \<longleftrightarrow>
     (let diff = wrap64 (SendOn a - SendOn b) in
      if diff = 0 then float_less (Priority b) (Priority a) else diff < 0)"

fun insert_message :: "PendingStartMessage \<Rightarrow> PendingStartMessage list \<Rightarrow> PendingStartMessage list" where
  "insert_message m [] = [m]"
| "insert_message m (n # ns) = (if Less n m then n # insert_message m ns else m # n # ns)"

text \<open>
  \<open>sort.Sort\<close> is not stable: any order of messages that \<open>Less\<close> does not separate may come out.
  The choice that shuffles the slice before a stable sort stands for that freedom.
\<close>

definition SortStartMessagesByPriority ::
    "choice \<Rightarrow> PendingStartMessage list \<Rightarrow> PendingStartMessage list" where
  "SortStartMessagesByPriority ch messages = foldr insert_message (go_range ch messages) []"

text \<open>The order the comparison means, without the subtraction that could wrap.\<close>

definition before :: "PendingStartMessage \<Rightarrow> PendingStartMessage \<Rightarrow> bool" where
  "before a b \<longleftrightarrow>
     SendOn a < SendOn b \<or> (SendOn a = SendOn b \<and> float_less (Priority b) (Priority a))"

definition sort_ok :: "PendingStartMessage \<Rightarrow> bool" where
  "sort_ok m \<longleftrightarrow> 0 \<le> SendOn m \<and> SendOn m < 2 ^ 62 \<and> Priority m \<noteq> NaN"

lemma Less_before:
  assumes "sort_ok a" and "sort_ok b"
  shows "Less a b \<longleftrightarrow> before a b"
proof -
  have "in_int64 (SendOn a - SendOn b)"
    using assms by (simp add: sort_ok_def in_int64_def)
  then show ?thesis by (auto simp: Less_def before_def wrap64_id Let_def)
qed

lemma before_total_preorder:
  "before a b \<Longrightarrow> \<not> before b a"
  "sort_ok b \<Longrightarrow> \<not> before b a \<Longrightarrow> \<not> before c b \<Longrightarrow> \<not> before c a"
  using float_less_negtrans [of "Priority b" "Priority a" "Priority c"]
  by (auto simp: before_def sort_ok_def dest: float_less_trans)

lemma mset_insert_message [simp]: "mset (insert_message m ns) = add_mset m (mset ns)"
  by (induction ns) auto

lemma mset_foldr_insert [simp]: "mset (foldr insert_message ms ns) = mset ms + mset ns"
  by (induction ms) auto

lemma mset_SortStartMessagesByPriority [simp]:
  "mset (SortStartMessagesByPriority ch ms) = mset ms"
  by (simp add: SortStartMessagesByPriority_def)

lemma set_SortStartMessagesByPriority [simp]:
  "set (SortStartMessagesByPriority ch ms) = set ms"
  by (metis mset_SortStartMessagesByPriority set_mset_mset)

lemma set_insert_message [simp]: "set (insert_message m ns) = insert m (set ns)"
  by (induction ns) auto

lemma sorted_insert_message:
  assumes "sorted_wrt (\<lambda>a b. \<not> before b a) ns" and "\<forall>n\<in>set (m # ns). sort_ok n"
  shows "sorted_wrt (\<lambda>a b. \<not> before b a) (insert_message m ns)"
  using assms
proof (induction ns)
  case (Cons n ns)
  show ?case
  proof (cases "Less n m")
    case True
    then have "before n m" using Cons.prems by (simp add: Less_before)
    then have "\<not> before m n" by (rule before_total_preorder)
    then show ?thesis using True Cons by auto
  next
    case False
    then have nm: "\<not> before n m" using Cons.prems by (simp add: Less_before)
    have "\<not> before k m" if "k \<in> set ns" for k
      using before_total_preorder(2) [OF _ nm] that Cons.prems by auto
    then show ?thesis using False nm Cons.prems by auto
  qed
qed simp

lemma set_foldr_insert [simp]: "set (foldr insert_message ms []) = set ms"
  by (induction ms) auto

lemma sorted_foldr_insert:
  "\<forall>m\<in>set ms. sort_ok m \<Longrightarrow> sorted_wrt (\<lambda>a b. \<not> before b a) (foldr insert_message ms [])"
  by (induction ms) (auto intro!: sorted_insert_message)

lemma SortStartMessagesByPriority_sorted:
  assumes "\<forall>m\<in>set ms. sort_ok m"
  shows "sorted_wrt (\<lambda>a b. \<not> before b a) (SortStartMessagesByPriority ch ms)"
  unfolding SortStartMessagesByPriority_def
  by (rule sorted_foldr_insert) (use assms in simp)

subsection \<open>Keys and JSON\<close>

definition PendingStartMessage_StoreKey :: "PendingStartMessage \<Rightarrow> string" where
  "PendingStartMessage_StoreKey m = AppGuid m @ ''-'' @ AppVersion m @ ''-'' @ itoa (IndexToStart m)"

definition PendingStopMessage_StoreKey :: "PendingStopMessage \<Rightarrow> string" where
  "PendingStopMessage_StoreKey m = InstanceGuid m"

definition PendingStartMessage_ToJSON :: "PendingStartMessage \<Rightarrow> bytes" where
  "PendingStartMessage_ToJSON m = marshal
     (case enc_float (Priority m) of
        None \<Rightarrow> None
      | Some p \<Rightarrow> Some (JObj
          [(''message_id'', JStr (MessageId m)), (''send_on'', JInt (SendOn m)),
           (''sent_on'', JInt (SentOn m)), (''keep_alive'', JInt (KeepAlive m)),
           (''droplet'', JStr (AppGuid m)), (''version'', JStr (AppVersion m)),
           (''index'', JInt (IndexToStart m)), (''priority'', p),
           (''skip_verification'', JBool (SkipVerification m)),
           (''start_reason'', JStr (StartReason m))]))"

definition decode_PendingStartMessage :: "(string \<times> json) list \<Rightarrow> PendingStartMessage option" where
  "decode_PendingStartMessage fs = do {
     i \<leftarrow> jfield jstr ''message_id'' [] fs;
     send \<leftarrow> jfield jint ''send_on'' 0 fs;
     sent \<leftarrow> jfield jint ''sent_on'' 0 fs;
     keep \<leftarrow> jfield jint ''keep_alive'' 0 fs;
     guid \<leftarrow> jfield jstr ''droplet'' [] fs;
     version \<leftarrow> jfield jstr ''version'' [] fs;
     index \<leftarrow> jfield jint ''index'' 0 fs;
     priority \<leftarrow> jfield jfloat ''priority'' (Num 0) fs;
     skip \<leftarrow> jfield jbool ''skip_verification'' False fs;
     reason \<leftarrow> jfield jstr ''start_reason'' [] fs;
     Some \<lparr>MessageId = i, SendOn = send, SentOn = sent, KeepAlive = keep, AppGuid = guid,
       AppVersion = version, IndexToStart = index, Priority = priority, SkipVerification = skip,
       StartReason = reason\<rparr> }"

definition NewPendingStartMessageFromJSON :: "bytes \<Rightarrow> PendingStartMessage option" where
  "NewPendingStartMessageFromJSON encoded =
     unmarshal_struct decode_PendingStartMessage
       \<lparr>MessageId = [], SendOn = 0, SentOn = 0, KeepAlive = 0, AppGuid = [], AppVersion = [],
        IndexToStart = 0, Priority = Num 0, SkipVerification = False, StartReason = []\<rparr> encoded"

definition PendingStopMessage_ToJSON :: "PendingStopMessage \<Rightarrow> bytes" where
  "PendingStopMessage_ToJSON m = Doc (JObj
     [(''message_id'', JStr (MessageId m)), (''send_on'', JInt (SendOn m)),
      (''sent_on'', JInt (SentOn m)), (''keep_alive'', JInt (KeepAlive m)),
      (''droplet'', JStr (AppGuid m)), (''version'', JStr (AppVersion m)),
      (''instance'', JStr (InstanceGuid m)), (''stop_reason'', JStr (StopReason m))])"

definition decode_PendingStopMessage :: "(string \<times> json) list \<Rightarrow> PendingStopMessage option" where
  "decode_PendingStopMessage fs = do {
     i \<leftarrow> jfield jstr ''message_id'' [] fs;
     send \<leftarrow> jfield jint ''send_on'' 0 fs;
     sent \<leftarrow> jfield jint ''sent_on'' 0 fs;
     keep \<leftarrow> jfield jint ''keep_alive'' 0 fs;
     guid \<leftarrow> jfield jstr ''droplet'' [] fs;
     version \<leftarrow> jfield jstr ''version'' [] fs;
     inst \<leftarrow> jfield jstr ''instance'' [] fs;
     reason \<leftarrow> jfield jstr ''stop_reason'' [] fs;
     Some \<lparr>MessageId = i, SendOn = send, SentOn = sent, KeepAlive = keep, AppGuid = guid,
       AppVersion = version, InstanceGuid = inst, StopReason = reason\<rparr> }"

definition NewPendingStopMessageFromJSON :: "bytes \<Rightarrow> PendingStopMessage option" where
  "NewPendingStopMessageFromJSON encoded =
     unmarshal_struct decode_PendingStopMessage
       \<lparr>MessageId = [], SendOn = 0, SentOn = 0, KeepAlive = 0, AppGuid = [], AppVersion = [],
        InstanceGuid = [], StopReason = []\<rparr> encoded"

definition pending_ints_ok :: "('a) PendingMessage_scheme \<Rightarrow> bool" where
  "pending_ints_ok m \<longleftrightarrow> in_int64 (SendOn m) \<and> in_int64 (SentOn m) \<and> in_int64 (KeepAlive m)"

definition start_message_ok :: "PendingStartMessage \<Rightarrow> bool" where
  "start_message_ok m \<longleftrightarrow> pending_ints_ok m \<and> in_int64 (IndexToStart m) \<and> float_ok (Priority m)"

lemma PendingStartMessage_json_roundtrip:
  assumes "start_message_ok m"
  shows "NewPendingStartMessageFromJSON (PendingStartMessage_ToJSON m) = Some m"
proof -
  obtain p where "enc_float (Priority m) = Some p" "p \<noteq> JNull" "jfloat p = Some (Priority m)"
    using enc_float_roundtrip assms by (force simp: start_message_ok_def)
  then show ?thesis
    using assms
    by (simp add: start_message_ok_def pending_ints_ok_def NewPendingStartMessageFromJSON_def
        PendingStartMessage_ToJSON_def marshal_def decode_PendingStartMessage_def fold_eq_def
        lower_def Let_def)
qed

lemma PendingStopMessage_json_roundtrip:
  assumes "pending_ints_ok m"
  shows "NewPendingStopMessageFromJSON (PendingStopMessage_ToJSON m) = Some m"
  using assms
  by (simp add: pending_ints_ok_def NewPendingStopMessageFromJSON_def PendingStopMessage_ToJSON_def
      decode_PendingStopMessage_def fold_eq_def lower_def Let_def)

subsection \<open>The interface Storeable\<close>

text \<open>
  The store keeps anything that has a key and a JSON form; reading it back relies on the
  constructor that inverts the JSON form.
\<close>

locale storeable =
  fixes store_key :: "'a \<Rightarrow> string"
    and to_json :: "'a \<Rightarrow> bytes"
    and from_json :: "bytes \<Rightarrow> 'a option"
    and encodable :: "'a \<Rightarrow> bool"
  assumes from_to_json: "encodable x \<Longrightarrow> from_json (to_json x) = Some x"
begin

lemma to_json_inject: "encodable x \<Longrightarrow> encodable y \<Longrightarrow> to_json x = to_json y \<Longrightarrow> x = y"
  by (metis from_to_json option.inject)

lemma decode_all: "\<forall>x\<in>set xs. encodable x \<Longrightarrow> map_opt from_json (map to_json xs) = Some xs"
  by (rule map_opt_map) (simp add: from_to_json)

end

interpretation start_storeable: storeable PendingStartMessage_StoreKey PendingStartMessage_ToJSON
  NewPendingStartMessageFromJSON start_message_ok
  by unfold_locales (rule PendingStartMessage_json_roundtrip)

interpretation stop_storeable: storeable PendingStopMessage_StoreKey PendingStopMessage_ToJSON
  NewPendingStopMessageFromJSON pending_ints_ok
  by unfold_locales (rule PendingStopMessage_json_roundtrip)

end
