(* ===== verification/Config.thy ===== *)
theory Config imports Go_Json "HOL-Library.Monad_Syntax" begin

text \<open>
  \<open>config/config.go\<close>: the configuration and the intervals derived from it. Fields of type
  \<open>uint64\<close> are 64-bit words and their products wrap; the conversions to \<open>int\<close> and
  \<open>time.Duration\<close> read the word as signed.
\<close>

text \<open>The nested structs.\<close>

record SSL =
  KeyFile :: string
  CertFile :: string
  CACertFile :: string

definition zero_SSL :: SSL where
  "zero_SSL = \<lparr>KeyFile = [], CertFile = [], CACertFile = []\<rparr>"

record NATSServer =
  nats_Host :: string
  nats_Port :: int
  nats_User :: string
  nats_Password :: string

definition zero_NATSServer :: NATSServer where
  "zero_NATSServer = \<lparr>nats_Host = [], nats_Port = 0, nats_User = [], nats_Password = []\<rparr>"

record Config =
  HeartbeatPeriod :: "64 word"
  HeartbeatTTLInHeartbeats :: "64 word"
  ActualFreshnessTTLInHeartbeats :: "64 word"
  GracePeriodInHeartbeats :: "64 word"
  DesiredFreshnessTTLInHeartbeats :: "64 word"
  SenderPollingIntervalInHeartbeats :: int
  SenderTimeoutInHeartbeats :: int
  FetcherPollingIntervalInHeartbeats :: int
  FetcherTimeoutInHeartbeats :: int
  ShredderPollingIntervalInHeartbeats :: int
  ShredderTimeoutInHeartbeats :: int
  AnalyzerPollingIntervalInHeartbeats :: int
  AnalyzerTimeoutInHeartbeats :: int
  ListenerHeartbeatSyncIntervalInMilliseconds :: int
  StoreHeartbeatCacheRefreshIntervalInMilliseconds :: int
  DesiredStateBatchSize :: int
  FetcherNetworkTimeoutInSeconds :: int
  ActualFreshnessKey :: string
  DesiredFreshnessKey :: string
  CCAuthUser :: string
  CCAuthPassword :: string
  CCBaseURL :: string
  SkipSSLVerification :: bool
  CCInternalURL :: string
  StoreSchemaVersion :: int
  StoreURLs :: "string list"
  StoreMaxConcurrentRequests :: int
  SenderNatsStartSubject :: string
  SenderNatsStopSubject :: string
  SenderMessageLimit :: int
  NumberOfCrashesBeforeBackoffBegins :: int
  StartingBackoffDelayInHeartbeats :: int
  MaximumBackoffDelayInHeartbeats :: int
  MetricsServerPort :: int
  MetricsServerUser :: string
  MetricsServerPassword :: string
  APIServerAddress :: string
  APIServerPort :: int
  APIServerUsername :: string
  APIServerPassword :: string
  LogLevelString :: string
  NATS :: "NATSServer list"
  NatsClientPingInterval :: int
  HttpHeartbeatServerAddress :: string
  HttpHeartbeatPort :: int
  SSLCerts :: SSL
  DropsondePort :: int
  ConsulCluster :: string
  ETCDRequireSSL :: bool
  ETCDSSLOptions :: SSL

definition defaults :: Config where
  "defaults = \<lparr>
     HeartbeatPeriod = 10,
     HeartbeatTTLInHeartbeats = 3,
     ActualFreshnessTTLInHeartbeats = 3,
     GracePeriodInHeartbeats = 3,
     DesiredFreshnessTTLInHeartbeats = 12,
     SenderPollingIntervalInHeartbeats = 1,
     SenderTimeoutInHeartbeats = 10,
     FetcherPollingIntervalInHeartbeats = 6,
     FetcherTimeoutInHeartbeats = 60,
     ShredderPollingIntervalInHeartbeats = 360,
     ShredderTimeoutInHeartbeats = 6,
     AnalyzerPollingIntervalInHeartbeats = 1,
     AnalyzerTimeoutInHeartbeats = 10,
     ListenerHeartbeatSyncIntervalInMilliseconds = 1000,
     StoreHeartbeatCacheRefreshIntervalInMilliseconds = 60000,
     DesiredStateBatchSize = 0,
     FetcherNetworkTimeoutInSeconds = 0,
     ActualFreshnessKey = ''/actual-fresh'',
     DesiredFreshnessKey = ''/desired-fresh'',
     CCAuthUser = [],
     CCAuthPassword = [],
     CCBaseURL = [],
     SkipSSLVerification = False,
     CCInternalURL = [],
     StoreSchemaVersion = 0,
     StoreURLs = [],
     StoreMaxConcurrentRequests = 30,
     SenderNatsStartSubject = ''hm9000.start'',
     SenderNatsStopSubject = ''hm9000.stop'',
     SenderMessageLimit = 60,
     NumberOfCrashesBeforeBackoffBegins = 3,
     StartingBackoffDelayInHeartbeats = 3,
     MaximumBackoffDelayInHeartbeats = 96,
     MetricsServerPort = 7879,
     MetricsServerUser = [],
     MetricsServerPassword = [],
     APIServerAddress = ''0.0.0.0'',
     APIServerPort = 5155,
     APIServerUsername = ''magnet'',
     APIServerPassword = ''orangutan4sale'',
     LogLevelString = ''INFO'',
     NATS = [],
     NatsClientPingInterval = 30,
     HttpHeartbeatServerAddress = ''0.0.0.0'',
     HttpHeartbeatPort = 5335,
     SSLCerts = zero_SSL,
     DropsondePort = 0,
     ConsulCluster = ''http://127.0.0.1:8500'',
     ETCDRequireSSL = False,
     ETCDSSLOptions = zero_SSL\<rparr>"

definition HeartbeatDuration :: "Config \<Rightarrow> duration" where
  "HeartbeatDuration conf = dur_mult (sint (HeartbeatPeriod conf)) second"

definition HeartbeatTTL :: "Config \<Rightarrow> 64 word" where
  "HeartbeatTTL conf = HeartbeatTTLInHeartbeats conf * HeartbeatPeriod conf"

definition ActualFreshnessTTL :: "Config \<Rightarrow> 64 word" where
  "ActualFreshnessTTL conf = ActualFreshnessTTLInHeartbeats conf * HeartbeatPeriod conf"

definition GracePeriod :: "Config \<Rightarrow> int" where
  "GracePeriod conf = sint (GracePeriodInHeartbeats conf * HeartbeatPeriod conf)"

definition DesiredFreshnessTTL :: "Config \<Rightarrow> 64 word" where
  "DesiredFreshnessTTL conf = DesiredFreshnessTTLInHeartbeats conf * HeartbeatPeriod conf"

definition FetcherNetworkTimeout :: "Config \<Rightarrow> duration" where
  "FetcherNetworkTimeout conf = dur_mult (FetcherNetworkTimeoutInSeconds conf) second"

definition SenderPollingInterval :: "Config \<Rightarrow> duration" where
  "SenderPollingInterval conf = dur_mult (SenderPollingIntervalInHeartbeats conf) (HeartbeatDuration conf)"

definition SenderTimeout :: "Config \<Rightarrow> duration" where
  "SenderTimeout conf = dur_mult (SenderTimeoutInHeartbeats conf) (HeartbeatDuration conf)"

definition FetcherPollingInterval :: "Config \<Rightarrow> duration" where
  "FetcherPollingInterval conf = dur_mult (FetcherPollingIntervalInHeartbeats conf) (HeartbeatDuration conf)"

definition FetcherTimeout :: "Config \<Rightarrow> duration" where
  "FetcherTimeout conf = dur_mult (FetcherTimeoutInHeartbeats conf) (HeartbeatDuration conf)"

definition ShredderPollingInterval :: "Config \<Rightarrow> duration" where
  "ShredderPollingInterval conf = dur_mult (ShredderPollingIntervalInHeartbeats conf) (HeartbeatDuration conf)"

definition ShredderTimeout :: "Config \<Rightarrow> duration" where
  "ShredderTimeout conf = dur_mult (ShredderTimeoutInHeartbeats conf) (HeartbeatDuration conf)"

definition AnalyzerPollingInterval :: "Config \<Rightarrow> duration" where
  "AnalyzerPollingInterval conf = dur_mult (AnalyzerPollingIntervalInHeartbeats conf) (HeartbeatDuration conf)"

definition AnalyzerTimeout :: "Config \<Rightarrow> duration" where
  "AnalyzerTimeout conf = dur_mult (AnalyzerTimeoutInHeartbeats conf) (HeartbeatDuration conf)"

definition StartingBackoffDelay :: "Config \<Rightarrow> duration" where
  "StartingBackoffDelay conf = dur_mult (StartingBackoffDelayInHeartbeats conf) (HeartbeatDuration conf)"

definition MaximumBackoffDelay :: "Config \<Rightarrow> duration" where
  "MaximumBackoffDelay conf = dur_mult (MaximumBackoffDelayInHeartbeats conf) (HeartbeatDuration conf)"

definition ListenerHeartbeatSyncInterval :: "Config \<Rightarrow> duration" where
  "ListenerHeartbeatSyncInterval conf =
     dur_mult (ListenerHeartbeatSyncIntervalInMilliseconds conf) millisecond"

definition StoreHeartbeatCacheRefreshInterval :: "Config \<Rightarrow> duration" where
  "StoreHeartbeatCacheRefreshInterval conf =
     dur_mult (StoreHeartbeatCacheRefreshIntervalInMilliseconds conf) millisecond"

datatype LogLevelValue = INFO | DEBUG

definition LogLevel :: "Config \<Rightarrow> string + LogLevelValue" where
  "LogLevel conf =
     (if LogLevelString conf = ''INFO'' then Inr INFO
      else if LogLevelString conf = ''DEBUG'' then Inr DEBUG
      else if LogLevelString conf = '''' then Inr INFO
      else Inl (''Unknown log level '' @ LogLevelString conf))"

subsection \<open>Reading a configuration\<close>

text \<open>An unsigned field refuses a negative or too large number.\<close>

fun juint64 :: "json \<Rightarrow> 64 word option" where
  "juint64 (JInt n) = (if 0 \<le> n \<and> n < 2 ^ 64 then Some (word_of_int n) else None)"
| "juint64 _ = None"

text \<open>A nested struct is updated in place, an array replaced element by element.\<close>

fun jnested :: "('a \<Rightarrow> (string \<times> json) list \<Rightarrow> 'a option) \<Rightarrow> string \<Rightarrow> 'a \<Rightarrow> (string \<times> json) list \<Rightarrow> 'a option" where
  "jnested dec k v [] = Some v"
| "jnested dec k v ((k', j) # fs) =
     (if fold_eq k k' \<and> j \<noteq> JNull
      then (case j of
              JObj gs \<Rightarrow> (case dec v gs of None \<Rightarrow> None | Some v' \<Rightarrow> jnested dec k v' fs)
            | _ \<Rightarrow> None)
      else jnested dec k v fs)"

fun jarr :: "(json \<Rightarrow> 'a option) \<Rightarrow> 'a \<Rightarrow> json \<Rightarrow> 'a list option" where
  "jarr elem zero (JArr js) = map_opt (\<lambda>j. if j = JNull then Some zero else elem j) js"
| "jarr elem zero _ = None"

fun jstruct :: "((string \<times> json) list \<Rightarrow> 'a option) \<Rightarrow> json \<Rightarrow> 'a option" where
  "jstruct dec (JObj fs) = dec fs"
| "jstruct dec _ = None"

definition decode_SSL :: "SSL \<Rightarrow> (string \<times> json) list \<Rightarrow> SSL option" where
  "decode_SSL s fs = do {
     key \<leftarrow> jfield jstr ''key_file'' (KeyFile s) fs;
     cert \<leftarrow> jfield jstr ''cert_file'' (CertFile s) fs;
     ca \<leftarrow> jfield jstr ''ca_file'' (CACertFile s) fs;
     Some \<lparr>KeyFile = key, CertFile = cert, CACertFile = ca\<rparr> }"

definition decode_NATSServer :: "(string \<times> json) list \<Rightarrow> NATSServer option" where
  "decode_NATSServer fs = do {
     host \<leftarrow> jfield jstr ''host'' [] fs;
     port \<leftarrow> jfield jint ''port'' 0 fs;
     user \<leftarrow> jfield jstr ''user'' [] fs;
     password \<leftarrow> jfield jstr ''password'' [] fs;
     Some \<lparr>nats_Host = host, nats_Port = port, nats_User = user, nats_Password = password\<rparr> }"

text \<open>\<open>json.Unmarshal\<close> into a struct that already holds the defaults.\<close>

definition decode_config :: "Config \<Rightarrow> (string \<times> json) list \<Rightarrow> Config option" where
  "decode_config c fs = do {
     v0 \<leftarrow> jfield juint64 ''heartbeat_period_in_seconds'' (HeartbeatPeriod c) fs;
     v1 \<leftarrow> jfield juint64 ''heartbeat_ttl_in_heartbeats'' (HeartbeatTTLInHeartbeats c) fs;
     v2 \<leftarrow> jfield juint64 ''actual_freshness_ttl_in_heartbeats'' (ActualFreshnessTTLInHeartbeats c) fs;
     v3 \<leftarrow> jfield juint64 ''grace_period_in_heartbeats'' (GracePeriodInHeartbeats c) fs;
     v4 \<leftarrow> jfield juint64 ''desired_freshness_ttl_in_heartbeats'' (DesiredFreshnessTTLInHeartbeats c) fs;
     v5 \<leftarrow> jfield jint ''sender_polling_interval_in_heartbeats'' (SenderPollingIntervalInHeartbeats c) fs;
     v6 \<leftarrow> jfield jint ''sender_timeout_in_heartbeats'' (SenderTimeoutInHeartbeats c) fs;
     v7 \<leftarrow> jfield jint ''fetcher_polling_interval_in_heartbeats'' (FetcherPollingIntervalInHeartbeats c) fs;
     v8 \<leftarrow> jfield jint ''fetcher_timeout_in_heartbeats'' (FetcherTimeoutInHeartbeats c) fs;
     v9 \<leftarrow> jfield jint ''shredder_polling_interval_in_heartbeats'' (ShredderPollingIntervalInHeartbeats c) fs;
     v10 \<leftarrow> jfield jint ''shredder_timeout_in_heartbeats'' (ShredderTimeoutInHeartbeats c) fs;
     v11 \<leftarrow> jfield jint ''analyzer_polling_interval_in_heartbeats'' (AnalyzerPollingIntervalInHeartbeats c) fs;
     v12 \<leftarrow> jfield jint ''analyzer_timeout_in_heartbeats'' (AnalyzerTimeoutInHeartbeats c) fs;
     v13 \<leftarrow> jfield jint ''listener_heartbeat_sync_interval_in_milliseconds'' (ListenerHeartbeatSyncIntervalInMilliseconds c) fs;
     v14 \<leftarrow> jfield jint ''store_heartbeat_cache_refresh_interval_in_milliseconds'' (StoreHeartbeatCacheRefreshIntervalInMilliseconds c) fs;
     v15 \<leftarrow> jfield jint ''desired_state_batch_size'' (DesiredStateBatchSize c) fs;
     v16 \<leftarrow> jfield jint ''fetcher_network_timeout_in_seconds'' (FetcherNetworkTimeoutInSeconds c) fs;
     v17 \<leftarrow> jfield jstr ''actual_freshness_key'' (ActualFreshnessKey c) fs;
     v18 \<leftarrow> jfield jstr ''desired_freshness_key'' (DesiredFreshnessKey c) fs;
     v19 \<leftarrow> jfield jstr ''cc_auth_user'' (CCAuthUser c) fs;
     v20 \<leftarrow> jfield jstr ''cc_auth_password'' (CCAuthPassword c) fs;
     v21 \<leftarrow> jfield jstr ''cc_base_url'' (CCBaseURL c) fs;
     v22 \<leftarrow> jfield jbool ''skip_cert_verify'' (SkipSSLVerification c) fs;
     v23 \<leftarrow> jfield jstr ''cc_internal_url'' (CCInternalURL c) fs;
     v24 \<leftarrow> jfield jint ''store_schema_version'' (StoreSchemaVersion c) fs;
     v25 \<leftarrow> jfield (jarr jstr []) ''store_urls'' (StoreURLs c) fs;
     v26 \<leftarrow> jfield jint ''store_max_concurrent_requests'' (StoreMaxConcurrentRequests c) fs;
     v27 \<leftarrow> jfield jstr ''sender_nats_start_subject'' (SenderNatsStartSubject c) fs;
     v28 \<leftarrow> jfield jstr ''sender_nats_stop_subject'' (SenderNatsStopSubject c) fs;
     v29 \<leftarrow> jfield jint ''sender_message_limit'' (SenderMessageLimit c) fs;
     v30 \<leftarrow> jfield jint ''number_of_crashes_before_backoff_begins'' (NumberOfCrashesBeforeBackoffBegins c) fs;
     v31 \<leftarrow> jfield jint ''starting_backoff_delay_in_heartbeats'' (StartingBackoffDelayInHeartbeats c) fs;
     v32 \<leftarrow> jfield jint ''maximum_backoff_delay_in_heartbeats'' (MaximumBackoffDelayInHeartbeats c) fs;
     v33 \<leftarrow> jfield jint ''metrics_server_port'' (MetricsServerPort c) fs;
     v34 \<leftarrow> jfield jstr ''metrics_server_user'' (MetricsServerUser c) fs;
     v35 \<leftarrow> jfield jstr ''metrics_server_password'' (MetricsServerPassword c) fs;
     v36 \<leftarrow> jfield jstr ''api_server_address'' (APIServerAddress c) fs;
     v37 \<leftarrow> jfield jint ''api_server_port'' (APIServerPort c) fs;
     v38 \<leftarrow> jfield jstr ''api_server_username'' (APIServerUsername c) fs;
     v39 \<leftarrow> jfield jstr ''api_server_password'' (APIServerPassword c) fs;
     v40 \<leftarrow> jfield jstr ''log_level'' (LogLevelString c) fs;
     v41 \<leftarrow> jfield (jarr (jstruct decode_NATSServer) zero_NATSServer) ''nats'' (NATS c) fs;
     v42 \<leftarrow> jfield jint ''nats_client_ping_interval'' (NatsClientPingInterval c) fs;
     v43 \<leftarrow> jfield jstr ''http_heartbeat_server_address'' (HttpHeartbeatServerAddress c) fs;
     v44 \<leftarrow> jfield jint ''http_heartbeat_port'' (HttpHeartbeatPort c) fs;
     v45 \<leftarrow> jnested decode_SSL ''ssl'' (SSLCerts c) fs;
     v46 \<leftarrow> jfield jint ''dropsonde_port'' (DropsondePort c) fs;
     v47 \<leftarrow> jfield jstr ''config_cluster'' (ConsulCluster c) fs;
     v48 \<leftarrow> jfield jbool ''etcd_require_ssl'' (ETCDRequireSSL c) fs;
     v49 \<leftarrow> jnested decode_SSL ''etcd'' (ETCDSSLOptions c) fs;
     Some \<lparr>HeartbeatPeriod = v0,
       HeartbeatTTLInHeartbeats = v1,
       ActualFreshnessTTLInHeartbeats = v2,
       GracePeriodInHeartbeats = v3,
       DesiredFreshnessTTLInHeartbeats = v4,
       SenderPollingIntervalInHeartbeats = v5,
       SenderTimeoutInHeartbeats = v6,
       FetcherPollingIntervalInHeartbeats = v7,
       FetcherTimeoutInHeartbeats = v8,
       ShredderPollingIntervalInHeartbeats = v9,
       ShredderTimeoutInHeartbeats = v10,
       AnalyzerPollingIntervalInHeartbeats = v11,
       AnalyzerTimeoutInHeartbeats = v12,
       ListenerHeartbeatSyncIntervalInMilliseconds = v13,
       StoreHeartbeatCacheRefreshIntervalInMilliseconds = v14,
       DesiredStateBatchSize = v15,
       FetcherNetworkTimeoutInSeconds = v16,
       ActualFreshnessKey = v17,
       DesiredFreshnessKey = v18,
       CCAuthUser = v19,
       CCAuthPassword = v20,
       CCBaseURL = v21,
       SkipSSLVerification = v22,
       CCInternalURL = v23,
       StoreSchemaVersion = v24,
       StoreURLs = v25,
       StoreMaxConcurrentRequests = v26,
       SenderNatsStartSubject = v27,
       SenderNatsStopSubject = v28,
       SenderMessageLimit = v29,
       NumberOfCrashesBeforeBackoffBegins = v30,
       StartingBackoffDelayInHeartbeats = v31,
       MaximumBackoffDelayInHeartbeats = v32,
       MetricsServerPort = v33,
       MetricsServerUser = v34,
       MetricsServerPassword = v35,
       APIServerAddress = v36,
       APIServerPort = v37,
       APIServerUsername = v38,
       APIServerPassword = v39,
       LogLevelString = v40,
       NATS = v41,
       NatsClientPingInterval = v42,
       HttpHeartbeatServerAddress = v43,
       HttpHeartbeatPort = v44,
       SSLCerts = v45,
       DropsondePort = v46,
       ConsulCluster = v47,
       ETCDRequireSSL = v48,
       ETCDSSLOptions = v49\<rparr> }"

definition FromJSON :: "bytes \<Rightarrow> Config option" where
  "FromJSON JSON = unmarshal_struct (decode_config defaults) defaults JSON"

subsection \<open>No wrap-around for sane settings\<close>

text \<open>Ten bits for the period and for each multiple are far beyond any real setting.\<close>

definition config_sane :: "Config \<Rightarrow> bool" where
  "config_sane c \<longleftrightarrow>
     uint (HeartbeatPeriod c) < 2 ^ 10 \<and> 0 < uint (HeartbeatPeriod c)
   \<and> uint (GracePeriodInHeartbeats c) < 2 ^ 10
   \<and> uint (ActualFreshnessTTLInHeartbeats c) < 2 ^ 10
   \<and> uint (HeartbeatTTLInHeartbeats c) < 2 ^ 10
   \<and> 0 \<le> StartingBackoffDelayInHeartbeats c \<and> StartingBackoffDelayInHeartbeats c < 2 ^ 10
   \<and> 0 \<le> MaximumBackoffDelayInHeartbeats c \<and> MaximumBackoffDelayInHeartbeats c < 2 ^ 10"

lemma sint_small: "uint (w :: 64 word) < 2 ^ 63 \<Longrightarrow> sint w = uint w"
proof -
  assume "uint w < 2 ^ 63"
  moreover have "- (2 ^ 63) \<le> uint w" by (rule order_trans [OF _ uint_ge_0]) simp
  ultimately show ?thesis by (simp add: sint_uint signed_take_bit_int_eq_self)
qed

lemma uint_mult_small:
  fixes a b :: "64 word"
  assumes "uint a < 2 ^ 10" and "uint b < 2 ^ 10"
  shows "uint (a * b) = uint a * uint b" and "uint a * uint b < 2 ^ 20"
proof -
  have "uint a * uint b \<le> (2 ^ 10 - 1) * (2 ^ 10 - 1)"
    using assms by (intro mult_mono) auto
  then show *: "uint a * uint b < 2 ^ 20" by simp
  have "0 \<le> uint a * uint b" by simp
  with * show "uint (a * b) = uint a * uint b"
    by (simp add: uint_word_ariths(3) take_bit_eq_mod)
qed

lemma HeartbeatDuration_sane [go_arith]:
  assumes "config_sane c"
  shows "HeartbeatDuration c = uint (HeartbeatPeriod c) * second"
proof -
  have p: "uint (HeartbeatPeriod c) < 2 ^ 10" using assms by (simp add: config_sane_def)
  then have "in_int64 (uint (HeartbeatPeriod c) * second)"
    by (intro in_int64_mult_bound [where A = "2 ^ 10" and B = second]) (simp_all add: second_def)
  then show ?thesis
    using p by (simp add: HeartbeatDuration_def dur_mult_def sint_small wrap64_id)
qed

lemma GracePeriod_sane [go_arith]:
  assumes "config_sane c"
  shows "GracePeriod c = uint (GracePeriodInHeartbeats c) * uint (HeartbeatPeriod c)"
    and "0 \<le> GracePeriod c" and "GracePeriod c < 2 ^ 20"
proof -
  have *: "uint (GracePeriodInHeartbeats c) < 2 ^ 10" "uint (HeartbeatPeriod c) < 2 ^ 10"
    using assms by (simp_all add: config_sane_def)
  show g: "GracePeriod c = uint (GracePeriodInHeartbeats c) * uint (HeartbeatPeriod c)"
    using uint_mult_small [OF *] by (simp add: GracePeriod_def sint_small)
  show "0 \<le> GracePeriod c" by (simp add: g)
  show "GracePeriod c < 2 ^ 20" using uint_mult_small(2) [OF *] by (simp add: g)
qed

lemma backoff_sane:
  assumes "config_sane c" and "0 \<le> n" and "n < 2 ^ 10"
  shows "dur_mult n (HeartbeatDuration c) = n * uint (HeartbeatPeriod c) * second"
proof -
  have p: "uint (HeartbeatPeriod c) < 2 ^ 10" using assms by (simp add: config_sane_def)
  have b: "uint (HeartbeatPeriod c) * second \<le> 2 ^ 10 * second"
    using p by (simp add: second_def)
  have "in_int64 (n * (uint (HeartbeatPeriod c) * second))"
    using assms b
    by (intro in_int64_mult_bound [where A = "2 ^ 10" and B = "2 ^ 10 * second"])
      (simp_all add: second_def)
  then show ?thesis
    using assms by (simp add: HeartbeatDuration_sane dur_mult_def wrap64_id mult.assoc)
qed

lemma StartingBackoffDelay_sane [go_arith]:
  assumes "config_sane c"
  shows "whole_seconds (StartingBackoffDelay c) =
           StartingBackoffDelayInHeartbeats c * uint (HeartbeatPeriod c)"
  using assms
  by (simp add: StartingBackoffDelay_def backoff_sane config_sane_def whole_seconds_mult)

lemma MaximumBackoffDelay_sane [go_arith]:
  assumes "config_sane c"
  shows "whole_seconds (MaximumBackoffDelay c) =
           MaximumBackoffDelayInHeartbeats c * uint (HeartbeatPeriod c)"
  using assms
  by (simp add: MaximumBackoffDelay_def backoff_sane config_sane_def whole_seconds_mult)

lemma defaults_sane: "config_sane defaults"
  by (simp add: config_sane_def defaults_def)

lemma GracePeriod_defaults: "GracePeriod defaults = 30"
  by (simp add: GracePeriod_sane(1) [OF defaults_sane]) (simp add: defaults_def)

end
