(* ===== verification/Crash_Delay.thy ===== *)
theory Crash_Delay imports Go_Runtime "HOL-Library.Log_Nat" begin

text \<open>
  \<open>analyzer/crash_delay.go\<close>: the delay before a crashed instance is started again. The code
  computes with \<open>math.Log2\<close> and \<open>math.Pow\<close> on \<open>float64\<close>; the model takes the exact logarithm,
  rounded down and up by integer arithmetic. Where a float that is not finite or too large is
  converted to \<open>int\<close>, Go leaves the result to the implementation: that result is the argument
  \<open>unrep\<close>.
\<close>

subsection \<open>Integer bounds of a binary logarithm\<close>

text \<open>For \<open>0 < b \<le> a\<close>: the largest \<open>k\<close> with \<open>b * 2 ^ k \<le> a\<close>, and the least \<open>k\<close> with \<open>a \<le> b * 2 ^ k\<close>.\<close>

definition log2_down_ge :: "int \<Rightarrow> int \<Rightarrow> int" where
  "log2_down_ge a b = int (floorlog 2 (nat (a div b))) - 1"

definition log2_up_ge :: "int \<Rightarrow> int \<Rightarrow> int" where
  "log2_up_ge a b =
     (let k = log2_down_ge a b in if b * 2 ^ nat k = a then k else k + 1)"

text \<open>\<open>\<lfloor>log 2 (a / b)\<rfloor>\<close> and \<open>\<lceil>log 2 (a / b)\<rceil>\<close> for positive \<open>a\<close> and \<open>b\<close>.\<close>

definition log2_down :: "int \<Rightarrow> int \<Rightarrow> int" where
  "log2_down a b = (if b \<le> a then log2_down_ge a b else - log2_up_ge b a)"

definition log2_up :: "int \<Rightarrow> int \<Rightarrow> int" where
  "log2_up a b = (if b \<le> a then log2_up_ge a b else - log2_down_ge b a)"

lemma log2_down_ge_bounds:
  assumes "0 < b" and "b \<le> a"
  shows "0 \<le> log2_down_ge a b" and "b * 2 ^ nat (log2_down_ge a b) \<le> a"
    and "a < b * 2 ^ nat (log2_down_ge a b + 1)"
proof -
  let ?q = "nat (a div b)"
  let ?k = "floorlog 2 ?q"
  have q: "0 < ?q" using assms by (simp add: pos_imp_zdiv_pos_iff)
  have k: "0 < ?k" using q by (simp add: floorlog_def)
  have lo: "2 ^ (?k - 1) \<le> ?q" and hi: "?q < 2 ^ ?k"
    using floorlog_bounds [of ?q 2] q by auto
  show "0 \<le> log2_down_ge a b" using k by (simp add: log2_down_ge_def)
  have e: "nat (log2_down_ge a b) = ?k - 1" "nat (log2_down_ge a b + 1) = ?k"
    using k by (simp_all add: log2_down_ge_def)
  have "(2::int) ^ (?k - 1) \<le> a div b" and "a div b < (2::int) ^ ?k"
    using lo hi q by (simp_all add: nat_le_iff nat_less_iff le_nat_iff flip: of_nat_power_less_of_nat_cancel_iff)
  then have "b * 2 ^ (?k - 1) \<le> b * (a div b)" and "b * (a div b + 1) \<le> b * 2 ^ ?k"
    using assms by simp_all
  moreover have "b * (a div b) \<le> a" and "a < b * (a div b + 1)"
  proof -
    have "a = b * (a div b) + a mod b" and "0 \<le> a mod b" and "a mod b < b"
      using assms by simp_all
    then show "b * (a div b) \<le> a" and "a < b * (a div b + 1)"
      unfolding distrib_left mult_1_right by linarith+
  qed
  ultimately show "b * 2 ^ nat (log2_down_ge a b) \<le> a"
    and "a < b * 2 ^ nat (log2_down_ge a b + 1)"
    by (simp_all only: e)
qed

lemma log2_down_ge_floor:
  assumes "0 < b" and "b \<le> a"
  shows "\<lfloor>log 2 (of_int a / of_int b)\<rfloor> = log2_down_ge a b"
proof -
  note bounds = log2_down_ge_bounds [OF assms]
  let ?k = "log2_down_ge a b"
  have k: "of_int ?k = real (nat ?k)" "of_int (?k + 1) = real (nat (?k + 1))"
    using bounds(1) by simp_all
  have pos: "0 < real_of_int a / real_of_int b" using assms by simp
  have "real_of_int (b * 2 ^ nat ?k) \<le> real_of_int a" using bounds(2) by (simp only: of_int_le_iff)
  then have "2 powr real (nat ?k) \<le> real_of_int a / real_of_int b"
    using assms by (simp add: powr_realpow field_simps)
  then have lo: "of_int ?k \<le> log 2 (of_int a / of_int b)"
    using pos by (simp add: k(1) le_log_iff)
  have "real_of_int a < real_of_int (b * 2 ^ nat (?k + 1))" using bounds(3) by (simp only: of_int_less_iff)
  then have "real_of_int a / real_of_int b < 2 powr real (nat (?k + 1))"
    using assms by (simp add: powr_realpow field_simps)
  then have "log 2 (of_int a / of_int b) < real (nat (?k + 1))"
    by (subst log_less_iff [OF _ pos]) (simp, assumption)
  then have "log 2 (of_int a / of_int b) < of_int (?k + 1)" by (simp only: k(2))
  with lo show ?thesis by (simp add: floor_eq_iff)
qed

subsection \<open>The delay\<close>

definition effectiveMaxCrashCount :: "int \<Rightarrow> int \<Rightarrow> int \<Rightarrow> int \<Rightarrow> int" where
  "effectiveMaxCrashCount unrep numberOfCrashesBeforeBackoffBegins startinDelay maximumDelay =
     (if (0 < startinDelay \<and> 0 < maximumDelay) \<or> (startinDelay < 0 \<and> maximumDelay < 0)
      then let lo = log2_down \<bar>maximumDelay\<bar> \<bar>startinDelay\<bar> + numberOfCrashesBeforeBackoffBegins;
               up = log2_up \<bar>maximumDelay\<bar> \<bar>startinDelay\<bar> + numberOfCrashesBeforeBackoffBegins;
               n = (if 0 \<le> lo then lo else up)
           in if in_int64 n then n else unrep
      else unrep)"

text \<open>\<open>int(math.Pow(2.0, float64(k)))\<close>.\<close>

definition int_pow2 :: "int \<Rightarrow> int \<Rightarrow> int" where
  "int_pow2 unrep k = (if k < 0 then 0 else if k < 63 then 2 ^ nat k else unrep)"

definition ComputeCrashDelay :: "int \<Rightarrow> int \<Rightarrow> int \<Rightarrow> int \<Rightarrow> int \<Rightarrow> int" where
  "ComputeCrashDelay unrep crashCount numberOfCrashesBeforeBackoffBegins startinDelay maximumDelay =
     (if crashCount < numberOfCrashesBeforeBackoffBegins then 0
      else if effectiveMaxCrashCount unrep numberOfCrashesBeforeBackoffBegins startinDelay maximumDelay
                < crashCount
      then maximumDelay
      else wrap64 (startinDelay
             * int_pow2 unrep (wrap64 (crashCount - numberOfCrashesBeforeBackoffBegins))))"

definition backoff_args_ok :: "int \<Rightarrow> int \<Rightarrow> int \<Rightarrow> bool" where
  "backoff_args_ok n s m \<longleftrightarrow> 0 < s \<and> s \<le> m \<and> m < 2 ^ 63 \<and> 0 \<le> n \<and> n < 2 ^ 62"

lemma log2_down_small:
  assumes "0 < s" and "s \<le> m" and "m < 2 ^ 63"
  shows "log2_down_ge m s < 63"
proof (rule ccontr)
  assume "\<not> log2_down_ge m s < 63"
  then have "63 \<le> nat (log2_down_ge m s)" by simp
  then have "(2::int) ^ 63 \<le> 2 ^ nat (log2_down_ge m s)"
    by (intro power_increasing) simp_all
  also have "\<dots> \<le> s * 2 ^ nat (log2_down_ge m s)" using assms by simp
  also have "\<dots> \<le> m" using log2_down_ge_bounds(2) assms by blast
  finally show False using assms by simp
qed

lemma effectiveMaxCrashCount_eq:
  assumes "backoff_args_ok n s m"
  shows "effectiveMaxCrashCount unrep n s m = log2_down_ge m s + n"
proof -
  have s: "0 < s" "s \<le> m" "m < 2 ^ 63" and n: "0 \<le> n" "n < 2 ^ 62"
    using assms by (simp_all add: backoff_args_ok_def)
  have l: "0 \<le> log2_down_ge m s" "log2_down_ge m s < 63"
    using log2_down_ge_bounds(1) log2_down_small s by blast+
  have "in_int64 (log2_down_ge m s + n)"
    unfolding in_int64_def using l n by simp
  then show ?thesis
    using s n l by (simp add: effectiveMaxCrashCount_def log2_down_def)
qed

text \<open>Beyond the effective maximum the doubled delay exceeds the maximum; up to it, it does not.\<close>

lemma doubled_delay_iff:
  assumes "0 < s" and "s \<le> m" and "0 \<le> k"
  shows "log2_down_ge m s < k \<longleftrightarrow> m < s * 2 ^ nat k"
proof
  assume "log2_down_ge m s < k"
  then have "nat (log2_down_ge m s + 1) \<le> nat k" by simp
  then have "(2::int) ^ nat (log2_down_ge m s + 1) \<le> 2 ^ nat k" by (intro power_increasing) simp_all
  then have "s * 2 ^ nat (log2_down_ge m s + 1) \<le> s * 2 ^ nat k" using assms by simp
  then show "m < s * 2 ^ nat k" using log2_down_ge_bounds(3) [OF assms(1,2)] by simp
next
  assume m: "m < s * 2 ^ nat k"
  show "log2_down_ge m s < k"
  proof (rule ccontr)
    assume "\<not> log2_down_ge m s < k"
    then have "nat k \<le> nat (log2_down_ge m s)" by simp
    then have "(2::int) ^ nat k \<le> 2 ^ nat (log2_down_ge m s)" by (intro power_increasing) simp_all
    then have "s * 2 ^ nat k \<le> s * 2 ^ nat (log2_down_ge m s)" using assms by simp
    then show False using m log2_down_ge_bounds(2) [OF assms(1,2)] by simp
  qed
qed

lemma ComputeCrashDelay_eq_min:
  assumes "backoff_args_ok n s m" and "crashes < 2 ^ 63"
  shows "ComputeCrashDelay unrep crashes n s m =
           (if crashes < n then 0 else min m (s * 2 ^ nat (crashes - n)))"
proof (cases "crashes < n")
  case False
  have s: "0 < s" "s \<le> m" "m < 2 ^ 63" and n: "0 \<le> n" "n < 2 ^ 62"
    using assms by (simp_all add: backoff_args_ok_def)
  let ?k = "crashes - n"
  have k: "0 \<le> ?k" "in_int64 ?k" unfolding in_int64_def using False n assms(2) by simp_all
  have w: "wrap64 ?k = ?k" using k(2) by (rule wrap64_id)
  show ?thesis
  proof (cases "log2_down_ge m s < ?k")
    case True
    then have "m < s * 2 ^ nat ?k" using doubled_delay_iff s k by blast
    then show ?thesis
      using True False by (simp add: ComputeCrashDelay_def effectiveMaxCrashCount_eq [OF assms(1)])
  next
    case small: False
    then have le: "s * 2 ^ nat ?k \<le> m" using doubled_delay_iff [OF s(1,2) k(1)] by simp
    have "?k < 63" using small log2_down_small s by fastforce
    moreover have "in_int64 (s * 2 ^ nat ?k)"
    proof -
      have "0 \<le> s * 2 ^ nat ?k" using s by simp
      then have "- (2 ^ 63) \<le> s * 2 ^ nat ?k" by (rule order_trans [rotated]) simp
      then show ?thesis using le s by (simp add: in_int64_def)
    qed
    ultimately show ?thesis
      using small False le k w
      by (simp add: ComputeCrashDelay_def effectiveMaxCrashCount_eq [OF assms(1)] int_pow2_def wrap64_id)
  qed
qed (simp add: ComputeCrashDelay_def)

lemma ComputeCrashDelay_bounds:
  assumes "backoff_args_ok n s m" and "crashes < 2 ^ 63"
  shows "0 \<le> ComputeCrashDelay unrep crashes n s m" and "ComputeCrashDelay unrep crashes n s m \<le> m"
  using assms by (auto simp: ComputeCrashDelay_eq_min backoff_args_ok_def)

lemma ComputeCrashDelay_mono:
  assumes "backoff_args_ok n s m" and "c \<le> c'" and "c' < 2 ^ 63"
  shows "ComputeCrashDelay unrep c n s m \<le> ComputeCrashDelay unrep c' n s m"
proof -
  have s: "0 < s" "s \<le> m" using assms by (simp_all add: backoff_args_ok_def)
  have "s * 2 ^ nat (c - n) \<le> s * 2 ^ nat (c' - n)"
    using s assms(2) by (simp add: power_increasing)
  then have "min m (s * 2 ^ nat (c - n)) \<le> min m (s * 2 ^ nat (c' - n))" by linarith
  then show ?thesis using assms s by (auto simp: ComputeCrashDelay_eq_min)
qed

end
