(* ===== verification/App_Analyzer.thy ===== *)
theory App_Analyzer imports App_Model Pending_Messages Config Crash_Delay begin

text \<open>
  \<open>analyzer/app_analyzer.go\<close>: one app's heartbeats against its desired state. The fields of the
  Go struct that no step changes are the record \<open>appAnalyzer\<close>, the ones it fills are the record
  \<open>analysis\<close>. What a run takes from outside, the random guids, the order of a range and the
  conversion of an unrepresentable float, is the record \<open>runtime\<close>; \<open>an_guids\<close> counts the guids
  drawn so far. Logging is left out.
\<close>

record runtime =
  rt_Guid :: "nat \<Rightarrow> string"
  rt_range :: choice
  rt_unrep :: int

record appAnalyzer =
  az_app :: App
  az_conf :: Config
  az_existingPendingStartMessages :: "(string, PendingStartMessage) gomap"
  az_existingPendingStopMessages :: "(string, PendingStopMessage) gomap"
  az_currentTime :: time

record analysis =
  an_startMessages :: "(string, PendingStartMessage) gomap"
  an_stopMessages :: "(string, PendingStopMessage) gomap"
  an_crashCounts :: "CrashCountRec list"
  an_guids :: nat

definition newAppAnalyzer :: "App \<Rightarrow> time \<Rightarrow> (string, PendingStartMessage) gomap
    \<Rightarrow> (string, PendingStopMessage) gomap \<Rightarrow> Config \<Rightarrow> appAnalyzer" where
  "newAppAnalyzer app currentTime starts stops conf =
     \<lparr>az_app = app, az_conf = conf, az_existingPendingStartMessages = starts,
      az_existingPendingStopMessages = stops, az_currentTime = currentTime\<rparr>"

definition new_analysis :: "nat \<Rightarrow> analysis" where
  "new_analysis guids =
     \<lparr>an_startMessages = [], an_stopMessages = [], an_crashCounts = [], an_guids = guids\<rparr>"

definition draw :: "analysis \<Rightarrow> analysis" where
  "draw s = s\<lparr>an_guids := Suc (an_guids s)\<rparr>"

definition next_guid :: "runtime \<Rightarrow> analysis \<Rightarrow> string" where
  "next_guid rt s = rt_Guid rt (an_guids s)"

subsection \<open>Queueing\<close>

definition appendStartMessageIfNotDuplicate ::
    "appAnalyzer \<Rightarrow> PendingStartMessage \<Rightarrow> analysis \<Rightarrow> bool \<times> analysis" where
  "appendStartMessageIfNotDuplicate a message s =
     (case map_of (az_existingPendingStartMessages a) (PendingStartMessage_StoreKey message) of
        None \<Rightarrow> (True, s\<lparr>an_startMessages :=
                    mput (PendingStartMessage_StoreKey message) message (an_startMessages s)\<rparr>)
      | Some _ \<Rightarrow> (False, s))"

definition appendStopMessageIfNotDuplicate ::
    "appAnalyzer \<Rightarrow> PendingStopMessage \<Rightarrow> analysis \<Rightarrow> analysis" where
  "appendStopMessageIfNotDuplicate a message s =
     (case map_of (az_existingPendingStopMessages a) (PendingStopMessage_StoreKey message) of
        None \<Rightarrow> s\<lparr>an_stopMessages :=
                  mput (PendingStopMessage_StoreKey message) message (an_stopMessages s)\<rparr>
      | Some _ \<Rightarrow> s)"

definition computePendingStartMessagePriority :: "appAnalyzer \<Rightarrow> float64" where
  "computePendingStartMessagePriority a =
     (let numberOfMissingIndices = NumberOfDesiredInstances (az_app a)
            - NumberOfDesiredIndicesWithAStartingOrRunningInstance (az_app a)
      in float_ratio numberOfMissingIndices (NumberOfDesiredInstances (az_app a)))"

definition computeDelayForCrashCount :: "runtime \<Rightarrow> appAnalyzer \<Rightarrow> CrashCountRec \<Rightarrow> int" where
  "computeDelayForCrashCount rt a crashCount =
     ComputeCrashDelay (rt_unrep rt) (cc_CrashCount crashCount)
       (NumberOfCrashesBeforeBackoffBegins (az_conf a))
       (whole_seconds (StartingBackoffDelay (az_conf a)))
       (whole_seconds (MaximumBackoffDelay (az_conf a)))"

subsection \<open>Missing instances\<close>

definition is_missing :: "appAnalyzer \<Rightarrow> int \<Rightarrow> bool" where
  "is_missing a index \<longleftrightarrow>
     \<not> HasStartingOrRunningInstanceAtIndex (az_app a) index
   \<and> \<not> HasCrashedInstanceAtIndex (az_app a) index
   \<and> \<not> HasEvacuatingInstanceAtIndex (az_app a) index"

definition missing_message :: "appAnalyzer \<Rightarrow> float64 \<Rightarrow> int \<Rightarrow> string \<Rightarrow> PendingStartMessage" where
  "missing_message a priority index guid =
     NewPendingStartMessage guid (az_currentTime a) (GracePeriod (az_conf a)) 0
       (app_AppGuid (az_app a)) (app_AppVersion (az_app a)) index priority
       PendingStartMessageReasonMissing"

definition missing_step :: "runtime \<Rightarrow> appAnalyzer \<Rightarrow> float64 \<Rightarrow> int \<Rightarrow> analysis \<Rightarrow> analysis" where
  "missing_step rt a priority index s =
     (if is_missing a index
      then snd (appendStartMessageIfNotDuplicate a
                  (missing_message a priority index (next_guid rt s)) (draw s))
      else s)"

definition generatePendingStartsForMissingInstances ::
    "runtime \<Rightarrow> appAnalyzer \<Rightarrow> float64 \<Rightarrow> analysis \<Rightarrow> analysis" where
  "generatePendingStartsForMissingInstances rt a priority s =
     (if \<not> IsStaged (az_app a) then s
      else fold (missing_step rt a priority) (desired_indices (az_app a)) s)"

subsection \<open>Crashed instances\<close>

definition is_restartable :: "appAnalyzer \<Rightarrow> int \<Rightarrow> bool" where
  "is_restartable a index \<longleftrightarrow>
     \<not> HasStartingOrRunningInstanceAtIndex (az_app a) index
   \<and> HasCrashedInstanceAtIndex (az_app a) index
   \<and> \<not> (index \<noteq> 0 \<and> \<not> HasStartingOrRunningInstances (az_app a))"

definition crashed_message ::
    "runtime \<Rightarrow> appAnalyzer \<Rightarrow> float64 \<Rightarrow> int \<Rightarrow> string \<Rightarrow> PendingStartMessage" where
  "crashed_message rt a priority index guid =
     NewPendingStartMessage guid (az_currentTime a)
       (computeDelayForCrashCount rt a (CrashCountAtIndex (az_app a) index (az_currentTime a)))
       (GracePeriod (az_conf a)) (app_AppGuid (az_app a)) (app_AppVersion (az_app a)) index priority
       PendingStartMessageReasonCrashed"

definition one_more_crash :: "CrashCountRec \<Rightarrow> CrashCountRec" where
  "one_more_crash c = c\<lparr>cc_CrashCount := wrap64 (cc_CrashCount c + 1)\<rparr>"

definition crashed_step :: "runtime \<Rightarrow> appAnalyzer \<Rightarrow> float64 \<Rightarrow> int \<Rightarrow> analysis \<Rightarrow> analysis" where
  "crashed_step rt a priority index s =
     (if is_restartable a index
      then let crashCount = CrashCountAtIndex (az_app a) index (az_currentTime a);
               (didAppend, s') = appendStartMessageIfNotDuplicate a
                  (crashed_message rt a priority index (next_guid rt s)) (draw s)
           in if didAppend
              then s'\<lparr>an_crashCounts := an_crashCounts s' @ [one_more_crash crashCount]\<rparr>
              else s'
      else s)"

definition generatePendingStartsForCrashedInstances ::
    "runtime \<Rightarrow> appAnalyzer \<Rightarrow> float64 \<Rightarrow> analysis \<Rightarrow> analysis" where
  "generatePendingStartsForCrashedInstances rt a priority s =
     (if \<not> IsStaged (az_app a) then s
      else fold (crashed_step rt a priority) (desired_indices (az_app a)) s)"

subsection \<open>Extra and duplicate instances\<close>

definition stop_message ::
    "appAnalyzer \<Rightarrow> int \<Rightarrow> InstanceHeartbeat \<Rightarrow> PendingStopMessageReason \<Rightarrow> string \<Rightarrow> PendingStopMessage" where
  "stop_message a delay h reason guid =
     NewPendingStopMessage guid (az_currentTime a) delay (GracePeriod (az_conf a))
       (app_AppGuid (az_app a)) (app_AppVersion (az_app a)) (hb_InstanceGuid h) reason"

definition stop_step ::
    "runtime \<Rightarrow> appAnalyzer \<Rightarrow> int \<Rightarrow> PendingStopMessageReason \<Rightarrow> InstanceHeartbeat \<Rightarrow> analysis \<Rightarrow> analysis" where
  "stop_step rt a delay reason h s =
     appendStopMessageIfNotDuplicate a (stop_message a delay h reason (next_guid rt s)) (draw s)"

definition generatePendingStopsForExtraInstances :: "runtime \<Rightarrow> appAnalyzer \<Rightarrow> analysis \<Rightarrow> analysis" where
  "generatePendingStopsForExtraInstances rt a s =
     fold (stop_step rt a 0 PendingStopMessageReasonExtra)
       (ExtraStartingOrRunningInstances (az_app a)) s"

text \<open>The delay of the \<open>i\<close>-th of several instances at one index.\<close>

definition duplicate_delay :: "appAnalyzer \<Rightarrow> nat \<Rightarrow> int" where
  "duplicate_delay a i =
     (let minimumDuplicateInstanceStopDelay = wrap64 (4 * GracePeriod (az_conf a))
      in wrap64 (wrap64 (int i * GracePeriod (az_conf a)) + minimumDuplicateInstanceStopDelay))"

definition duplicate_step :: "runtime \<Rightarrow> appAnalyzer \<Rightarrow> nat \<times> InstanceHeartbeat \<Rightarrow> analysis \<Rightarrow> analysis" where
  "duplicate_step rt a = (\<lambda>(i, h). stop_step rt a (duplicate_delay a i) PendingStopMessageReasonDuplicate h)"

definition duplicates_at :: "runtime \<Rightarrow> appAnalyzer \<Rightarrow> int \<Rightarrow> analysis \<Rightarrow> analysis" where
  "duplicates_at rt a index s =
     (let instances = StartingOrRunningInstancesAtIndex (az_app a) index in
      if 1 < length instances
      then fold (duplicate_step rt a) (enumerate 0 instances) s
      else s)"

definition generatePendingStopsForDuplicateInstances :: "runtime \<Rightarrow> appAnalyzer \<Rightarrow> analysis \<Rightarrow> analysis" where
  "generatePendingStopsForDuplicateInstances rt a s =
     fold (duplicates_at rt a) (desired_indices (az_app a)) s"

subsection \<open>Evacuating instances\<close>

definition evacuating_message :: "appAnalyzer \<Rightarrow> int \<Rightarrow> string \<Rightarrow> PendingStartMessage" where
  "evacuating_message a index guid =
     NewPendingStartMessage guid (az_currentTime a) 0 (GracePeriod (az_conf a))
       (app_AppGuid (az_app a)) (app_AppVersion (az_app a)) index (Num 2)
       PendingStartMessageReasonEvacuating"

text \<open>The closure \<open>addStopMessages\<close>: a stop for each evacuating instance at the index.\<close>

definition addStopMessages ::
    "runtime \<Rightarrow> appAnalyzer \<Rightarrow> int \<Rightarrow> PendingStopMessageReason \<Rightarrow> analysis \<Rightarrow> analysis" where
  "addStopMessages rt a index reason s =
     fold (stop_step rt a 0 reason) (EvacuatingInstancesAtIndex (az_app a) index) s"

definition evacuating_step :: "runtime \<Rightarrow> appAnalyzer \<Rightarrow> int \<Rightarrow> analysis \<Rightarrow> analysis" where
  "evacuating_step rt a index s =
     (if 0 < length (EvacuatingInstancesAtIndex (az_app a) index)
      then let startMessage = evacuating_message a index (next_guid rt s);
               s1 = draw s
           in if \<not> IsIndexDesired (az_app a) index
              then addStopMessages rt a index PendingStopMessageReasonExtra s1
              else let s2 = (if \<not> IsStaged (az_app a)
                             then addStopMessages rt a index PendingStopMessageReasonEvacuationComplete s1
                             else s1)
                   in if HasRunningInstanceAtIndex (az_app a) index
                      then addStopMessages rt a index PendingStopMessageReasonEvacuationComplete s2
                      else if HasStartingInstanceAtIndex (az_app a) index then s2
                      else let s3 = (if 0 < cc_CrashCount (CrashCountAtIndex (az_app a) index (az_currentTime a))
                                     then addStopMessages rt a index
                                            PendingStopMessageReasonEvacuationComplete s2
                                     else s2)
                           in snd (appendStartMessageIfNotDuplicate a startMessage s3)
      else s)"

definition generatePendingStartsAndStopsForEvacuatingInstances ::
    "runtime \<Rightarrow> appAnalyzer \<Rightarrow> analysis \<Rightarrow> analysis" where
  "generatePendingStartsAndStopsForEvacuatingInstances rt a s =
     fold (evacuating_step rt a) (go_range (rt_range rt) (map fst (HeartbeatsByIndex (az_app a)))) s"

subsection \<open>The whole analysis\<close>

definition starts_phase :: "runtime \<Rightarrow> appAnalyzer \<Rightarrow> analysis \<Rightarrow> analysis" where
  "starts_phase rt a s =
     (let priority = computePendingStartMessagePriority a
      in generatePendingStartsAndStopsForEvacuatingInstances rt a
           (generatePendingStartsForCrashedInstances rt a priority
             (generatePendingStartsForMissingInstances rt a priority s)))"

definition analyzeApp :: "runtime \<Rightarrow> appAnalyzer \<Rightarrow> analysis \<Rightarrow> analysis" where
  "analyzeApp rt a s =
     (let s' = starts_phase rt a s in
      if length (an_startMessages s') = 0
      then generatePendingStopsForDuplicateInstances rt a
             (generatePendingStopsForExtraInstances rt a s')
      else s')"

end
