(* ===== verification/App_Analyzer_Facts.thy ===== *)
theory App_Analyzer_Facts imports App_Analyzer begin

text \<open>
  What the analysis of one app queues. Start messages are seen through \<open>start_view\<close>, which
  forgets the random message id; stop messages through their keys and through an invariant that
  justifies each of them by a heartbeat.
\<close>

subsection \<open>Keys and views\<close>

definition start_key :: "appAnalyzer \<Rightarrow> int \<Rightarrow> string" where
  "start_key a i = app_AppGuid (az_app a) @ ''-'' @ app_AppVersion (az_app a) @ ''-'' @ itoa i"

lemma start_key_inject [simp]: "start_key a i = start_key a j \<longleftrightarrow> i = j"
  by (simp add: start_key_def)

lemma inj_start_key: "inj_on (start_key a) X"
  by (simp add: inj_on_def)

definition anonymous :: "PendingStartMessage \<Rightarrow> PendingStartMessage" where
  "anonymous m = m\<lparr>MessageId := ''''\<rparr>"

definition start_view :: "analysis \<Rightarrow> string \<Rightarrow> PendingStartMessage option" where
  "start_view s k = map_option anonymous (map_of (an_startMessages s) k)"

definition start_queued :: "appAnalyzer \<Rightarrow> int \<Rightarrow> bool" where
  "start_queued a i \<longleftrightarrow> map_of (az_existingPendingStartMessages a) (start_key a i) \<noteq> None"

definition stop_queued :: "appAnalyzer \<Rightarrow> string \<Rightarrow> bool" where
  "stop_queued a g \<longleftrightarrow> map_of (az_existingPendingStopMessages a) g \<noteq> None"

named_theorems analysis_views \<open>what the steps of the analysis do to the views\<close>

lemma anonymous_New [simp]:
  "anonymous (NewPendingStartMessage g now d k a v i p r) = NewPendingStartMessage '''' now d k a v i p r"
  by (simp add: anonymous_def NewPendingStartMessage_def newPendingMessage_def PendingMessage.defs
      PendingStartMessage.defs)

lemma anonymous_messages [simp]:
  "anonymous (missing_message a p i g) = missing_message a p i ''''"
  "anonymous (crashed_message rt a p i g) = crashed_message rt a p i ''''"
  "anonymous (evacuating_message a i g) = evacuating_message a i ''''"
  by (simp_all add: missing_message_def crashed_message_def evacuating_message_def)

lemma anonymous_simps [simp]:
  "IndexToStart (anonymous m) = IndexToStart m" "StartReason (anonymous m) = StartReason m"
  "Priority (anonymous m) = Priority m" "SendOn (anonymous m) = SendOn m"
  "KeepAlive (anonymous m) = KeepAlive m" "AppGuid (anonymous m) = AppGuid m"
  "AppVersion (anonymous m) = AppVersion m" "SentOn (anonymous m) = SentOn m"
  "SkipVerification (anonymous m) = SkipVerification m"
  by (simp_all add: anonymous_def)

lemma message_keys [simp]:
  "PendingStartMessage_StoreKey (missing_message a p i g) = start_key a i"
  "PendingStartMessage_StoreKey (crashed_message rt a p i g) = start_key a i"
  "PendingStartMessage_StoreKey (evacuating_message a i g) = start_key a i"
  "PendingStopMessage_StoreKey (stop_message a d h r g) = hb_InstanceGuid h"
  by (simp_all add: PendingStartMessage_StoreKey_def PendingStopMessage_StoreKey_def start_key_def
      missing_message_def crashed_message_def evacuating_message_def stop_message_def)

lemma draw_views [simp]:
  "start_view (draw s) = start_view s" "an_startMessages (draw s) = an_startMessages s"
  "an_stopMessages (draw s) = an_stopMessages s" "an_crashCounts (draw s) = an_crashCounts s"
  by (simp_all add: draw_def start_view_def fun_eq_iff)

lemma appendStart_view [analysis_views]:
  "start_view (snd (appendStartMessageIfNotDuplicate a m s)) =
     (if map_of (az_existingPendingStartMessages a) (PendingStartMessage_StoreKey m) = None
      then (start_view s)(PendingStartMessage_StoreKey m \<mapsto> anonymous m) else start_view s)"
  by (auto simp: appendStartMessageIfNotDuplicate_def start_view_def fun_eq_iff split: option.split)

lemma stop_step_start_view [simp]:
  "start_view (stop_step rt a d r h s) = start_view s"
  "an_startMessages (stop_step rt a d r h s) = an_startMessages s"
  "an_crashCounts (stop_step rt a d r h s) = an_crashCounts s"
  by (simp_all add: stop_step_def appendStopMessageIfNotDuplicate_def start_view_def draw_def
      fun_eq_iff split: option.split)

lemma addStopMessages_start_view [simp]:
  "start_view (addStopMessages rt a i r s) = start_view s"
  "an_startMessages (addStopMessages rt a i r s) = an_startMessages s"
  "an_crashCounts (addStopMessages rt a i r s) = an_crashCounts s"
proof -
  have "start_view (fold (stop_step rt a 0 r) hs s) = start_view s"
    and "an_startMessages (fold (stop_step rt a 0 r) hs s) = an_startMessages s"
    and "an_crashCounts (fold (stop_step rt a 0 r) hs s) = an_crashCounts s" for hs
    by (induction hs arbitrary: s) simp_all
  then show "start_view (addStopMessages rt a i r s) = start_view s"
    and "an_startMessages (addStopMessages rt a i r s) = an_startMessages s"
    and "an_crashCounts (addStopMessages rt a i r s) = an_crashCounts s"
    by (simp_all add: addStopMessages_def)
qed

subsection \<open>Start messages\<close>

definition starts_missing :: "appAnalyzer \<Rightarrow> int \<Rightarrow> bool" where
  "starts_missing a i \<longleftrightarrow>
     IsStaged (az_app a) \<and> 0 \<le> i \<and> IsIndexDesired (az_app a) i \<and> is_missing a i"

definition starts_crashed :: "appAnalyzer \<Rightarrow> int \<Rightarrow> bool" where
  "starts_crashed a i \<longleftrightarrow>
     IsStaged (az_app a) \<and> 0 \<le> i \<and> IsIndexDesired (az_app a) i \<and> is_restartable a i"

definition starts_evacuating :: "appAnalyzer \<Rightarrow> int \<Rightarrow> bool" where
  "starts_evacuating a i \<longleftrightarrow>
     HasEvacuatingInstanceAtIndex (az_app a) i \<and> IsIndexDesired (az_app a) i
   \<and> \<not> HasStartingOrRunningInstanceAtIndex (az_app a) i"

text \<open>The message expected for an index, its id left out.\<close>

definition expected_start :: "runtime \<Rightarrow> appAnalyzer \<Rightarrow> int \<Rightarrow> PendingStartMessage option" where
  "expected_start rt a i =
     (let priority = computePendingStartMessagePriority a in
      if start_queued a i then None
      else if starts_evacuating a i then Some (evacuating_message a i '''')
      else if starts_crashed a i then Some (crashed_message rt a priority i '''')
      else if starts_missing a i then Some (missing_message a priority i '''')
      else None)"

lemma missing_step_view [analysis_views]:
  "start_view (missing_step rt a p i s) =
     (if is_missing a i \<and> \<not> start_queued a i
      then (start_view s)(start_key a i \<mapsto> missing_message a p i '''') else start_view s)"
  by (simp add: missing_step_def appendStart_view start_queued_def)

lemma crashed_step_view [analysis_views]:
  "start_view (crashed_step rt a p i s) =
     (if is_restartable a i \<and> \<not> start_queued a i
      then (start_view s)(start_key a i \<mapsto> crashed_message rt a p i '''') else start_view s)"
  by (auto simp: crashed_step_def appendStartMessageIfNotDuplicate_def start_queued_def
      start_view_def Let_def draw_def fun_eq_iff split: option.split)

lemma evacuating_step_view [analysis_views]:
  "start_view (evacuating_step rt a i s) =
     (if starts_evacuating a i \<and> \<not> start_queued a i
      then (start_view s)(start_key a i \<mapsto> evacuating_message a i '''') else start_view s)"
  by (auto simp: evacuating_step_def appendStart_view start_queued_def Let_def
      starts_evacuating_def HasEvacuatingInstanceAtIndex_def HasStartingOrRunning_split)

lemma missing_view:
  "start_view (generatePendingStartsForMissingInstances rt a p s) (start_key a i) =
     (if starts_missing a i \<and> \<not> start_queued a i then Some (missing_message a p i '''')
      else start_view s (start_key a i))"
proof (cases "IsStaged (az_app a) \<and> i \<in> set (desired_indices (az_app a))")
  case True
  then show ?thesis
    using fold_view_in [where V = start_view and f = "missing_step rt a p" and k = "start_key a"
        and P = "\<lambda>i. is_missing a i \<and> \<not> start_queued a i"
        and m = "\<lambda>i. missing_message a p i ''''" and xs = "desired_indices (az_app a)"]
    by (auto simp: generatePendingStartsForMissingInstances_def starts_missing_def analysis_views
        distinct_map inj_start_key)
next
  case False
  then show ?thesis
    using fold_view_out [where V = start_view and f = "missing_step rt a p" and k = "start_key a"
        and P = "\<lambda>i. is_missing a i \<and> \<not> start_queued a i"
        and m = "\<lambda>i. missing_message a p i ''''" and xs = "desired_indices (az_app a)"
        and y = "start_key a i"]
    by (auto simp: generatePendingStartsForMissingInstances_def starts_missing_def analysis_views
        image_iff)
qed

lemma crashed_view:
  "start_view (generatePendingStartsForCrashedInstances rt a p s) (start_key a i) =
     (if starts_crashed a i \<and> \<not> start_queued a i then Some (crashed_message rt a p i '''')
      else start_view s (start_key a i))"
proof (cases "IsStaged (az_app a) \<and> i \<in> set (desired_indices (az_app a))")
  case True
  then show ?thesis
    using fold_view_in [where V = start_view and f = "crashed_step rt a p" and k = "start_key a"
        and P = "\<lambda>i. is_restartable a i \<and> \<not> start_queued a i"
        and m = "\<lambda>i. crashed_message rt a p i ''''" and xs = "desired_indices (az_app a)"]
    by (auto simp: generatePendingStartsForCrashedInstances_def starts_crashed_def analysis_views
        distinct_map inj_start_key)
next
  case False
  then show ?thesis
    using fold_view_out [where V = start_view and f = "crashed_step rt a p" and k = "start_key a"
        and P = "\<lambda>i. is_restartable a i \<and> \<not> start_queued a i"
        and m = "\<lambda>i. crashed_message rt a p i ''''" and xs = "desired_indices (az_app a)"
        and y = "start_key a i"]
    by (auto simp: generatePendingStartsForCrashedInstances_def starts_crashed_def analysis_views
        image_iff)
qed

lemma starts_evacuating_index:
  "starts_evacuating a i \<Longrightarrow> i \<in> fst ` set (HeartbeatsByIndex (az_app a))"
  by (auto simp: starts_evacuating_def HasEvacuatingInstanceAtIndex_iff keys_HeartbeatsByIndex)

lemma evacuating_view:
  "start_view (generatePendingStartsAndStopsForEvacuatingInstances rt a s) (start_key a i) =
     (if starts_evacuating a i \<and> \<not> start_queued a i then Some (evacuating_message a i '''')
      else start_view s (start_key a i))"
proof -
  let ?xs = "go_range (rt_range rt) (map fst (HeartbeatsByIndex (az_app a)))"
  have d: "distinct (map (start_key a) ?xs)"
    using gomap_ok_HeartbeatsByIndex [of "az_app a"] by (simp add: gomap_ok_def distinct_map inj_start_key)
  show ?thesis
  proof (cases "i \<in> set ?xs")
    case True
    then show ?thesis
      using fold_view_in [where V = start_view and f = "evacuating_step rt a" and k = "start_key a"
          and P = "\<lambda>i. starts_evacuating a i \<and> \<not> start_queued a i"
          and m = "\<lambda>i. evacuating_message a i ''''" and xs = ?xs, OF _ d]
      by (simp add: generatePendingStartsAndStopsForEvacuatingInstances_def analysis_views)
  next
    case False
    then show ?thesis
      using starts_evacuating_index fold_view_out [where V = start_view and f = "evacuating_step rt a"
          and k = "start_key a" and P = "\<lambda>i. starts_evacuating a i \<and> \<not> start_queued a i"
          and m = "\<lambda>i. evacuating_message a i ''''" and xs = ?xs and y = "start_key a i" and s = s]
      by (auto simp: generatePendingStartsAndStopsForEvacuatingInstances_def analysis_views image_iff)
  qed
qed

lemma new_analysis_view [simp]: "start_view (new_analysis n) k = None"
  by (simp add: start_view_def new_analysis_def)

lemma starts_phase_view:
  "start_view (starts_phase rt a (new_analysis n)) (start_key a i) = expected_start rt a i"
  by (simp add: starts_phase_def Let_def evacuating_view crashed_view missing_view
      expected_start_def)

text \<open>No other key is written.\<close>

lemma start_view_other_keys:
  assumes "y \<notin> range (start_key a)"
  shows "start_view (starts_phase rt a s) y = start_view s y"
proof -
  have out: "y \<notin> start_key a ` X" for X using assms by auto
  have m: "start_view (generatePendingStartsForMissingInstances rt a p s) y = start_view s y" for p s
    unfolding generatePendingStartsForMissingInstances_def
    using fold_view_out [where V = start_view and f = "missing_step rt a p", OF _ out]
    by (auto simp: missing_step_view)
  have c: "start_view (generatePendingStartsForCrashedInstances rt a p s) y = start_view s y" for p s
    unfolding generatePendingStartsForCrashedInstances_def
    using fold_view_out [where V = start_view and f = "crashed_step rt a p", OF _ out]
    by (auto simp: crashed_step_view)
  have e: "start_view (generatePendingStartsAndStopsForEvacuatingInstances rt a s) y = start_view s y" for s
    unfolding generatePendingStartsAndStopsForEvacuatingInstances_def
    by (rule fold_view_out [where f = "evacuating_step rt a", OF evacuating_step_view out])
  show ?thesis by (simp add: starts_phase_def Let_def e c m)
qed

subsection \<open>The stop phases leave the starts alone\<close>

lemma fold_keeps: "(\<And>x s. g (f x s) = g s) \<Longrightarrow> g (fold f xs s) = g s"
  by (induction xs arbitrary: s) simp_all

lemma duplicate_step_starts [simp]:
  "an_startMessages (duplicate_step rt a p s) = an_startMessages s"
  "an_crashCounts (duplicate_step rt a p s) = an_crashCounts s"
  by (simp_all add: duplicate_step_def split: prod.split)

lemma duplicates_at_starts [simp]:
  "an_startMessages (duplicates_at rt a i s) = an_startMessages s"
  "an_crashCounts (duplicates_at rt a i s) = an_crashCounts s"
  by (simp_all add: duplicates_at_def Let_def fold_keeps [where g = an_startMessages]
      fold_keeps [where g = an_crashCounts])

lemma stop_phases_starts [simp]:
  "an_startMessages (generatePendingStopsForDuplicateInstances rt a s) = an_startMessages s"
  "an_startMessages (generatePendingStopsForExtraInstances rt a s) = an_startMessages s"
  "an_crashCounts (generatePendingStopsForDuplicateInstances rt a s) = an_crashCounts s"
  "an_crashCounts (generatePendingStopsForExtraInstances rt a s) = an_crashCounts s"
  by (simp_all add: generatePendingStopsForDuplicateInstances_def
      generatePendingStopsForExtraInstances_def fold_keeps [where g = an_startMessages]
      fold_keeps [where g = an_crashCounts])

lemma analyzeApp_starts:
  "an_startMessages (analyzeApp rt a s) = an_startMessages (starts_phase rt a s)"
  "an_crashCounts (analyzeApp rt a s) = an_crashCounts (starts_phase rt a s)"
  by (simp_all add: analyzeApp_def Let_def)

lemma analyzeApp_view: "start_view (analyzeApp rt a s) = start_view (starts_phase rt a s)"
  by (simp add: start_view_def fun_eq_iff analyzeApp_starts)

lemma analyzeApp_expected:
  "start_view (analyzeApp rt a (new_analysis n)) (start_key a i) = expected_start rt a i"
  by (simp add: analyzeApp_view starts_phase_view)

lemma analyzeApp_start_cases:
  assumes "map_of (an_startMessages (analyzeApp rt a (new_analysis n))) k = Some m"
  obtains i where "k = start_key a i" and "expected_start rt a i = Some (anonymous m)"
proof -
  have v: "start_view (analyzeApp rt a (new_analysis n)) k = Some (anonymous m)"
    using assms by (simp add: start_view_def)
  then have "start_view (starts_phase rt a (new_analysis n)) k \<noteq> None"
    by (simp add: analyzeApp_view)
  then have "k \<in> range (start_key a)"
    using start_view_other_keys new_analysis_view by metis
  then obtain i where "k = start_key a i" by blast
  then show ?thesis using v that by (simp add: analyzeApp_expected)
qed

lemma expected_start_message:
  assumes "expected_start rt a i = Some m"
  shows "IndexToStart m = i" and "\<not> start_queued a i" and "IsIndexDesired (az_app a) i"
    and "\<not> HasStartingOrRunningInstanceAtIndex (az_app a) i"
    and "AppGuid m = app_AppGuid (az_app a)" and "AppVersion m = app_AppVersion (az_app a)"
    and "SentOn m = 0" and "\<not> SkipVerification m"
  using assms
  by (auto simp: expected_start_def Let_def evacuating_message_def crashed_message_def
      missing_message_def starts_evacuating_def starts_crashed_def starts_missing_def
      is_missing_def is_restartable_def split: if_splits)

lemma priority_bounds:
  assumes "0 \<le> i" and "IsIndexDesired (az_app a) i"
    and "\<not> HasStartingOrRunningInstanceAtIndex (az_app a) i"
  shows "\<exists>p. computePendingStartMessagePriority a = Num p \<and> 0 < p \<and> p \<le> 1"
proof -
  let ?n = "NumberOfDesiredInstances (az_app a)"
  let ?k = "NumberOfDesiredIndicesWithAStartingOrRunningInstance (az_app a)"
  have k: "?k < ?n" "0 \<le> ?k" and n: "0 < ?n"
    using some_index_missing [OF assms] NumberOfDesiredIndicesWithAStartingOrRunningInstance_bounds(1)
      assms by (auto simp: IsIndexDesired_def)
  have "(0::rat) < of_int ?n" using n by simp
  moreover have "(0::rat) < of_int (?n - ?k)" using k by simp
  moreover have "(of_int (?n - ?k) :: rat) \<le> of_int ?n" using k by (simp only: of_int_le_iff)
  ultimately have "0 < (of_int (?n - ?k) :: rat) / of_int ?n" "(of_int (?n - ?k) :: rat) / of_int ?n \<le> 1"
    by (simp_all only: zero_less_divide_iff divide_le_eq_1_pos) simp_all
  then show ?thesis using n by (simp add: computePendingStartMessagePriority_def float_ratio_def)
qed

lemma expected_start_priority:
  assumes "expected_start rt a i = Some m"
  shows "if StartReason m = PendingStartMessageReasonEvacuating then Priority m = Num 2
         else \<exists>p. Priority m = Num p \<and> 0 < p \<and> p \<le> 1"
proof -
  consider "m = evacuating_message a i ''''"
    | "starts_crashed a i" "m = crashed_message rt a (computePendingStartMessagePriority a) i ''''"
    | "starts_missing a i" "m = missing_message a (computePendingStartMessagePriority a) i ''''"
    using assms by (auto simp: expected_start_def Let_def split: if_splits)
  then show ?thesis
  proof cases
    case 1
    then show ?thesis by (simp add: evacuating_message_def)
  next
    case 2
    then show ?thesis
      using priority_bounds [of i a]
      by (simp add: starts_crashed_def is_restartable_def crashed_message_def reason_defs)
  next
    case 3
    then show ?thesis
      using priority_bounds [of i a]
      by (simp add: starts_missing_def is_missing_def missing_message_def reason_defs)
  qed
qed

text \<open>A queued start, as the caller of the analysis sees it.\<close>

lemma queued_start_sound:
  assumes "map_of (an_startMessages (analyzeApp rt a (new_analysis n))) k = Some m"
  shows "k = PendingStartMessage_StoreKey m \<and> map_of (az_existingPendingStartMessages a) k = None
     \<and> AppGuid m = app_AppGuid (az_app a) \<and> AppVersion m = app_AppVersion (az_app a)
     \<and> IsIndexDesired (az_app a) (IndexToStart m)
     \<and> \<not> HasStartingOrRunningInstanceAtIndex (az_app a) (IndexToStart m)
     \<and> SentOn m = 0 \<and> \<not> SkipVerification m
     \<and> (if StartReason m = PendingStartMessageReasonEvacuating then Priority m = Num 2
        else \<exists>p. Priority m = Num p \<and> 0 < p \<and> p \<le> 1)"
proof -
  obtain i where k: "k = start_key a i" and e: "expected_start rt a i = Some (anonymous m)"
    using assms by (rule analyzeApp_start_cases)
  note facts = expected_start_message [OF e] expected_start_priority [OF e]
  have "AppGuid m = app_AppGuid (az_app a)" "AppVersion m = app_AppVersion (az_app a)"
      "SentOn m = 0" "\<not> SkipVerification m" "IndexToStart m = i"
    using facts by (simp_all add: anonymous_def)
  with facts k show ?thesis
    by (auto simp: PendingStartMessage_StoreKey_def start_key_def start_queued_def split: if_splits)
qed

subsection \<open>Crash counts\<close>

lemma missing_step_counts [simp]: "an_crashCounts (missing_step rt a p i s) = an_crashCounts s"
  by (simp add: missing_step_def appendStartMessageIfNotDuplicate_def split: option.split)

lemma crashed_step_counts:
  "an_crashCounts (crashed_step rt a p i s) = an_crashCounts s @
     (if is_restartable a i \<and> \<not> start_queued a i
      then [one_more_crash (CrashCountAtIndex (az_app a) i (az_currentTime a))] else [])"
  by (auto simp: crashed_step_def appendStartMessageIfNotDuplicate_def start_queued_def Let_def
      split: option.split)

lemma evacuating_step_counts [simp]: "an_crashCounts (evacuating_step rt a i s) = an_crashCounts s"
  by (simp add: evacuating_step_def appendStartMessageIfNotDuplicate_def Let_def split: option.split)

lemma fold_crashed_counts:
  "an_crashCounts (fold (crashed_step rt a p) js s) = an_crashCounts s @
     map (\<lambda>i. one_more_crash (CrashCountAtIndex (az_app a) i (az_currentTime a)))
       (filter (\<lambda>i. is_restartable a i \<and> \<not> start_queued a i) js)"
  by (induction js arbitrary: s) (simp_all add: crashed_step_counts)

lemma analyzeApp_counts:
  "an_crashCounts (analyzeApp rt a (new_analysis n)) =
     map (\<lambda>i. one_more_crash (CrashCountAtIndex (az_app a) i (az_currentTime a)))
       (filter (\<lambda>i. starts_crashed a i \<and> \<not> start_queued a i) (desired_indices (az_app a)))"
proof -
  have e: "an_crashCounts (generatePendingStartsAndStopsForEvacuatingInstances rt a s) = an_crashCounts s"
    for s by (simp add: generatePendingStartsAndStopsForEvacuatingInstances_def
        fold_keeps [where g = an_crashCounts])
  have m: "an_crashCounts (generatePendingStartsForMissingInstances rt a p s) = an_crashCounts s"
    for p s by (simp add: generatePendingStartsForMissingInstances_def
        fold_keeps [where g = an_crashCounts])
  have f: "filter (\<lambda>i. starts_crashed a i \<and> \<not> start_queued a i) (desired_indices (az_app a)) =
      (if IsStaged (az_app a)
       then filter (\<lambda>i. is_restartable a i \<and> \<not> start_queued a i) (desired_indices (az_app a)) else [])"
    by (auto simp: starts_crashed_def intro!: filter_cong)
  show ?thesis
    unfolding f
    by (simp add: analyzeApp_starts starts_phase_def Let_def e m new_analysis_def
        generatePendingStartsForCrashedInstances_def fold_crashed_counts)
qed

subsection \<open>Stop messages\<close>

definition stops_all :: "appAnalyzer \<Rightarrow> (PendingStopMessage \<Rightarrow> bool) \<Rightarrow> analysis \<Rightarrow> bool" where
  "stops_all a Q s \<longleftrightarrow>
     (\<forall>k m. map_of (an_stopMessages s) k = Some m \<longrightarrow> k = InstanceGuid m \<and> \<not> stop_queued a k \<and> Q m)"

lemma stop_message_simps [simp]:
  "InstanceGuid (stop_message a d h r g) = hb_InstanceGuid h"
  "StopReason (stop_message a d h r g) = r"
  "SendOn (stop_message a d h r g) = Unix (time_Add (az_currentTime a) (dur_mult d second))"
  "KeepAlive (stop_message a d h r g) = GracePeriod (az_conf a)"
  "AppGuid (stop_message a d h r g) = app_AppGuid (az_app a)"
  "AppVersion (stop_message a d h r g) = app_AppVersion (az_app a)"
  "SentOn (stop_message a d h r g) = 0"
  by (simp_all add: stop_message_def)

lemma stop_step_stops [analysis_views]:
  "map_of (an_stopMessages (stop_step rt a d r h s)) =
     (if stop_queued a (hb_InstanceGuid h) then map_of (an_stopMessages s)
      else (map_of (an_stopMessages s))(hb_InstanceGuid h \<mapsto> stop_message a d h r (next_guid rt s)))"
  by (auto simp: stop_step_def appendStopMessageIfNotDuplicate_def stop_queued_def split: option.split)

lemma stops_all_step:
  assumes "\<And>g. Q (stop_message a d h r g)" and "stops_all a Q s"
  shows "stops_all a Q (stop_step rt a d r h s)"
  using assms by (auto simp: stops_all_def stop_step_stops split: if_splits)

lemma stops_all_fold_step:
  assumes "\<And>h g. h \<in> set hs \<Longrightarrow> Q (stop_message a d h r g)" and "stops_all a Q s"
  shows "stops_all a Q (fold (stop_step rt a d r) hs s)"
  using assms by (intro fold_invariant_set [where P = "stops_all a Q"]) (auto intro: stops_all_step)

lemma stops_all_cong: "an_stopMessages s = an_stopMessages t \<Longrightarrow> stops_all a Q s = stops_all a Q t"
  by (simp add: stops_all_def)

lemma stops_all_draw [simp]: "stops_all a Q (draw s) = stops_all a Q s"
  by (rule stops_all_cong) simp

text \<open>A queued stop is justified by the heartbeat of the instance it names.\<close>

definition extra_justified :: "appAnalyzer \<Rightarrow> PendingStopMessage \<Rightarrow> InstanceHeartbeat \<Rightarrow> bool" where
  "extra_justified a m h \<longleftrightarrow>
     StopReason m = PendingStopMessageReasonExtra \<and> \<not> IsIndexDesired (az_app a) (hb_InstanceIndex h)
   \<and> IsStartingOrRunning h"

definition duplicate_justified :: "appAnalyzer \<Rightarrow> PendingStopMessage \<Rightarrow> InstanceHeartbeat \<Rightarrow> bool" where
  "duplicate_justified a m h \<longleftrightarrow>
     StopReason m = PendingStopMessageReasonDuplicate \<and> IsIndexDesired (az_app a) (hb_InstanceIndex h)
   \<and> IsStartingOrRunning h
   \<and> 1 < length (StartingOrRunningInstancesAtIndex (az_app a) (hb_InstanceIndex h))"

definition evacuation_justified :: "appAnalyzer \<Rightarrow> PendingStopMessage \<Rightarrow> InstanceHeartbeat \<Rightarrow> bool" where
  "evacuation_justified a m h \<longleftrightarrow>
     IsEvacuating h
   \<and> (if IsIndexDesired (az_app a) (hb_InstanceIndex h)
      then StopReason m = PendingStopMessageReasonEvacuationComplete
         \<and> (\<not> IsStaged (az_app a) \<or> HasRunningInstanceAtIndex (az_app a) (hb_InstanceIndex h)
            \<or> 0 < cc_CrashCount (CrashCountAtIndex (az_app a) (hb_InstanceIndex h) (az_currentTime a)))
      else StopReason m = PendingStopMessageReasonExtra)"

definition named_by :: "appAnalyzer \<Rightarrow> PendingStopMessage \<Rightarrow> (InstanceHeartbeat \<Rightarrow> bool) \<Rightarrow> bool" where
  "named_by a m P \<longleftrightarrow>
     AppGuid m = app_AppGuid (az_app a) \<and> AppVersion m = app_AppVersion (az_app a)
   \<and> (\<exists>h\<in>set (app_InstanceHeartbeats (az_app a)). hb_InstanceGuid h = InstanceGuid m \<and> P h)"

lemma named_byI:
  "AppGuid m = app_AppGuid (az_app a) \<Longrightarrow> AppVersion m = app_AppVersion (az_app a)
   \<Longrightarrow> h \<in> set (app_InstanceHeartbeats (az_app a)) \<Longrightarrow> hb_InstanceGuid h = InstanceGuid m \<Longrightarrow> P h
   \<Longrightarrow> named_by a m P"
  by (auto simp: named_by_def)

lemma stops_evacuating_step:
  assumes "stops_all a (\<lambda>m. named_by a m (evacuation_justified a m)) s"
  shows "stops_all a (\<lambda>m. named_by a m (evacuation_justified a m)) (evacuating_step rt a i s)"
proof -
  let ?Q = "\<lambda>m. named_by a m (evacuation_justified a m)"
  let ?app = "az_app a"
  have add: "stops_all a ?Q (addStopMessages rt a i r t)"
    if "\<And>h g. h \<in> set (EvacuatingInstancesAtIndex ?app i) \<Longrightarrow>
          evacuation_justified a (stop_message a 0 h r g) h"
      and "stops_all a ?Q t" for r t
    unfolding addStopMessages_def
    by (rule stops_all_fold_step [OF _ that(2)])
      (auto intro!: named_byI that(1) simp: EvacuatingInstancesAtIndex_def)
  have ev: "IsEvacuating h \<and> hb_InstanceIndex h = i"
    if "h \<in> set (EvacuatingInstancesAtIndex ?app i)" for h
    using that by (simp add: EvacuatingInstancesAtIndex_def)
  have compl: "stops_all a ?Q (addStopMessages rt a i PendingStopMessageReasonEvacuationComplete t)"
    if "IsIndexDesired ?app i" and "stops_all a ?Q t"
      and "\<not> IsStaged ?app \<or> HasRunningInstanceAtIndex ?app i
           \<or> 0 < cc_CrashCount (CrashCountAtIndex ?app i (az_currentTime a))" for t
    using that by (intro add) (auto simp: evacuation_justified_def dest: ev)
  have extra: "stops_all a ?Q (addStopMessages rt a i PendingStopMessageReasonExtra t)"
    if "\<not> IsIndexDesired ?app i" and "stops_all a ?Q t" for t
    using that by (intro add) (auto simp: evacuation_justified_def dest: ev)
  have app: "stops_all a ?Q (snd (appendStartMessageIfNotDuplicate a m t)) = stops_all a ?Q t" for m t
    by (rule stops_all_cong) (simp add: appendStartMessageIfNotDuplicate_def split: option.split)
  show ?thesis
    using assms by (auto simp: evacuating_step_def Let_def app intro!: compl extra)
qed

lemma stops_starts_phase:
  "stops_all a (\<lambda>m. named_by a m (evacuation_justified a m)) (starts_phase rt a (new_analysis n))"
proof -
  let ?Q = "\<lambda>m. named_by a m (evacuation_justified a m)"
  have m: "an_stopMessages (generatePendingStartsForMissingInstances rt a p s) = an_stopMessages s" for p s
    by (simp add: generatePendingStartsForMissingInstances_def fold_keeps [where g = an_stopMessages]
        missing_step_def appendStartMessageIfNotDuplicate_def split: option.split)
  have c: "an_stopMessages (generatePendingStartsForCrashedInstances rt a p s) = an_stopMessages s" for p s
    by (simp add: generatePendingStartsForCrashedInstances_def fold_keeps [where g = an_stopMessages]
        crashed_step_def appendStartMessageIfNotDuplicate_def Let_def split: option.split)
  have "stops_all a ?Q (new_analysis n)" by (simp add: stops_all_def new_analysis_def)
  then have "stops_all a ?Q (generatePendingStartsForCrashedInstances rt a p
      (generatePendingStartsForMissingInstances rt a p (new_analysis n)))" for p
    using stops_all_cong [OF trans [OF c m]] by blast
  then show ?thesis
    unfolding starts_phase_def generatePendingStartsAndStopsForEvacuatingInstances_def Let_def
    by (intro fold_invariant_set [where P = "stops_all a ?Q"]) (auto intro: stops_evacuating_step)
qed

lemma stops_all_mono: "stops_all a Q s \<Longrightarrow> (\<And>m. Q m \<Longrightarrow> R m) \<Longrightarrow> stops_all a R s"
  by (auto simp: stops_all_def)

definition stop_justified :: "appAnalyzer \<Rightarrow> PendingStopMessage \<Rightarrow> bool" where
  "stop_justified a m \<longleftrightarrow> named_by a m (\<lambda>h.
     extra_justified a m h \<or> duplicate_justified a m h \<or> evacuation_justified a m h)"

lemma StartingOrRunningInstancesAtIndex_mem:
  assumes "app_ok a"
  shows "h \<in> set (StartingOrRunningInstancesAtIndex a i) \<longleftrightarrow>
     h \<in> set (app_InstanceHeartbeats a) \<and> hb_InstanceIndex h = i \<and> IsStartingOrRunning h"
  using assms by (auto simp: StartingOrRunningInstancesAtIndex_def InstanceHeartbeatsAtIndex_eq)

lemma stops_extra_phase:
  assumes "stops_all a (stop_justified a) s"
  shows "stops_all a (stop_justified a) (generatePendingStopsForExtraInstances rt a s)"
  unfolding generatePendingStopsForExtraInstances_def
  by (rule stops_all_fold_step [OF _ assms])
    (auto simp: ExtraStartingOrRunningInstances_def stop_justified_def extra_justified_def
      intro!: named_byI)

lemma set_enumerate_snd: "(j, h) \<in> set (enumerate n xs) \<Longrightarrow> h \<in> set xs"
  by (metis enumerate_eq_zip set_zip_rightD)

lemma stops_duplicates_at:
  assumes "app_ok (az_app a)" and "stops_all a (stop_justified a) s" and "IsIndexDesired (az_app a) i"
  shows "stops_all a (stop_justified a) (duplicates_at rt a i s)"
proof -
  let ?xs = "enumerate 0 (StartingOrRunningInstancesAtIndex (az_app a) i)"
  have "stops_all a (stop_justified a) (fold (duplicate_step rt a) ?xs s)"
    if "1 < length (StartingOrRunningInstancesAtIndex (az_app a) i)"
  proof (rule fold_invariant_set [where P = "stops_all a (stop_justified a)"])
    show "stops_all a (stop_justified a) s" by (rule assms)
  next
    fix p s assume p: "p \<in> set ?xs" and s: "stops_all a (stop_justified a) s"
    obtain j h where jh: "p = (j, h)" by (cases p)
    then have h: "h \<in> set (StartingOrRunningInstancesAtIndex (az_app a) i)"
      using p set_enumerate_snd by metis
    then have "stop_justified a (stop_message a d h PendingStopMessageReasonDuplicate g)" for d g
      using that assms(3) StartingOrRunningInstancesAtIndex_mem [OF assms(1)]
      by (auto simp: stop_justified_def duplicate_justified_def intro!: named_byI)
    then show "stops_all a (stop_justified a) (duplicate_step rt a p s)"
      unfolding jh duplicate_step_def prod.case using s by (rule stops_all_step)
  qed
  then show ?thesis using assms by (simp add: duplicates_at_def Let_def)
qed

lemma analyzeApp_stops:
  assumes "app_ok (az_app a)"
  shows "stops_all a (stop_justified a) (analyzeApp rt a (new_analysis n))"
    and "an_startMessages (analyzeApp rt a (new_analysis n)) \<noteq> [] \<Longrightarrow>
      stops_all a (\<lambda>m. named_by a m (evacuation_justified a m)) (analyzeApp rt a (new_analysis n))"
proof -
  let ?s = "starts_phase rt a (new_analysis n)"
  have e: "stops_all a (\<lambda>m. named_by a m (evacuation_justified a m)) ?s"
    by (rule stops_starts_phase)
  then have j: "stops_all a (stop_justified a) ?s"
    by (rule stops_all_mono) (auto simp: stop_justified_def named_by_def)
  show "stops_all a (\<lambda>m. named_by a m (evacuation_justified a m)) (analyzeApp rt a (new_analysis n))"
    if "an_startMessages (analyzeApp rt a (new_analysis n)) \<noteq> []"
    using that e by (simp add: analyzeApp_starts) (simp add: analyzeApp_def Let_def)
  have d: "stops_all a (stop_justified a) (generatePendingStopsForDuplicateInstances rt a t)"
    if "stops_all a (stop_justified a) t" for t
    unfolding generatePendingStopsForDuplicateInstances_def
    by (rule fold_invariant_set [where P = "stops_all a (stop_justified a)", OF that])
      (auto intro: stops_duplicates_at [OF assms])
  show "stops_all a (stop_justified a) (analyzeApp rt a (new_analysis n))"
    using j by (auto simp: analyzeApp_def Let_def intro: d stops_extra_phase)
qed

lemma no_starts_iff:
  "an_startMessages (starts_phase rt a (new_analysis n)) = [] \<longleftrightarrow> (\<forall>i. expected_start rt a i = None)"
proof -
  let ?s = "starts_phase rt a (new_analysis n)"
  have "an_startMessages ?s = [] \<longleftrightarrow> (\<forall>k. start_view ?s k = None)"
  proof
    assume none: "\<forall>k. start_view ?s k = None"
    then show "an_startMessages ?s = []"
    proof (cases "an_startMessages ?s")
      case (Cons x xs)
      then show ?thesis using none by (auto simp: start_view_def dest: spec [where x = "fst x"])
    qed
  qed (simp add: start_view_def)
  also have "\<dots> \<longleftrightarrow> (\<forall>i. start_view ?s (start_key a i) = None)"
    using start_view_other_keys [of _ a rt "new_analysis n"] by (metis new_analysis_view rangeE)
  finally show ?thesis by (simp add: starts_phase_view)
qed

subsection \<open>Which instances are stopped, and when\<close>

definition stop_view :: "analysis \<Rightarrow> string \<Rightarrow> (int \<times> PendingStopMessageReason) option" where
  "stop_view s k = map_option (\<lambda>m. (SendOn m, StopReason m)) (map_of (an_stopMessages s) k)"

lemma stop_step_view [analysis_views]:
  "stop_view (stop_step rt a d r h s) =
     (if stop_queued a (hb_InstanceGuid h) then stop_view s
      else (stop_view s)(hb_InstanceGuid h \<mapsto>
              (Unix (time_Add (az_currentTime a) (dur_mult d second)), r)))"
  by (auto simp: stop_view_def stop_step_stops fun_eq_iff)

lemma stop_view_dom: "k \<in> dom (stop_view s) \<longleftrightarrow> map_of (an_stopMessages s) k \<noteq> None"
  by (auto simp: stop_view_def)

lemma dom_fold_stop_step:
  "dom (stop_view (fold (stop_step rt a d r) hs s)) =
     dom (stop_view s) \<union> {g \<in> hb_InstanceGuid ` set hs. \<not> stop_queued a g}"
  by (induction hs arbitrary: s) (auto simp: stop_step_view)

text \<open>The duplicates of all indices as one list, each with its position among its index's instances.\<close>

definition duplicate_list :: "appAnalyzer \<Rightarrow> (nat \<times> InstanceHeartbeat) list" where
  "duplicate_list a = concat (map
     (\<lambda>i. let instances = StartingOrRunningInstancesAtIndex (az_app a) i
          in if 1 < length instances then enumerate 0 instances else [])
     (desired_indices (az_app a)))"

lemma fold_concat_map: "fold (\<lambda>i. fold f (g i)) is s = fold f (concat (map g is)) s"
  by (induction "is" arbitrary: s) simp_all

lemma duplicates_flat:
  "generatePendingStopsForDuplicateInstances rt a s = fold (duplicate_step rt a) (duplicate_list a) s"
proof -
  have "duplicates_at rt a i = fold (duplicate_step rt a)
      (let instances = StartingOrRunningInstancesAtIndex (az_app a) i
       in if 1 < length instances then enumerate 0 instances else [])" for i
    by (simp add: duplicates_at_def Let_def fun_eq_iff)
  then have "duplicates_at rt a = (\<lambda>i. fold (duplicate_step rt a)
      (let instances = StartingOrRunningInstancesAtIndex (az_app a) i
       in if 1 < length instances then enumerate 0 instances else []))" by (rule ext)
  then show ?thesis
    by (simp only: generatePendingStopsForDuplicateInstances_def duplicate_list_def fold_concat_map)
qed

lemma distinct_concat_map:
  assumes "distinct is" and "\<And>i. distinct (g i)"
    and "\<And>i j. i \<noteq> j \<Longrightarrow> set (g i) \<inter> set (g j) = {}"
  shows "distinct (concat (map g is))"
  using assms(1)
proof (induction "is")
  case (Cons i js)
  have "set (g i) \<inter> set (concat (map g js)) = {}"
    using Cons.prems assms(3) [of i] by fastforce
  then show ?case using Cons assms(2) by simp
qed simp

lemma distinct_duplicate_guids:
  assumes ok: "app_ok (az_app a)"
    and guids: "distinct (map hb_InstanceGuid (app_InstanceHeartbeats (az_app a)))"
  shows "distinct (map (\<lambda>p. hb_InstanceGuid (snd p)) (duplicate_list a))"
proof -
  let ?at = "StartingOrRunningInstancesAtIndex (az_app a)"
  let ?g = "\<lambda>i. if 1 < length (?at i) then ?at i else []"
  have snds: "map snd (duplicate_list a) = concat (map ?g (desired_indices (az_app a)))"
    by (simp add: duplicate_list_def map_concat comp_def Let_def if_distrib [of "map snd"] cong: if_cong)
  have mem: "set (?at i) = {h \<in> set (app_InstanceHeartbeats (az_app a)).
      hb_InstanceIndex h = i \<and> IsStartingOrRunning h}" for i
    using StartingOrRunningInstancesAtIndex_mem [OF ok] by auto
  have d: "distinct (?at i)" for i
    using guids ok by (simp add: StartingOrRunningInstancesAtIndex_def InstanceHeartbeatsAtIndex_eq
        distinct_map)
  have "distinct (concat (map ?g (desired_indices (az_app a))))"
    by (rule distinct_concat_map) (auto simp: d mem)
  moreover have "set (concat (map ?g (desired_indices (az_app a)))) \<subseteq> set (app_InstanceHeartbeats (az_app a))"
    by (auto simp: mem split: if_splits)
  ultimately have "distinct (map hb_InstanceGuid (map snd (duplicate_list a)))"
    using guids unfolding snds by (auto simp: distinct_map intro: inj_on_subset)
  then show ?thesis by (simp add: comp_def)
qed

lemma duplicate_step_view:
  "stop_view (duplicate_step rt a p s) =
     (if \<not> stop_queued a (hb_InstanceGuid (snd p))
      then (stop_view s)(hb_InstanceGuid (snd p) \<mapsto>
        (Unix (time_Add (az_currentTime a) (dur_mult (duplicate_delay a (fst p)) second)),
         PendingStopMessageReasonDuplicate))
      else stop_view s)"
  by (simp add: duplicate_step_def stop_step_view split: prod.split)

lemma duplicate_schedule:
  assumes ok: "app_ok (az_app a)"
    and guids: "distinct (map hb_InstanceGuid (app_InstanceHeartbeats (az_app a)))"
    and i: "0 \<le> i" "IsIndexDesired (az_app a) i"
    and j: "j < length (StartingOrRunningInstancesAtIndex (az_app a) i)"
    and several: "1 < length (StartingOrRunningInstancesAtIndex (az_app a) i)"
    and new: "\<not> stop_queued a (hb_InstanceGuid (StartingOrRunningInstancesAtIndex (az_app a) i ! j))"
  shows "stop_view (generatePendingStopsForDuplicateInstances rt a s)
           (hb_InstanceGuid (StartingOrRunningInstancesAtIndex (az_app a) i ! j)) =
         Some (Unix (time_Add (az_currentTime a) (dur_mult (duplicate_delay a j) second)),
               PendingStopMessageReasonDuplicate)"
proof -
  let ?at = "StartingOrRunningInstancesAtIndex (az_app a) i"
  have "(j, ?at ! j) \<in> set (enumerate 0 ?at)"
    using j by (simp add: in_set_enumerate_eq)
  then have mem: "(j, ?at ! j) \<in> set (duplicate_list a)"
    using i several by (auto simp: duplicate_list_def Let_def intro!: bexI [of _ i])
  show ?thesis
    unfolding duplicates_flat
    using fold_view_in [where V = stop_view and f = "duplicate_step rt a"
        and k = "\<lambda>p. hb_InstanceGuid (snd p)" and x = "(j, ?at ! j)",
        OF duplicate_step_view distinct_duplicate_guids [OF ok guids] mem] new
    by simp
qed

lemma duplicate_delay_sane:
  assumes "config_sane (az_conf a)" and "j < 4000"
  shows "duplicate_delay a j = (4 + int j) * GracePeriod (az_conf a)"
    and "in_int64 (duplicate_delay a j * second)"
proof -
  let ?g = "GracePeriod (az_conf a)"
  have g: "0 \<le> ?g" "?g < 2 ^ 20" using GracePeriod_sane assms(1) by blast+
  have b: "in_int64 (n * ?g)" if "0 \<le> n" "n < 2 ^ 12" for n
    using that g by (intro in_int64_mult_bound [where A = "2 ^ 12" and B = "2 ^ 20"]) simp_all
  have "duplicate_delay a j = wrap64 (int j * ?g + 4 * ?g)"
    using b [of "int j"] b [of 4] assms(2) by (simp add: duplicate_delay_def wrap64_id)
  also have "int j * ?g + 4 * ?g = (4 + int j) * ?g" by (simp add: algebra_simps)
  also have "wrap64 \<dots> = \<dots>" using b [of "4 + int j"] assms(2) by (simp add: wrap64_id)
  finally show d: "duplicate_delay a j = (4 + int j) * ?g" .
  have "(4 + int j) * ?g \<le> 2 ^ 12 * 2 ^ 20" using g assms(2) by (intro mult_mono) simp_all
  then show "in_int64 (duplicate_delay a j * second)"
    unfolding d using g
    by (intro in_int64_mult_bound [where A = "2 ^ 32" and B = second]) (simp_all add: second_def)
qed

lemma duplicate_send_on:
  assumes "config_sane (az_conf a)" and "j < 4000"
  shows "Unix (time_Add t (dur_mult (duplicate_delay a j) second)) =
           Unix t + (4 + int j) * GracePeriod (az_conf a)"
  using duplicate_delay_sane [OF assms] by (simp add: dur_mult_def wrap64_id Unix_Add_seconds)

lemma extra_scheduled:
  assumes "h \<in> set (ExtraStartingOrRunningInstances (az_app a))"
    and "\<not> stop_queued a (hb_InstanceGuid h)"
  shows "hb_InstanceGuid h \<in> dom (stop_view (generatePendingStopsForDuplicateInstances rt a
           (generatePendingStopsForExtraInstances rt a s)))"
proof -
  have "hb_InstanceGuid h \<in> dom (stop_view (generatePendingStopsForExtraInstances rt a s))"
    using assms by (auto simp: generatePendingStopsForExtraInstances_def dom_fold_stop_step)
  then show ?thesis
    unfolding duplicates_flat
    by (intro fold_invariant_set [where P = "\<lambda>s. hb_InstanceGuid h \<in> dom (stop_view s)"])
      (auto simp: duplicate_step_view)
qed

end
