(* ===== verification/Store_Adapter.thy ===== *)
theory Store_Adapter imports Go_Json "HOL-Library.Sublist" begin

text \<open>
  Everything outside the repository that the program calls while it runs: the key-value store
  behind \<open>storeadapter.StoreAdapter\<close> (etcd), the cloud controller that receives start and stop
  messages and serves the desired state over HTTP, the message bus, and the metrics client. They are the fields of the record \<open>externals\<close>,
  functions on an unknown world \<open>'w\<close> that every model function takes as arguments.

  What the program relies on is the locale \<open>kv_adapter\<close>: the documented behaviour of the four
  adapter calls in terms of the entries of the store. Its last part gives an in-memory adapter
  that meets the contract.
\<close>

subsection \<open>Nodes and calls\<close>

datatype store_node =
  StoreNode (sn_Key: string) (sn_Value: bytes) (sn_TTL: "64 word") (sn_Dir: bool)
    (sn_ChildNodes: "store_node list")

datatype store_error = ErrorKeyNotFound | ErrorOther string

text \<open>A request that could not be made at all, and one that got no answer.\<close>

datatype http_error = BadRequestURL string | RequestFailed string

text \<open>
  A POST answers with an error or the status; a GET with the status and the body, whose reading
  can fail as well. The second argument of both is the header \<open>Authorization\<close>.
\<close>

record 'w externals =
  ad_SetMulti :: "store_node list \<Rightarrow> 'w \<Rightarrow> store_error option \<times> 'w"
  ad_Get :: "string \<Rightarrow> 'w \<Rightarrow> (store_error + store_node) \<times> 'w"
  ad_ListRecursively :: "string \<Rightarrow> 'w \<Rightarrow> (store_error + store_node) \<times> 'w"
  ad_Delete :: "string list \<Rightarrow> 'w \<Rightarrow> store_error option \<times> 'w"
  http_post :: "string \<Rightarrow> string \<Rightarrow> bytes \<Rightarrow> 'w \<Rightarrow> (string + nat) \<times> 'w"
  http_get :: "string \<Rightarrow> string \<Rightarrow> 'w \<Rightarrow> (http_error + nat \<times> (string + bytes)) \<times> 'w"
  nats_Publish :: "string \<Rightarrow> bytes \<Rightarrow> 'w \<Rightarrow> string option \<times> 'w"
  metrics_AddToCounter :: "string \<Rightarrow> nat \<Rightarrow> 'w \<Rightarrow> string option \<times> 'w"
  metrics_SendValue :: "string \<Rightarrow> float64 \<Rightarrow> 'w \<Rightarrow> string option \<times> 'w"

text \<open>A store node that holds a value; the program never writes a directory.\<close>

definition leaf_node :: "string \<Rightarrow> bytes \<Rightarrow> 64 word \<Rightarrow> store_node" where
  "leaf_node key val ttl = StoreNode key val ttl False []"

lemma leaf_node_simps [simp]:
  "sn_Key (leaf_node k v t) = k" "sn_Value (leaf_node k v t) = v" "sn_TTL (leaf_node k v t) = t"
  "\<not> sn_Dir (leaf_node k v t)" "sn_ChildNodes (leaf_node k v t) = []"
  by (simp_all add: leaf_node_def)

subsection \<open>Entries of a store\<close>

datatype entry = File bytes | Directory

definition below :: "string \<Rightarrow> string \<Rightarrow> bool" where
  "below d k \<longleftrightarrow> prefix (d @ ''/'') k"

definition child_of :: "string \<Rightarrow> string \<Rightarrow> bool" where
  "child_of d k \<longleftrightarrow> below d k \<and> CHR ''/'' \<notin> set (drop (length d + 1) k)"

definition files :: "(string \<Rightarrow> entry option) \<Rightarrow> string \<Rightarrow> bytes option" where
  "files es k = (case es k of Some (File v) \<Rightarrow> Some v | _ \<Rightarrow> None)"

lemma child_of_iff: "child_of d k \<longleftrightarrow> (\<exists>x. k = d @ ''/'' @ x \<and> CHR ''/'' \<notin> set x)"
  by (auto simp: child_of_def below_def prefix_def)

lemma files_Some_iff [simp]: "files es k = Some v \<longleftrightarrow> es k = Some (File v)"
  by (auto simp: files_def split: option.splits entry.splits)

text \<open>
  A listing of the entries: a file carries its value and no children, a directory exactly the
  entries directly below it, each once and listed in turn.
\<close>

fun listing_ok :: "(string \<Rightarrow> entry option) \<Rightarrow> store_node \<Rightarrow> bool" where
  "listing_ok es (StoreNode k v ttl dir children) \<longleftrightarrow>
     (if dir
      then es k = Some Directory \<and> distinct (map sn_Key children)
         \<and> sn_Key ` set children = {k'. child_of k k' \<and> es k' \<noteq> None}
         \<and> (\<forall>c\<in>set children. listing_ok es c)
      else es k = Some (File v) \<and> children = [])"

lemma listing_children:
  assumes "listing_ok es n" and "sn_Dir n"
  shows "distinct (map sn_Key (sn_ChildNodes n))"
    and "sn_Key ` set (sn_ChildNodes n) = {k. child_of (sn_Key n) k \<and> es k \<noteq> None}"
    and "c \<in> set (sn_ChildNodes n) \<Longrightarrow> listing_ok es c"
  using assms by (cases n; simp)+

lemma listing_file:
  "listing_ok es n \<Longrightarrow> \<not> sn_Dir n \<Longrightarrow> es (sn_Key n) = Some (File (sn_Value n)) \<and> sn_ChildNodes n = []"
  by (cases n) simp

lemma listing_dir: "listing_ok es n \<Longrightarrow> sn_Dir n \<longleftrightarrow> es (sn_Key n) = Some Directory"
  by (cases n) (auto split: if_splits)

text \<open>The adapter answers with canonical keys: a trailing slash of the argument is dropped.\<close>

definition clean_key :: "string \<Rightarrow> string" where
  "clean_key d = (if d \<noteq> [] \<and> last d = CHR ''/'' then butlast d else d)"

lemma clean_key_simps [simp]: "clean_key (d @ ''/'') = d" "d \<noteq> [] \<Longrightarrow> last d \<noteq> CHR ''/'' \<Longrightarrow> clean_key d = d"
  by (simp_all add: clean_key_def)

lemma below_simps [simp]: "below d (d @ CHR ''/'' # x)" "\<not> below d d"
  by (simp_all add: below_def prefix_def)

lemma below_trans: "below a b \<Longrightarrow> below b c \<Longrightarrow> below a c"
  by (auto simp: below_def prefix_def)

lemma below_length: "below a b \<Longrightarrow> length a < length b"
  by (auto simp: below_def prefix_def)

subsection \<open>The contract\<close>

text \<open>
  \<open>SetMulti\<close> writes its nodes in no particular order and creates the directories above them;
  \<open>Delete\<close> removes entries with everything below them; a call that fails may have done a part of its
  work, so that every entry is the old one or the one it was to become. Reading changes nothing.
  Expiry is outside: the contract relates the store just before and just after a call.
\<close>

locale kv_adapter =
  fixes ex :: "'w externals"
    and entries :: "'w \<Rightarrow> string \<Rightarrow> entry option"
  assumes set_multi_ok: "ad_SetMulti ex ns w = (None, w') \<Longrightarrow>
      (\<forall>k. if k \<in> sn_Key ` set ns
           then \<exists>n\<in>set ns. sn_Key n = k \<and> entries w' k = Some (File (sn_Value n))
           else if \<exists>n\<in>set ns. below k (sn_Key n) then entries w' k \<in> {entries w k, Some Directory}
           else entries w' k = entries w k)"
    and set_multi_error: "ad_SetMulti ex ns w = (Some e, w') \<Longrightarrow>
      entries w' k = entries w k
      \<or> (\<exists>n\<in>set ns. sn_Key n = k \<and> entries w' k = Some (File (sn_Value n)))
      \<or> ((\<exists>n\<in>set ns. below k (sn_Key n)) \<and> entries w' k = Some Directory)"
    and delete_ok: "ad_Delete ex ks w = (None, w') \<Longrightarrow>
      entries w' k = (if \<exists>d\<in>set ks. k = d \<or> below d k then None else entries w k)"
    and delete_error: "ad_Delete ex ks w = (Some e, w') \<Longrightarrow>
      entries w' k = entries w k \<or> (entries w' k = None \<and> (\<exists>d\<in>set ks. k = d \<or> below d k))"
    and delete_nothing: "ad_Delete ex [] w = (None, w)"
    and get_ok: "ad_Get ex k w = (Inr n, w') \<Longrightarrow> w' = w \<and> entries w k = Some (File (sn_Value n))"
    and get_error: "ad_Get ex k w = (Inl e, w') \<Longrightarrow>
      w' = w \<and> (e = ErrorKeyNotFound \<longrightarrow> entries w k = None)"
    and list_ok: "ad_ListRecursively ex d w = (Inr n, w') \<Longrightarrow>
      w' = w \<and> sn_Key n = clean_key d \<and> sn_Dir n \<and> listing_ok (entries w) n"
    and list_error: "ad_ListRecursively ex d w = (Inl e, w') \<Longrightarrow>
      w' = w \<and> (e = ErrorKeyNotFound \<longrightarrow> (\<forall>k. below (clean_key d) k \<longrightarrow> entries w k = None))"
begin

lemma get_pure: "ad_Get ex k w = (r, w') \<Longrightarrow> w' = w"
  using get_ok get_error by (cases r) blast+

lemma list_pure: "ad_ListRecursively ex d w = (r, w') \<Longrightarrow> w' = w"
  using list_ok list_error by (cases r) blast+

lemma set_one:
  assumes "ad_SetMulti ex [leaf_node k v ttl] w = (None, w')"
  shows "entries w' k = Some (File v)"
    and "k' \<noteq> k \<Longrightarrow> \<not> below k' k \<Longrightarrow> entries w' k' = entries w k'"
  using set_multi_ok [OF assms, THEN spec, of k] set_multi_ok [OF assms, THEN spec, of k']
  by auto

lemma set_multi_written:
  assumes "ad_SetMulti ex ns w = (None, w')" and "n \<in> set ns" and "distinct (map sn_Key ns)"
  shows "entries w' (sn_Key n) = Some (File (sn_Value n))"
proof -
  obtain m where m: "m \<in> set ns" "sn_Key m = sn_Key n" "entries w' (sn_Key n) = Some (File (sn_Value m))"
    using set_multi_ok [OF assms(1)] assms(2) by (metis image_eqI)
  then have "m = n" using assms by (auto simp: distinct_map inj_on_def)
  then show ?thesis using m by simp
qed

text \<open>Whatever a write answers, an entry is as before, as written, or a directory above a node.\<close>

lemma set_multi_any:
  assumes "ad_SetMulti ex ns w = (r, w')"
  shows "entries w' k = entries w k
    \<or> (\<exists>n\<in>set ns. sn_Key n = k \<and> entries w' k = Some (File (sn_Value n)))
    \<or> ((\<exists>n\<in>set ns. below k (sn_Key n)) \<and> entries w' k = Some Directory)"
proof (cases r)
  case None
  then show ?thesis using set_multi_ok [OF assms [unfolded None], THEN spec, of k] by (auto split: if_splits)
next
  case (Some e)
  then show ?thesis using set_multi_error assms by blast
qed

lemma set_multi_frame:
  assumes "ad_SetMulti ex ns w = (None, w')" and "k \<notin> sn_Key ` set ns"
    and "\<And>n. n \<in> set ns \<Longrightarrow> \<not> below k (sn_Key n)"
  shows "entries w' k = entries w k"
  using set_multi_ok [OF assms(1), THEN spec, of k] assms(2,3) by auto

end

subsection \<open>An adapter in memory\<close>

text \<open>
  The entries, a log of the requests posted with their bodies, the status with which every POST
  is answered, the pages that the next GETs return, and the metrics.
\<close>

record memory =
  mem_entries :: "(string, entry) gomap"
  mem_posts :: "(string \<times> bytes) list"
  mem_status :: nat
  mem_pages :: "(nat \<times> bytes) list"
  mem_counters :: "(string, nat) gomap"
  mem_values :: "(string \<times> float64) list"

text \<open>The directories above a key.\<close>

definition ancestors :: "string \<Rightarrow> string list" where
  "ancestors k = filter (\<lambda>p. below p k) (prefixes k)"

lemma set_ancestors [simp]: "p \<in> set (ancestors k) \<longleftrightarrow> below p k"
  by (auto simp: ancestors_def below_def prefix_def)

fun mem_set :: "store_node list \<Rightarrow> memory \<Rightarrow> store_error option \<times> memory" where
  "mem_set [] w = (None, w)"
| "mem_set (n # ns) w =
     (let es = mem_entries w; k = sn_Key n in
      if map_of es k = Some Directory then (Some (ErrorOther ''directory''), w)
      else if list_ex (\<lambda>p. case map_of es p of Some (File v) \<Rightarrow> True | _ \<Rightarrow> False) (ancestors k)
      then (Some (ErrorOther ''not a directory''), w)
      else mem_set ns (w\<lparr>mem_entries :=
             mput k (File (sn_Value n)) (fold (\<lambda>p. mput p Directory) (ancestors k) es)\<rparr>))"

fun mem_delete :: "string list \<Rightarrow> memory \<Rightarrow> store_error option \<times> memory" where
  "mem_delete [] w = (None, w)"
| "mem_delete (d # ds) w =
     (case map_of (mem_entries w) d of
        None \<Rightarrow> (Some ErrorKeyNotFound, w)
      | Some _ \<Rightarrow> mem_delete ds
          (w\<lparr>mem_entries := filter (\<lambda>(k, e). \<not> (k = d \<or> below d k)) (mem_entries w)\<rparr>))"

definition mem_get :: "string \<Rightarrow> memory \<Rightarrow> (store_error + store_node) \<times> memory" where
  "mem_get k w = (case map_of (mem_entries w) k of
      None \<Rightarrow> (Inl ErrorKeyNotFound, w)
    | Some Directory \<Rightarrow> (Inl (ErrorOther ''directory''), w)
    | Some (File v) \<Rightarrow> (Inr (leaf_node k v 0), w))"

text \<open>The tree below a directory; the fuel bounds its depth.\<close>

fun mem_tree :: "nat \<Rightarrow> (string, entry) gomap \<Rightarrow> string \<Rightarrow> store_node" where
  "mem_tree 0 es k = StoreNode k (Raw []) 0 True []"
| "mem_tree (Suc n) es k =
     (case map_of es k of
        Some (File v) \<Rightarrow> leaf_node k v 0
      | _ \<Rightarrow> StoreNode k (Raw []) 0 True
               (map (mem_tree n es) (remdups (filter (child_of k) (map fst es)))))"

definition mem_list :: "string \<Rightarrow> memory \<Rightarrow> (store_error + store_node) \<times> memory" where
  "mem_list dir w =
     (let es = mem_entries w; d = clean_key dir in
      case map_of es d of
        Some Directory \<Rightarrow> (Inr (mem_tree (Suc (fold max (map (length \<circ> fst) es) 0)) es d), w)
      | Some (File v) \<Rightarrow> (Inl (ErrorOther ''not a directory''), w)
      | None \<Rightarrow> (Inl (if list_ex (below d) (map fst es) then ErrorOther ''orphans''
                       else ErrorKeyNotFound), w))"

definition mem_post :: "string \<Rightarrow> string \<Rightarrow> bytes \<Rightarrow> memory \<Rightarrow> (string + nat) \<times> memory" where
  "mem_post url auth body w = (Inr (mem_status w), w\<lparr>mem_posts := mem_posts w @ [(url, body)]\<rparr>)"

definition mem_get_page :: "string \<Rightarrow> string \<Rightarrow> memory \<Rightarrow> (http_error + nat \<times> (string + bytes)) \<times> memory" where
  "mem_get_page url auth w =
     (case mem_pages w of
        [] \<Rightarrow> (Inl (RequestFailed ''timeout''), w)
      | (status, body) # pages \<Rightarrow> (Inr (status, Inr body), w\<lparr>mem_pages := pages\<rparr>))"

definition mem_count :: "string \<Rightarrow> nat \<Rightarrow> memory \<Rightarrow> string option \<times> memory" where
  "mem_count name n w = (None, w\<lparr>mem_counters :=
     mput name ((case map_of (mem_counters w) name of None \<Rightarrow> 0 | Some v \<Rightarrow> v) + n) (mem_counters w)\<rparr>)"

definition mem_externals :: "memory externals" where
  "mem_externals = \<lparr>ad_SetMulti = mem_set, ad_Get = mem_get, ad_ListRecursively = mem_list,
     ad_Delete = mem_delete, http_post = mem_post, http_get = mem_get_page,
     nats_Publish = (\<lambda>subject body w. (None, w\<lparr>mem_posts := mem_posts w @ [(subject, body)]\<rparr>)),
     metrics_AddToCounter = mem_count,
     metrics_SendValue = (\<lambda>name v w. (None, w\<lparr>mem_values := mem_values w @ [(name, v)]\<rparr>))\<rparr>"

definition mem_view :: "memory \<Rightarrow> string \<Rightarrow> entry option" where
  "mem_view w = map_of (mem_entries w)"

subsection \<open>The in-memory adapter meets the contract\<close>

lemma map_of_mkdirs:
  "map_of (fold (\<lambda>p. mput p Directory) ps es) k = (if k \<in> set ps then Some Directory else map_of es k)"
  by (induction ps arbitrary: es) auto

lemma mem_set_frame:
  "mem_set ns w = (r, w') \<Longrightarrow> k \<notin> sn_Key ` set ns \<Longrightarrow> (\<forall>n\<in>set ns. \<not> below k (sn_Key n)) \<Longrightarrow>
   mem_view w' k = mem_view w k"
  by (induction ns w rule: mem_set.induct)
    (fastforce simp: Let_def mem_view_def map_of_mkdirs split: if_splits)+

lemma mem_set_any:
  "mem_set ns w = (r, w') \<Longrightarrow>
   mem_view w' k = mem_view w k
   \<or> (\<exists>n\<in>set ns. sn_Key n = k \<and> mem_view w' k = Some (File (sn_Value n)))
   \<or> ((\<exists>n\<in>set ns. below k (sn_Key n)) \<and> mem_view w' k = Some Directory)"
proof (induction ns w rule: mem_set.induct)
  case (2 n ns w)
  define w2 where "w2 = w\<lparr>mem_entries :=
    mput (sn_Key n) (File (sn_Value n)) (fold (\<lambda>p. mput p Directory) (ancestors (sn_Key n)) (mem_entries w))\<rparr>"
  show ?case
  proof (cases "w' = w")
    case False
    then have "mem_set ns w2 = (r, w')" using 2(2) by (auto simp: Let_def w2_def split: if_splits)
    moreover have "mem_view w2 k = (if k = sn_Key n then Some (File (sn_Value n))
        else if below k (sn_Key n) then Some Directory else mem_view w k)"
      by (simp add: w2_def mem_view_def map_of_mkdirs)
    ultimately show ?thesis using 2(1) 2(2) False
      by (auto simp: Let_def w2_def [symmetric] split: if_splits)
  qed simp
qed simp

lemma mem_set_file:
  "mem_set ns w = (None, w') \<Longrightarrow> mem_view w k = Some (File v) \<Longrightarrow> k \<notin> sn_Key ` set ns \<Longrightarrow>
   mem_view w' k = Some (File v)"
proof (induction ns w rule: mem_set.induct)
  case (2 n ns w)
  then have "\<not> below k (sn_Key n)"
    by (auto simp: Let_def mem_view_def list_ex_iff split: if_splits dest: bspec [where x = k])
  with 2 show ?case by (auto simp: Let_def mem_view_def map_of_mkdirs split: if_splits)
qed simp

lemma mem_set_written:
  "mem_set ns w = (None, w') \<Longrightarrow> k \<in> sn_Key ` set ns \<Longrightarrow>
   \<exists>n\<in>set ns. sn_Key n = k \<and> mem_view w' k = Some (File (sn_Value n))"
proof (induction ns w rule: mem_set.induct)
  case (2 n ns w)
  define w2 where "w2 = w\<lparr>mem_entries :=
    mput (sn_Key n) (File (sn_Value n)) (fold (\<lambda>p. mput p Directory) (ancestors (sn_Key n)) (mem_entries w))\<rparr>"
  have rest: "mem_set ns w2 = (None, w')"
    using 2 by (auto simp: Let_def w2_def split: if_splits)
  show ?case
  proof (cases "k \<in> sn_Key ` set ns")
    case True
    then show ?thesis using 2 rest by (auto simp: Let_def w2_def split: if_splits)
  next
    case False
    then have "mem_view w' k = Some (File (sn_Value n))"
      using mem_set_file [OF rest] 2 by (auto simp: w2_def mem_view_def)
    then show ?thesis using 2 False by auto
  qed
qed simp

lemma mem_set_dirs:
  "mem_set ns w = (None, w') \<Longrightarrow> k \<notin> sn_Key ` set ns \<Longrightarrow>
   mem_view w' k \<in> {mem_view w k, Some Directory}"
  by (induction ns w rule: mem_set.induct)
    (fastforce simp: Let_def mem_view_def map_of_mkdirs split: if_splits)+

lemma map_of_filter_keys: "map_of (filter (\<lambda>(k, e). Q k) es) k = (if Q k then map_of es k else None)"
  by (induction es) auto

lemma mem_delete_ok:
  "mem_delete ds w = (None, w') \<Longrightarrow>
   mem_view w' k = (if \<exists>d\<in>set ds. k = d \<or> below d k then None else mem_view w k)"
  by (induction ds w rule: mem_delete.induct)
    (auto simp: mem_view_def map_of_filter_keys split: option.splits)

lemma mem_delete_error:
  "mem_delete ds w = (r, w') \<Longrightarrow>
   mem_view w' k = mem_view w k \<or> (mem_view w' k = None \<and> (\<exists>d\<in>set ds. k = d \<or> below d k))"
  by (induction ds w rule: mem_delete.induct)
    (auto simp: mem_view_def map_of_filter_keys split: option.splits if_splits)

lemma child_of_longer: "child_of d k \<Longrightarrow> length d < length k"
  by (auto simp: child_of_def below_length)

lemma mem_tree_key [simp]: "sn_Key (mem_tree n es k) = k"
  by (cases n) (auto split: option.splits entry.splits)

lemma mem_tree_ok:
  "map_of es k \<noteq> None \<Longrightarrow> (\<forall>k'\<in>fst ` set es. length k' < length k + n) \<Longrightarrow>
   listing_ok (map_of es) (mem_tree n es k)"
proof (induction n arbitrary: k)
  case 0
  then obtain v where "(k, v) \<in> set es" by (auto dest: map_of_SomeD)
  with 0 show ?case by force
next
  case (Suc n)
  have sub: "listing_ok (map_of es) (mem_tree n es c)" if "c \<in> fst ` set es" "child_of k c" for c
  proof (rule Suc.IH)
    show "map_of es c \<noteq> None" using that by (auto simp: map_of_eq_None_iff)
    show "\<forall>k'\<in>fst ` set es. length k' < length c + n"
      using Suc.prems(2) child_of_longer [OF that(2)] by fastforce
  qed
  show ?case
  proof (cases "map_of es k")
    case (Some e)
    then show ?thesis
    proof (cases e)
      case Directory
      have "sn_Key ` mem_tree n es ` {c \<in> fst ` set es. child_of k c} = {c. child_of k c \<and> map_of es c \<noteq> None}"
        by (auto simp: image_image map_of_eq_None_iff)
      then show ?thesis using Some Directory sub
        by (auto simp: o_def map_of_eq_None_iff)
    qed (auto simp: leaf_node_def)
  qed (use Suc.prems in simp)
qed

lemma le_fold_max: "x \<in> set xs \<Longrightarrow> x \<le> fold max xs (m::nat)" "m \<le> fold max xs m"
proof -
  have *: "Max (insert m (set xs)) = fold max xs m"
    by (metis Max.set_eq_fold list.simps(15))
  show "x \<in> set xs \<Longrightarrow> x \<le> fold max xs (m::nat)" "m \<le> fold max xs m"
    by (auto simp flip: *)
qed

lemma mem_list_ok: "mem_list d w = (Inr n, w') \<Longrightarrow>
  w' = w \<and> sn_Key n = clean_key d \<and> sn_Dir n \<and> listing_ok (mem_view w) n"
proof -
  assume r: "mem_list d w = (Inr n, w')"
  let ?m = "fold max (map (length \<circ> fst) (mem_entries w)) 0"
  have e: "map_of (mem_entries w) (clean_key d) = Some Directory" and w: "w' = w"
    and n: "n = mem_tree (Suc ?m) (mem_entries w) (clean_key d)"
    using r by (auto simp: mem_list_def Let_def split: option.splits entry.splits)
  have "\<forall>k\<in>fst ` set (mem_entries w). length k \<le> ?m"
    by (intro ballI le_fold_max(1)) auto
  then have "\<forall>k\<in>fst ` set (mem_entries w). length k < length (clean_key d) + Suc ?m"
    by (meson le_imp_less_Suc trans_less_add2)
  then have "listing_ok (map_of (mem_entries w)) n"
    unfolding n by (intro mem_tree_ok) (simp_all add: e)
  then show ?thesis using n w e by (simp add: mem_view_def [abs_def])
qed

lemma mem_list_error: "mem_list d w = (Inl e, w') \<Longrightarrow>
  w' = w \<and> (e = ErrorKeyNotFound \<longrightarrow> (\<forall>k. below (clean_key d) k \<longrightarrow> mem_view w k = None))"
  by (auto simp: mem_list_def Let_def mem_view_def list_ex_iff map_of_eq_None_iff
      split: option.splits entry.splits if_splits)

interpretation memory: kv_adapter mem_externals mem_view
proof unfold_locales
  fix ns w w' k
  assume "ad_SetMulti mem_externals ns w = (None, w')"
  then have s: "mem_set ns w = (None, w')" by (simp add: mem_externals_def)
  show "\<forall>k. if k \<in> sn_Key ` set ns
           then \<exists>n\<in>set ns. sn_Key n = k \<and> mem_view w' k = Some (File (sn_Value n))
           else if \<exists>n\<in>set ns. below k (sn_Key n) then mem_view w' k \<in> {mem_view w k, Some Directory}
           else mem_view w' k = mem_view w k"
    using mem_set_written [OF s] mem_set_dirs [OF s] mem_set_frame [OF s] by simp
qed (auto simp: mem_externals_def mem_set_any mem_delete_ok mem_delete_error mem_list_ok mem_list_error
    mem_get_def mem_view_def [symmetric] split: option.splits entry.splits dest: mem_list_ok mem_list_error)

end
