(* ===== verification/Store_Core.thy ===== *)
theory Store_Core imports Store_Adapter Pending_Messages Config Heartbeats begin

text \<open>
  \<open>store/store.go\<close> with \<open>store/pending_start_messages.go\<close> and \<open>store/pending_stop_messages.go\<close>: the
  state of the store client and the generic operations \<open>save\<close>, \<open>get\<close> and \<open>delete\<close> on storable
  values. Reflection is left out: the operations take the key function, the encoder and the
  constructor of the type instead. Mutexes are left out because every operation runs under its
  lock from start to end; an operation reads the clock once, as its argument \<open>now\<close>.

  The locale \<open>message_store\<close> proves what the operations mean for any storable type over any
  adapter that meets its contract.
\<close>

subsection \<open>State, errors and roots\<close>

datatype hm_error =
    StoreError store_error
  | ActualIsNotFreshError
  | AppNotFoundError
  | DecodeError
  | CsvError csv_error
  | IndexPanic
  | DesiredStateFetcherFailed
  | SenderFailed
  | MetricsError string

record RealStore =
  st_config :: Config
  heartbeatCache :: "(string, string list) gomap"
  instanceHeartbeatCache :: "(string, InstanceHeartbeat) gomap"
  instanceHeartbeatCacheTimestamp :: time
  deaCache :: "string list"
  deaCacheExpirationTimestamp :: time

definition NewStore :: "Config \<Rightarrow> RealStore" where
  "NewStore conf = \<lparr>st_config = conf, heartbeatCache = [], instanceHeartbeatCache = [],
     instanceHeartbeatCacheTimestamp = zero_time, deaCache = [],
     deaCacheExpirationTimestamp = zero_time\<rparr>"

definition SchemaRoot :: "RealStore \<Rightarrow> string" where
  "SchemaRoot store = ''/hm/v'' @ itoa (StoreSchemaVersion (st_config store))"

definition AppKey :: "string \<Rightarrow> string \<Rightarrow> string" where
  "AppKey appGuid appVersion = appGuid @ '','' @ appVersion"

text \<open>The text of a plain value. A JSON document is never a valid CSV line or guid.\<close>

definition raw_text :: "bytes \<Rightarrow> string" where
  "raw_text v = (case v of Raw s \<Rightarrow> s | Doc j \<Rightarrow> ''{}'')"

lemma raw_text_Raw [simp]: "raw_text (Raw s) = s"
  by (simp add: raw_text_def)

definition store_result :: "store_error option \<times> 'w \<Rightarrow> hm_error option \<times> 'w" where
  "store_result = (\<lambda>(e, w). (map_option StoreError e, w))"

lemma store_result_simps [simp]:
  "store_result (e, w) = (map_option StoreError e, w)"
  "store_result r = (None, w) \<longleftrightarrow> r = (None, w)"
  by (auto simp: store_result_def split: prod.splits)

subsection \<open>Generic operations\<close>

definition fetchNodesUnderDir ::
    "'w externals \<Rightarrow> string \<Rightarrow> 'w \<Rightarrow> (hm_error + store_node list) \<times> 'w" where
  "fetchNodesUnderDir ex dir w =
     (case ad_ListRecursively ex dir w of
        (Inl ErrorKeyNotFound, w') \<Rightarrow> (Inr [], w')
      | (Inl err, w') \<Rightarrow> (Inl (StoreError err), w')
      | (Inr node, w') \<Rightarrow> (Inr (sn_ChildNodes node), w'))"

definition save :: "'w externals \<Rightarrow> ('a \<Rightarrow> string) \<Rightarrow> ('a \<Rightarrow> bytes) \<Rightarrow> 'a list \<Rightarrow> string \<Rightarrow> 64 word
    \<Rightarrow> 'w \<Rightarrow> hm_error option \<times> 'w" where
  "save ex StoreKey ToJSON stuff dir ttl w = store_result (ad_SetMulti ex
     (map (\<lambda>item. leaf_node (dir @ ''/'' @ StoreKey item) (ToJSON item) ttl) stuff) w)"

fun decode_nodes :: "('a \<Rightarrow> string) \<Rightarrow> (bytes \<Rightarrow> 'a option) \<Rightarrow> store_node list \<Rightarrow> (string, 'a) gomap
    \<Rightarrow> hm_error + (string, 'a) gomap" where
  "decode_nodes StoreKey constructor [] mapToReturn = Inr mapToReturn"
| "decode_nodes StoreKey constructor (node # nodes) mapToReturn =
     (case constructor (sn_Value node) of
        None \<Rightarrow> Inl DecodeError
      | Some item \<Rightarrow> decode_nodes StoreKey constructor nodes (mput (StoreKey item) item mapToReturn))"

definition get :: "'w externals \<Rightarrow> ('a \<Rightarrow> string) \<Rightarrow> (bytes \<Rightarrow> 'a option) \<Rightarrow> string \<Rightarrow> 'w
    \<Rightarrow> (hm_error + (string, 'a) gomap) \<times> 'w" where
  "get ex StoreKey constructor dir w =
     (case fetchNodesUnderDir ex dir w of
        (Inl err, w') \<Rightarrow> (Inl err, w')
      | (Inr nodes, w') \<Rightarrow> (decode_nodes StoreKey constructor nodes [], w'))"

definition delete :: "'w externals \<Rightarrow> ('a \<Rightarrow> string) \<Rightarrow> 'a list \<Rightarrow> string \<Rightarrow> 'w \<Rightarrow> hm_error option \<times> 'w" where
  "delete ex StoreKey stuff dir w =
     store_result (ad_Delete ex (map (\<lambda>item. dir @ ''/'' @ StoreKey item) stuff) w)"

subsection \<open>Pending messages\<close>

definition SavePendingStartMessages ::
    "'w externals \<Rightarrow> RealStore \<Rightarrow> PendingStartMessage list \<Rightarrow> 'w \<Rightarrow> hm_error option \<times> 'w" where
  "SavePendingStartMessages ex store messages w =
     save ex PendingStartMessage_StoreKey PendingStartMessage_ToJSON messages
       (SchemaRoot store @ ''/start'') 0 w"

definition GetPendingStartMessages ::
    "'w externals \<Rightarrow> RealStore \<Rightarrow> 'w \<Rightarrow> (hm_error + (string, PendingStartMessage) gomap) \<times> 'w" where
  "GetPendingStartMessages ex store w =
     get ex PendingStartMessage_StoreKey NewPendingStartMessageFromJSON (SchemaRoot store @ ''/start'') w"

definition DeletePendingStartMessages ::
    "'w externals \<Rightarrow> RealStore \<Rightarrow> PendingStartMessage list \<Rightarrow> 'w \<Rightarrow> hm_error option \<times> 'w" where
  "DeletePendingStartMessages ex store messages w =
     delete ex PendingStartMessage_StoreKey messages (SchemaRoot store @ ''/start'') w"

definition SavePendingStopMessages ::
    "'w externals \<Rightarrow> RealStore \<Rightarrow> PendingStopMessage list \<Rightarrow> 'w \<Rightarrow> hm_error option \<times> 'w" where
  "SavePendingStopMessages ex store messages w =
     save ex PendingStopMessage_StoreKey PendingStopMessage_ToJSON messages
       (SchemaRoot store @ ''/stop'') 0 w"

definition GetPendingStopMessages ::
    "'w externals \<Rightarrow> RealStore \<Rightarrow> 'w \<Rightarrow> (hm_error + (string, PendingStopMessage) gomap) \<times> 'w" where
  "GetPendingStopMessages ex store w =
     get ex PendingStopMessage_StoreKey NewPendingStopMessageFromJSON (SchemaRoot store @ ''/stop'') w"

definition DeletePendingStopMessages ::
    "'w externals \<Rightarrow> RealStore \<Rightarrow> PendingStopMessage list \<Rightarrow> 'w \<Rightarrow> hm_error option \<times> 'w" where
  "DeletePendingStopMessages ex store messages w =
     delete ex PendingStopMessage_StoreKey messages (SchemaRoot store @ ''/stop'') w"

subsection \<open>What the operations mean\<close>

text \<open>
  A directory is well formed when its entries are files that decode to a value whose key is the
  name of the entry. A key is proper when it is one path component.
\<close>

definition proper_key :: "string \<Rightarrow> bool" where
  "proper_key k \<longleftrightarrow> CHR ''/'' \<notin> set k"

definition values_ok :: "('a \<Rightarrow> string) \<Rightarrow> (bytes \<Rightarrow> 'a option) \<Rightarrow> string \<Rightarrow> (string \<Rightarrow> entry option) \<Rightarrow> bool" where
  "values_ok key dec dir es \<longleftrightarrow>
     (\<forall>k e. proper_key k \<longrightarrow> es (dir @ ''/'' @ k) = Some e \<longrightarrow>
        (\<exists>v x. e = File v \<and> dec v = Some x \<and> key x = k))"

definition stored :: "(bytes \<Rightarrow> 'a option) \<Rightarrow> string \<Rightarrow> (string \<Rightarrow> entry option) \<Rightarrow> string \<Rightarrow> 'a option" where
  "stored dec dir es k =
     (if proper_key k
      then (case es (dir @ ''/'' @ k) of Some (File v) \<Rightarrow> dec v | _ \<Rightarrow> None) else None)"

lemma child_of_proper [simp]: "child_of dir (dir @ CHR ''/'' # k) \<longleftrightarrow> proper_key k"
  by (auto simp: child_of_iff proper_key_def)

lemma below_child: "below (dir @ CHR ''/'' # k) (dir @ CHR ''/'' # k') \<Longrightarrow> \<not> proper_key k'"
  by (auto simp: below_def proper_key_def prefix_def)

definition proper_dir :: "string \<Rightarrow> bool" where
  "proper_dir dir \<longleftrightarrow> dir \<noteq> [] \<and> last dir \<noteq> CHR ''/''"

lemma proper_dir_key: "proper_dir dir \<Longrightarrow> clean_key dir = dir"
  by (simp add: proper_dir_def)

lemma proper_dir_append: "s \<noteq> [] \<Longrightarrow> last s \<noteq> CHR ''/'' \<Longrightarrow> proper_dir (r @ s)"
  by (simp add: proper_dir_def)

text \<open>Decoding nodes with distinct keys, each of which decodes to a value of its own key.\<close>

lemma map_of_keys_None: "k \<notin> f ` set ns \<Longrightarrow> map_of (map (\<lambda>n. (f n, g n)) ns) k = None"
  by (induction ns) auto

lemma decode_nodes_map:
  assumes "\<forall>n\<in>set ns. \<exists>x. dec (sn_Value n) = Some x \<and> sn_Key n = dir @ ''/'' @ key x"
    and "distinct (map sn_Key ns)"
  shows "\<exists>m'. decode_nodes key dec ns m = Inr m' \<and>
     (\<forall>k. map_of m' k = (case map_of (map (\<lambda>n. (sn_Key n, sn_Value n)) ns) (dir @ ''/'' @ k) of
        Some v \<Rightarrow> dec v | None \<Rightarrow> map_of m k))"
  using assms
proof (induction ns arbitrary: m)
  case (Cons n ns)
  obtain x where x: "dec (sn_Value n) = Some x" "sn_Key n = dir @ ''/'' @ key x"
    using Cons.prems by auto
  have "sn_Key n \<notin> sn_Key ` set ns" using Cons.prems(2) by simp
  then have none: "map_of (map (\<lambda>n. (sn_Key n, sn_Value n)) ns) (sn_Key n) = None"
    by (rule map_of_keys_None)
  obtain m' where m': "decode_nodes key dec ns (mput (key x) x m) = Inr m'"
    "\<forall>k. map_of m' k = (case map_of (map (\<lambda>n. (sn_Key n, sn_Value n)) ns) (dir @ ''/'' @ k) of
        Some v \<Rightarrow> dec v | None \<Rightarrow> map_of (mput (key x) x m) k)"
    using Cons.IH [of "mput (key x) x m"] Cons.prems by auto
  have "map_of m' k = (case map_of (map (\<lambda>n. (sn_Key n, sn_Value n)) (n # ns)) (dir @ ''/'' @ k) of
        Some v \<Rightarrow> dec v | None \<Rightarrow> map_of m k)" for k
    using m'(2) [rule_format, of k] x none
    by (cases "k = key x") (auto split: option.splits)
  then show ?case using m'(1) x by auto
qed simp

text \<open>The entries that a listing of a directory shows.\<close>

lemma listing_lookup:
  assumes "listing_ok es n" and "sn_Dir n" and "sn_Key n = dir" and "values_ok key dec dir es"
  shows "map_of (map (\<lambda>n. (sn_Key n, sn_Value n)) (sn_ChildNodes n)) (dir @ ''/'' @ k) =
     (if proper_key k then files es (dir @ ''/'' @ k) else None)"
proof -
  let ?m = "map_of (map (\<lambda>n. (sn_Key n, sn_Value n)) (sn_ChildNodes n))"
  note children = listing_children [OF assms(1,2)]
  show ?thesis
  proof (cases "\<exists>c\<in>set (sn_ChildNodes n). sn_Key c = dir @ ''/'' @ k")
    case True
    then obtain c where c: "c \<in> set (sn_ChildNodes n)" "sn_Key c = dir @ ''/'' @ k" by blast
    then have "dir @ ''/'' @ k \<in> {k'. child_of dir k' \<and> es k' \<noteq> None}"
      using children(2) assms(3) by (metis imageI)
    then have k: "proper_key k" "es (dir @ ''/'' @ k) \<noteq> None" by simp_all
    then obtain v where v: "es (dir @ ''/'' @ k) = Some (File v)"
      using assms(4) by (auto simp: values_ok_def)
    then have "\<not> sn_Dir c" using listing_dir [OF children(3) [OF c(1)]] c(2) by simp
    then have "sn_Value c = v" using listing_file [OF children(3) [OF c(1)]] c(2) v by simp
    moreover have "?m (sn_Key c) = Some (sn_Value c)"
      using c(1) children(1) by (intro map_of_is_SomeI) (auto simp: o_def)
    ultimately show ?thesis using c(2) k v by (simp add: files_def)
  next
    case False
    then have no: "dir @ ''/'' @ k \<notin> sn_Key ` set (sn_ChildNodes n)" by (metis imageE)
    then have "\<not> (proper_key k \<and> es (dir @ ''/'' @ k) \<noteq> None)"
      unfolding children(2) assms(3) by simp
    moreover have "?m (dir @ ''/'' @ k) = None" using no by (rule map_of_keys_None)
    ultimately show ?thesis by (auto simp: files_def split: option.splits)
  qed
qed

text \<open>Every child of a well-formed directory decodes to a value of its own key.\<close>

lemma listing_decodes:
  assumes "listing_ok es n" and "sn_Dir n" and "sn_Key n = dir" and "values_ok key dec dir es"
    and "c \<in> set (sn_ChildNodes n)"
  shows "\<exists>x. dec (sn_Value c) = Some x \<and> sn_Key c = dir @ ''/'' @ key x"
proof -
  note children = listing_children [OF assms(1,2)]
  have "child_of dir (sn_Key c)" "es (sn_Key c) \<noteq> None" using children(2) assms(3,5) by auto
  then obtain k where k: "sn_Key c = dir @ ''/'' @ k" "proper_key k"
    by (auto simp: child_of_iff proper_key_def)
  then obtain v x where v: "es (sn_Key c) = Some (File v)" "dec v = Some x" "key x = k"
    using assms(4) \<open>es (sn_Key c) \<noteq> None\<close> unfolding values_ok_def by (metis option.exhaust)
  then have "\<not> sn_Dir c" using listing_dir [OF children(3) [OF assms(5)]] by simp
  then have "sn_Value c = v" using listing_file [OF children(3) [OF assms(5)]] v by simp
  then show ?thesis using v k by auto
qed

text \<open>What is read has distinct keys.\<close>

lemma decode_nodes_ok: "decode_nodes key dec ns m = Inr m' \<Longrightarrow> gomap_ok m \<Longrightarrow> gomap_ok m'"
  by (induction key dec ns m rule: decode_nodes.induct) (auto split: option.splits)

lemma get_gomap_ok: "get ex key dec dir w = (Inr m, w') \<Longrightarrow> gomap_ok m"
  by (auto simp: get_def dest: decode_nodes_ok split: prod.splits sum.splits)

locale message_store = kv_adapter ex entries + storeable store_key to_json from_json encodable
  for ex :: "'w externals" and entries :: "'w \<Rightarrow> string \<Rightarrow> entry option"
    and store_key :: "'a \<Rightarrow> string" and to_json :: "'a \<Rightarrow> bytes"
    and from_json :: "bytes \<Rightarrow> 'a option" and encodable :: "'a \<Rightarrow> bool"
begin

text \<open>Reading a well-formed directory fails only when the adapter does, and shows what is stored.\<close>

lemma get_stored:
  assumes "values_ok store_key from_json dir (entries w)" and "proper_dir dir"
    and "get ex store_key from_json dir w = (r, w')"
  shows "w' = w \<and> (case r of
      Inl e \<Rightarrow> \<exists>se. e = StoreError se
    | Inr m \<Rightarrow> map_of m = stored from_json dir (entries w))"
proof (cases "ad_ListRecursively ex dir w")
  case (Pair res w1)
  have w1: "w1 = w" using list_pure [OF Pair] .
  show ?thesis
  proof (cases res)
    case (Inl e)
    show ?thesis
    proof (cases "e = ErrorKeyNotFound")
      case True
      then have "entries w (dir @ ''/'' @ k) = None" for k
        using list_error [OF Pair [unfolded Inl]] assms(2) by (simp add: proper_dir_key)
      then show ?thesis
        using assms(3) Pair Inl True w1
        by (auto simp: get_def fetchNodesUnderDir_def stored_def fun_eq_iff)
    next
      case False
      then show ?thesis using assms(3) Pair Inl w1
        by (auto simp: get_def fetchNodesUnderDir_def split: store_error.splits)
    qed
  next
    case (Inr n)
    have n: "sn_Key n = dir" "sn_Dir n" "listing_ok (entries w) n"
      using list_ok [OF Pair [unfolded Inr]] assms(2) by (simp_all add: proper_dir_key)
    have dec: "\<forall>c\<in>set (sn_ChildNodes n). \<exists>x. from_json (sn_Value c) = Some x
        \<and> sn_Key c = dir @ ''/'' @ store_key x"
      using listing_decodes [OF n(3,2,1) assms(1)] by blast
    obtain m' where m': "decode_nodes store_key from_json (sn_ChildNodes n) [] = Inr m'"
      "\<forall>k. map_of m' k = (case map_of (map (\<lambda>n. (sn_Key n, sn_Value n)) (sn_ChildNodes n))
          (dir @ ''/'' @ k) of Some v \<Rightarrow> from_json v | None \<Rightarrow> map_of [] k)"
      using decode_nodes_map [OF dec listing_children(1) [OF n(3,2)], of "[]"] by blast
    have r: "r = Inr m'" using assms(3) Pair Inr m'(1) by (simp add: get_def fetchNodesUnderDir_def)
    have "map_of m' k = stored from_json dir (entries w) k" for k
      unfolding m'(2) [rule_format] listing_lookup [OF n(3,2,1) assms(1)]
      by (auto simp: stored_def files_def split: option.splits entry.splits)
    then have "map_of m' = stored from_json dir (entries w)" ..
    then show ?thesis
      using r assms(3) Pair Inr w1 by (auto simp: get_def fetchNodesUnderDir_def)
  qed
qed

text \<open>A save writes its messages under their keys and leaves the others.\<close>

definition message_keys_ok :: "'a list \<Rightarrow> bool" where
  "message_keys_ok ms \<longleftrightarrow>
     (\<forall>m\<in>set ms. proper_key (store_key m) \<and> encodable m) \<and> distinct (map store_key ms)"

lemma save_entries:
  assumes "save ex store_key to_json ms dir ttl w = (None, w')" and "message_keys_ok ms" and "proper_key k"
  shows "entries w' (dir @ ''/'' @ k) =
     (case map_of (map (\<lambda>m. (store_key m, m)) ms) k of
        Some m \<Rightarrow> Some (File (to_json m)) | None \<Rightarrow> entries w (dir @ ''/'' @ k))"
proof -
  let ?nodes = "map (\<lambda>m. leaf_node (dir @ ''/'' @ store_key m) (to_json m) ttl) ms"
  have set: "ad_SetMulti ex ?nodes w = (None, w')"
    using assms(1) by (simp add: save_def store_result_def split: prod.splits)
  show ?thesis
  proof (cases "map_of (map (\<lambda>m. (store_key m, m)) ms) k")
    case None
    then have "k \<notin> store_key ` set ms" by (simp add: map_of_eq_None_iff image_image)
    moreover have "\<not> below (dir @ ''/'' @ k) (sn_Key n)" if "n \<in> set ?nodes" for n
      using that assms(2) by (fastforce simp: message_keys_ok_def dest: below_child)
    ultimately show ?thesis
      using set_multi_frame [OF set, of "dir @ ''/'' @ k"] None
      by (simp add: image_image) (simp add: image_iff)
  next
    case (Some m)
    then have m: "m \<in> set ms" "store_key m = k" by (auto dest: map_of_SomeD)
    have "distinct (map sn_Key ?nodes)"
      using assms(2) by (simp add: message_keys_ok_def o_def distinct_map inj_on_def)
    then show ?thesis
      using set_multi_written [OF set, of "leaf_node (dir @ ''/'' @ k) (to_json m) ttl"] m Some
      by auto
  qed
qed

lemma save_stored:
  assumes "save ex store_key to_json ms dir ttl w = (None, w')" and "message_keys_ok ms"
  shows "stored from_json dir (entries w') =
     stored from_json dir (entries w) ++ map_of (map (\<lambda>m. (store_key m, m)) ms)"
proof
  fix k
  have "from_json (to_json m) = Some m" "proper_key k"
    if "map_of (map (\<lambda>m. (store_key m, m)) ms) k = Some m" for m
    using map_of_SomeD [OF that] assms(2) by (auto simp: message_keys_ok_def from_to_json)
  then show "stored from_json dir (entries w') k =
      (stored from_json dir (entries w) ++ map_of (map (\<lambda>m. (store_key m, m)) ms)) k"
    using save_entries [OF assms, of k]
    by (auto simp: stored_def map_add_def split: option.splits)
qed

lemma save_values_ok:
  assumes "save ex store_key to_json ms dir ttl w = (None, w')" and "message_keys_ok ms"
    and "values_ok store_key from_json dir (entries w)"
  shows "values_ok store_key from_json dir (entries w')"
  unfolding values_ok_def
proof (intro allI impI)
  fix k e assume k: "proper_key k" and e: "entries w' (dir @ ''/'' @ k) = Some e"
  show "\<exists>v x. e = File v \<and> from_json v = Some x \<and> store_key x = k"
  proof (cases "map_of (map (\<lambda>m. (store_key m, m)) ms) k")
    case None
    then show ?thesis using save_entries [OF assms(1,2) k] e k assms(3) by (simp add: values_ok_def)
  next
    case (Some m)
    then have "m \<in> set ms" "store_key m = k" by (auto dest: map_of_SomeD)
    then show ?thesis
      using save_entries [OF assms(1,2) k] e Some assms(2) by (auto simp: message_keys_ok_def from_to_json)
  qed
qed

text \<open>A delete removes exactly the given keys.\<close>

lemma delete_entries:
  assumes "delete ex store_key ms dir w = (None, w')" and "\<forall>m\<in>set ms. proper_key (store_key m)"
    and "proper_key k"
  shows "entries w' (dir @ ''/'' @ k) =
     (if k \<in> store_key ` set ms then None else entries w (dir @ ''/'' @ k))"
proof -
  have "ad_Delete ex (map (\<lambda>m. dir @ ''/'' @ store_key m) ms) w = (None, w')"
    using assms(1) by (simp add: delete_def store_result_def split: prod.splits)
  then show ?thesis
    using assms(2,3) by (subst delete_ok) (auto dest: below_child)
qed

lemma delete_stored:
  assumes "delete ex store_key ms dir w = (None, w')" and "\<forall>m\<in>set ms. proper_key (store_key m)"
  shows "stored from_json dir (entries w') = stored from_json dir (entries w) |` (- store_key ` set ms)"
proof
  fix k
  show "stored from_json dir (entries w') k = (stored from_json dir (entries w) |` (- store_key ` set ms)) k"
    using delete_entries [OF assms, of k] by (auto simp: stored_def restrict_map_def)
qed

lemma delete_values_ok:
  assumes "delete ex store_key ms dir w = (None, w')" and "\<forall>m\<in>set ms. proper_key (store_key m)"
    and "values_ok store_key from_json dir (entries w)"
  shows "values_ok store_key from_json dir (entries w')"
  using assms(3) delete_entries [OF assms(1,2)] by (auto simp: values_ok_def)

end

subsection \<open>Start and stop messages\<close>

text \<open>The two kinds of messages, over the adapter in memory.\<close>

interpretation start_memory: message_store mem_externals mem_view PendingStartMessage_StoreKey
  PendingStartMessage_ToJSON NewPendingStartMessageFromJSON start_message_ok ..

interpretation stop_memory: message_store mem_externals mem_view PendingStopMessage_StoreKey
  PendingStopMessage_ToJSON NewPendingStopMessageFromJSON pending_ints_ok ..

text \<open>Over any adapter that meets the contract.\<close>

lemma start_message_store:
  "kv_adapter ex entries \<Longrightarrow> message_store ex entries PendingStartMessage_ToJSON
     NewPendingStartMessageFromJSON start_message_ok"
  by (simp add: message_store_def start_storeable.storeable_axioms)

lemma stop_message_store:
  "kv_adapter ex entries \<Longrightarrow> message_store ex entries PendingStopMessage_ToJSON
     NewPendingStopMessageFromJSON pending_ints_ok"
  by (simp add: message_store_def stop_storeable.storeable_axioms)

end
