(* ===== verification/Store_Freshness.thy ===== *)
theory Store_Freshness imports Store_Core begin

text \<open>
  \<open>store/freshness.go\<close>: the freshness key tells since when heartbeats have come in without a gap.
  The key expires with its TTL unless it is bumped; a bump keeps the time stamp of the first one.
\<close>

definition freshness_key :: "RealStore \<Rightarrow> string" where
  "freshness_key store = SchemaRoot store @ ActualFreshnessKey (st_config store)"

definition bumpFreshness ::
    "'w externals \<Rightarrow> string \<Rightarrow> 64 word \<Rightarrow> time \<Rightarrow> 'w \<Rightarrow> hm_error option \<times> 'w" where
  "bumpFreshness ex key ttl timestamp w =
     (let (oldTimestamp, w1) = ad_Get ex key w;
          jsonTimestamp = (case oldTimestamp of
             Inr node \<Rightarrow> sn_Value node
           | Inl err \<Rightarrow> FreshnessTimestamp_ToJSON \<lparr>Timestamp = Unix timestamp\<rparr>)
      in store_result (ad_SetMulti ex [leaf_node key jsonTimestamp ttl] w1))"

definition BumpActualFreshness ::
    "'w externals \<Rightarrow> RealStore \<Rightarrow> time \<Rightarrow> 'w \<Rightarrow> hm_error option \<times> 'w" where
  "BumpActualFreshness ex store timestamp w =
     bumpFreshness ex (SchemaRoot store @ ActualFreshnessKey (st_config store))
       (ActualFreshnessTTL (st_config store)) timestamp w"

definition RevokeActualFreshness :: "'w externals \<Rightarrow> RealStore \<Rightarrow> 'w \<Rightarrow> hm_error option \<times> 'w" where
  "RevokeActualFreshness ex store w =
     store_result (ad_Delete ex [SchemaRoot store @ ActualFreshnessKey (st_config store)] w)"

definition IsActualStateFresh ::
    "'w externals \<Rightarrow> RealStore \<Rightarrow> time \<Rightarrow> 'w \<Rightarrow> (hm_error + bool) \<times> 'w" where
  "IsActualStateFresh ex store currentTime w =
     (case ad_Get ex (SchemaRoot store @ ActualFreshnessKey (st_config store)) w of
        (Inl ErrorKeyNotFound, w') \<Rightarrow> (Inr False, w')
      | (Inl err, w') \<Rightarrow> (Inl (StoreError err), w')
      | (Inr node, w') \<Rightarrow>
          (case FreshnessTimestampFromJSON (sn_Value node) of
             None \<Rightarrow> (Inl DecodeError, w')
           | Some f \<Rightarrow>
               (Inr (dur_mult (sint (ActualFreshnessTTL (st_config store))) second
                       \<le> time_Sub currentTime (time_Unix (Timestamp f))), w')))"

definition VerifyFreshness :: "'w externals \<Rightarrow> RealStore \<Rightarrow> time \<Rightarrow> 'w \<Rightarrow> hm_error option \<times> 'w" where
  "VerifyFreshness ex store now w =
     (case IsActualStateFresh ex store now w of
        (Inl err, w') \<Rightarrow> (Some err, w')
      | (Inr actualFresh, w') \<Rightarrow>
          (if \<not> actualFresh then (Some ActualIsNotFreshError, w') else (None, w')))"

subsection \<open>Since when the state is fresh\<close>

text \<open>Some value is bumped again: the key is found and written back.\<close>

inductive bump_again :: "'w externals \<Rightarrow> RealStore \<Rightarrow> 'w \<Rightarrow> 'w \<Rightarrow> bool"
  for ex :: "'w externals" and store :: RealStore where
  bump_again: "ad_Get ex (freshness_key store) w = (Inr node, w1) \<Longrightarrow>
     BumpActualFreshness ex store t w = (None, w') \<Longrightarrow> bump_again ex store w w'"

inductive_cases bump_againE: "bump_again ex store w w'"

context kv_adapter begin

lemma bump_first:
  assumes "BumpActualFreshness ex store t w = (None, w')" and "entries w (freshness_key store) = None"
  shows "entries w' (freshness_key store) = Some (File (FreshnessTimestamp_ToJSON \<lparr>Timestamp = Unix t\<rparr>))"
proof (cases "ad_Get ex (freshness_key store) w")
  case (Pair r w1)
  show ?thesis
  proof (cases r)
    case (Inl e)
    then show ?thesis
      using assms(1) Pair by (auto simp: BumpActualFreshness_def bumpFreshness_def
          freshness_key_def [symmetric] intro: set_one)
  next
    case (Inr n)
    then show ?thesis using get_ok [OF Pair [unfolded Inr]] assms(2) by simp
  qed
qed

lemma bump_keeps:
  assumes "bump_again ex store w w'"
  shows "entries w' (freshness_key store) = entries w (freshness_key store)"
proof -
  obtain node w1 t where g: "ad_Get ex (freshness_key store) w = (Inr node, w1)"
    "BumpActualFreshness ex store t w = (None, w')"
    using assms by (rule bump_againE)
  then have "w1 = w" "entries w (freshness_key store) = Some (File (sn_Value node))"
    using get_ok by blast+
  then show ?thesis
    using g by (auto simp: BumpActualFreshness_def bumpFreshness_def freshness_key_def [symmetric]
        dest: set_one(1))
qed

lemma bumps_keep:
  "(bump_again ex store)\<^sup>*\<^sup>* w w' \<Longrightarrow> entries w' (freshness_key store) = entries w (freshness_key store)"
  by (induction rule: rtranclp_induct) (simp_all add: bump_keeps)

lemma fresh_answer:
  assumes "entries w (freshness_key store) = Some (File (FreshnessTimestamp_ToJSON \<lparr>Timestamp = s\<rparr>))"
    and "in_int64 s" and "IsActualStateFresh ex store now w = (Inr b, w')"
  shows "b \<longleftrightarrow> dur_mult (sint (ActualFreshnessTTL (st_config store))) second
                 \<le> time_Sub now (time_Unix s)"
proof (cases "ad_Get ex (freshness_key store) w")
  case (Pair r w1)
  show ?thesis
  proof (cases r)
    case (Inl e)
    then show ?thesis
      using get_error [OF Pair [unfolded Inl]] assms Pair
      by (auto simp: IsActualStateFresh_def freshness_key_def [symmetric] split: store_error.splits)
  next
    case (Inr n)
    then have "sn_Value n = FreshnessTimestamp_ToJSON \<lparr>Timestamp = s\<rparr>"
      using get_ok [OF Pair [unfolded Inr]] assms(1) by simp
    then show ?thesis
      using assms(2,3) Pair Inr
      by (auto simp: IsActualStateFresh_def freshness_key_def [symmetric] FreshnessTimestamp_json_roundtrip)
  qed
qed

lemma revoked_not_fresh:
  assumes "RevokeActualFreshness ex store w = (None, w')" and "IsActualStateFresh ex store now w' = (Inr b, w'')"
  shows "\<not> b"
proof -
  have "entries w' (freshness_key store) = None"
    using assms(1) delete_ok [of "[freshness_key store]" w w']
    by (auto simp: RevokeActualFreshness_def freshness_key_def store_result_def split: prod.splits)
  then show ?thesis
    using assms(2) get_ok [of "freshness_key store" w']
    by (auto simp: IsActualStateFresh_def freshness_key_def [symmetric]
        split: prod.splits sum.splits store_error.splits)
qed

end

lemma ActualFreshnessTTL_sane [go_arith]:
  assumes "config_sane c"
  shows "dur_mult (sint (ActualFreshnessTTL c)) second =
     uint (ActualFreshnessTTLInHeartbeats c) * uint (HeartbeatPeriod c) * second"
proof -
  have *: "uint (ActualFreshnessTTLInHeartbeats c) < 2 ^ 10" "uint (HeartbeatPeriod c) < 2 ^ 10"
    using assms by (simp_all add: config_sane_def)
  have s: "sint (ActualFreshnessTTL c) = uint (ActualFreshnessTTLInHeartbeats c) * uint (HeartbeatPeriod c)"
    using uint_mult_small [OF *] by (simp add: ActualFreshnessTTL_def sint_small)
  have "in_int64 (uint (ActualFreshnessTTLInHeartbeats c) * uint (HeartbeatPeriod c) * second)"
    using uint_mult_small(2) [OF *]
    by (intro in_int64_mult_bound [where A = "2 ^ 20" and B = second]) (simp_all add: second_def)
  then show ?thesis by (simp add: s dur_mult_def wrap64_id)
qed

lemma mult_second_le_iff: "a * second \<le> n \<longleftrightarrow> a \<le> n div second"
proof -
  define q r where "q = n div second" and "r = n mod second"
  have "n = q * second + r" "0 \<le> r" "r < second"
    by (simp_all add: q_def r_def second_def)
  then show ?thesis unfolding q_def [symmetric] second_def by linarith
qed

text \<open>With a sane configuration and times within the range of a duration, no saturation shows.\<close>

lemma fresh_seconds:
  assumes "config_sane c"
  shows "dur_mult (sint (ActualFreshnessTTL c)) second \<le> time_Sub now (time_Unix s) \<longleftrightarrow>
     uint (ActualFreshnessTTLInHeartbeats c) * uint (HeartbeatPeriod c) \<le> Unix now - s"
proof -
  let ?n = "uint (ActualFreshnessTTLInHeartbeats c) * uint (HeartbeatPeriod c)"
  have *: "uint (ActualFreshnessTTLInHeartbeats c) < 2 ^ 10" "uint (HeartbeatPeriod c) < 2 ^ 10"
    using assms by (simp_all add: config_sane_def)
  define m where "m = ?n"
  have "0 \<le> m" "m < 2 ^ 20" using uint_mult_small(2) [OF *] by (simp_all add: m_def)
  then have n: "- (2 ^ 63) < m * second" "m * second \<le> 2 ^ 63 - 1"
    by (simp_all add: second_def)
  have "m * second \<le> time_Sub now (s * second) \<longleftrightarrow> m * second \<le> now - s * second"
    using n by (auto simp: time_Sub_def le_max_iff_disj)
  also have "\<dots> \<longleftrightarrow> (m + s) * second \<le> now" by (simp add: algebra_simps)
  also have "\<dots> \<longleftrightarrow> m + s \<le> now div second"
    by (rule mult_second_le_iff)
  finally show ?thesis
    by (simp add: ActualFreshnessTTL_sane [OF assms] time_Unix_def Unix_def algebra_simps flip: m_def)
qed

end
