(* ===== verification/Samples.thy ===== *)
theory Samples imports App_Model Store_Freshness begin

text \<open>
  Concrete values on which the theorems are applied: an app with its heartbeats, messages that are
  due, and a store in memory whose actual state has been fresh since the epoch.
\<close>

definition sample_heartbeat :: "string \<Rightarrow> int \<Rightarrow> InstanceState \<Rightarrow> InstanceHeartbeat" where
  "sample_heartbeat guid i state =
     \<lparr>hb_AppGuid = ''app'', hb_AppVersion = ''v1'', hb_InstanceGuid = guid, hb_InstanceIndex = i,
      hb_State = state, hb_StateTimestamp = Num 0, hb_DeaGuid = ''dea''\<rparr>"

definition sample_desired :: "int \<Rightarrow> DesiredAppState" where
  "sample_desired n =
     \<lparr>ds_AppGuid = ''app'', ds_AppVersion = ''v1'', ds_NumberOfInstances = n,
      ds_State = AppStateStarted, ds_PackageState = AppPackageStateStaged\<rparr>"

definition sample_app :: "int \<Rightarrow> InstanceHeartbeat list \<Rightarrow> App" where
  "sample_app n hs = NewApp ''app'' ''v1'' (sample_desired n) hs
     [(1, \<lparr>cc_AppGuid = ''app'', cc_AppVersion = ''v1'', cc_InstanceIndex = 1, cc_CrashCount = 4,
           cc_CreatedAt = 0\<rparr>)]"

text \<open>A start of an index and a stop of an instance, made at the epoch and kept for 60 seconds.\<close>

definition sample_start :: "int \<Rightarrow> int \<Rightarrow> PendingStartMessage" where
  "sample_start i keep = NewPendingStartMessage ''id'' 0 0 keep ''app'' ''v1'' i (Num 1)
     PendingStartMessageReasonMissing"

definition sample_stop :: "string \<Rightarrow> PendingStopMessage" where
  "sample_stop guid = NewPendingStopMessage ''id'' 0 0 60 ''app'' ''v1'' guid PendingStopMessageReasonExtra"

definition sample_store :: RealStore where "sample_store = NewStore defaults"

definition empty_memory :: memory where
  "empty_memory = \<lparr>mem_entries = [], mem_posts = [], mem_status = 200, mem_pages = [],
     mem_counters = [], mem_values = []\<rparr>"

definition fresh_memory :: memory where
  "fresh_memory = snd (BumpActualFreshness mem_externals sample_store 0 empty_memory)"

lemma fresh_memory_fresh:
  "VerifyFreshness mem_externals sample_store (time_Unix 1000) fresh_memory = (None, fresh_memory)"
  by code_simp

text \<open>The keys of the sample messages.\<close>

lemma sample_digits: "digit_char 0 = CHR ''0''" "digit_char (Suc 0) = CHR ''1''"
  by (simp_all add: digit_char_def char_of_def bit_iff_odd)

lemma sample_keys [simp]:
  "PendingStartMessage_StoreKey (sample_start 0 k) = ''app-v1-0''"
  "PendingStartMessage_StoreKey (sample_start 1 k) = ''app-v1-1''"
  "PendingStopMessage_StoreKey (sample_stop guid) = guid"
  by (simp_all add: PendingStartMessage_StoreKey_def PendingStopMessage_StoreKey_def sample_start_def
      sample_stop_def itoa_def sample_digits)

lemma sample_messages_ok:
  "start_message_ok (sample_start 0 60)" "start_message_ok (sample_start 1 60)" "pending_ints_ok (sample_stop ''b'')"
  by (simp_all add: start_message_ok_def pending_ints_ok_def sample_start_def sample_stop_def float_ok_def
      float_limit_def in_int64_def Unix_def time_Add_def dur_mult_def second_def wrap64_def)

text \<open>A fresh store in which one instance of the app runs.\<close>

definition app_memory :: memory where
  "app_memory = snd (mem_set
     [leaf_node ''/hm/v0/apps/actual/app,v1/a'' (Raw (InstanceHeartbeat_ToCSV (sample_heartbeat ''a'' 0 InstanceStateRunning))) 0,
      leaf_node ''/hm/v0/dea-presence/dea'' (Raw ''dea'') 0] fresh_memory)"

end
