(* ===== verification/Analyzer_Properties.thy ===== *)
theory Analyzer_Properties imports App_Analyzer_Facts Samples begin

text \<open>
  The properties of \<open>analyzer/app_analyzer.go\<close> and \<open>analyzer/crash_delay.go\<close>: which start and stop
  messages the analysis of one app queues, for which instances, with which priority and when they
  become due. The last part holds the sample apps on which the properties are evaluated.
\<close>

subsection \<open>Exactly which instances are stopped\<close>

definition evacuation_over :: "appAnalyzer \<Rightarrow> int \<Rightarrow> bool" where
  "evacuation_over a i \<longleftrightarrow>
     \<not> IsIndexDesired (az_app a) i \<or> \<not> IsStaged (az_app a) \<or> HasRunningInstanceAtIndex (az_app a) i
   \<or> (\<not> HasStartingInstanceAtIndex (az_app a) i
      \<and> 0 < cc_CrashCount (CrashCountAtIndex (az_app a) i (az_currentTime a)))"

definition is_extra :: "appAnalyzer \<Rightarrow> InstanceHeartbeat \<Rightarrow> bool" where
  "is_extra a h \<longleftrightarrow> IsStartingOrRunning h \<and> \<not> IsIndexDesired (az_app a) (hb_InstanceIndex h)"

definition is_duplicate :: "appAnalyzer \<Rightarrow> InstanceHeartbeat \<Rightarrow> bool" where
  "is_duplicate a h \<longleftrightarrow>
     IsStartingOrRunning h \<and> 0 \<le> hb_InstanceIndex h \<and> IsIndexDesired (az_app a) (hb_InstanceIndex h)
   \<and> 1 < length (StartingOrRunningInstancesAtIndex (az_app a) (hb_InstanceIndex h))"

text \<open>The starts come first: while any start is queued, only evacuated instances are stopped.\<close>

definition expected_stop :: "runtime \<Rightarrow> appAnalyzer \<Rightarrow> InstanceHeartbeat \<Rightarrow> bool" where
  "expected_stop rt a h \<longleftrightarrow>
     (IsEvacuating h \<and> evacuation_over a (hb_InstanceIndex h))
   \<or> ((\<forall>i. expected_start rt a i = None) \<and> (is_extra a h \<or> is_duplicate a h))"

lemma fold_dom:
  assumes "\<And>x s. x \<in> set xs \<Longrightarrow> dom (V (f x s)) = dom (V s) \<union> S x"
  shows "dom (V (fold f xs s)) = dom (V s) \<union> (\<Union>x\<in>set xs. S x)"
  using assms by (induction xs arbitrary: s) auto

lemma stop_view_eqI: "an_stopMessages s = an_stopMessages t \<Longrightarrow> stop_view s = stop_view t"
  by (simp add: stop_view_def fun_eq_iff)

lemma appendStart_stop_view [simp]:
  "stop_view (snd (appendStartMessageIfNotDuplicate a m s)) = stop_view s"
  by (rule stop_view_eqI) (simp add: appendStartMessageIfNotDuplicate_def split: option.split)

lemma draw_stop_view [simp]: "stop_view (draw s) = stop_view s"
  by (rule stop_view_eqI) simp

lemma missing_crashed_stop_view [simp]:
  "stop_view (missing_step rt a p i s) = stop_view s"
  "stop_view (crashed_step rt a p i s) = stop_view s"
proof -
  show "stop_view (missing_step rt a p i s) = stop_view s" by (simp add: missing_step_def)
  show "stop_view (crashed_step rt a p i s) = stop_view s"
    by (rule stop_view_eqI)
      (simp add: crashed_step_def appendStartMessageIfNotDuplicate_def Let_def split: option.split)
qed

definition unqueued_guids :: "appAnalyzer \<Rightarrow> InstanceHeartbeat list \<Rightarrow> string set" where
  "unqueued_guids a hs = {g \<in> hb_InstanceGuid ` set hs. \<not> stop_queued a g}"

lemma addStopMessages_dom:
  "dom (stop_view (addStopMessages rt a i r s)) =
     dom (stop_view s) \<union> unqueued_guids a (EvacuatingInstancesAtIndex (az_app a) i)"
  by (simp add: addStopMessages_def dom_fold_stop_step unqueued_guids_def)

lemma evacuating_step_dom:
  "dom (stop_view (evacuating_step rt a i s)) =
     dom (stop_view s) \<union>
     (if evacuation_over a i then unqueued_guids a (EvacuatingInstancesAtIndex (az_app a) i) else {})"
proof (cases "EvacuatingInstancesAtIndex (az_app a) i")
  case Nil
  then show ?thesis by (simp add: evacuating_step_def unqueued_guids_def)
next
  case (Cons h hs)
  then show ?thesis
    by (auto simp: evacuating_step_def Let_def addStopMessages_dom evacuation_over_def)
qed

lemma in_HeartbeatsByIndex:
  "h \<in> set (app_InstanceHeartbeats a) \<Longrightarrow> hb_InstanceIndex h \<in> fst ` set (HeartbeatsByIndex a)"
proof -
  assume "h \<in> set (app_InstanceHeartbeats a)"
  then have "filter (\<lambda>k. hb_InstanceIndex k = hb_InstanceIndex h) (app_InstanceHeartbeats a) \<noteq> []"
    by (auto simp: filter_empty_conv)
  then have "map_of (HeartbeatsByIndex a) (hb_InstanceIndex h) \<noteq> None"
    by (simp add: HeartbeatsByIndex_def map_of_fold_add_heartbeat)
  then show ?thesis by (simp add: map_of_eq_None_iff)
qed

lemma starts_phase_dom:
  "dom (stop_view (starts_phase rt a s)) = dom (stop_view s) \<union>
     {g. \<not> stop_queued a g \<and> (\<exists>h\<in>set (app_InstanceHeartbeats (az_app a)). hb_InstanceGuid h = g \<and>
           IsEvacuating h \<and> evacuation_over a (hb_InstanceIndex h))}"
proof -
  have keep: "stop_view (generatePendingStartsForCrashedInstances rt a p
      (generatePendingStartsForMissingInstances rt a p s)) = stop_view s" for p
    by (simp add: generatePendingStartsForCrashedInstances_def fold_keeps [where g = stop_view]
        generatePendingStartsForMissingInstances_def)
  show ?thesis
    unfolding starts_phase_def Let_def generatePendingStartsAndStopsForEvacuatingInstances_def
    by (subst fold_dom [where V = stop_view and f = "evacuating_step rt a",
          OF evacuating_step_dom [of rt a]])
      (auto simp: keep unqueued_guids_def EvacuatingInstancesAtIndex_def intro: in_HeartbeatsByIndex)
qed

lemma duplicate_step_dom:
  "dom (stop_view (duplicate_step rt a p s)) =
     dom (stop_view s) \<union> (if stop_queued a (hb_InstanceGuid (snd p)) then {} else {hb_InstanceGuid (snd p)})"
  by (auto simp: duplicate_step_view)

lemma duplicates_at_dom:
  "dom (stop_view (duplicates_at rt a i s)) = dom (stop_view s) \<union>
     (if 1 < length (StartingOrRunningInstancesAtIndex (az_app a) i)
      then unqueued_guids a (StartingOrRunningInstancesAtIndex (az_app a) i) else {})"
proof -
  have "(\<Union>x\<in>set (enumerate n hs). if stop_queued a (hb_InstanceGuid (snd x)) then {}
      else {hb_InstanceGuid (snd x)}) = unqueued_guids a hs" for n and hs :: "InstanceHeartbeat list"
    by (induction hs arbitrary: n) (auto simp: unqueued_guids_def)
  then show ?thesis
    by (simp add: duplicates_at_def Let_def
        fold_dom [where V = stop_view and f = "duplicate_step rt a", OF duplicate_step_dom [of rt a]])
qed

lemma stop_phases_dom:
  assumes "app_ok (az_app a)"
  shows "dom (stop_view (generatePendingStopsForDuplicateInstances rt a
           (generatePendingStopsForExtraInstances rt a s))) = dom (stop_view s) \<union>
     {g. \<not> stop_queued a g \<and> (\<exists>h\<in>set (app_InstanceHeartbeats (az_app a)). hb_InstanceGuid h = g \<and>
           (is_extra a h \<or> is_duplicate a h))}"
  unfolding generatePendingStopsForDuplicateInstances_def generatePendingStopsForExtraInstances_def
  by (subst fold_dom [where V = stop_view and f = "duplicates_at rt a", OF duplicates_at_dom [of rt a]])
    (auto simp: dom_fold_stop_step unqueued_guids_def is_extra_def is_duplicate_def
      ExtraStartingOrRunningInstances_def StartingOrRunningInstancesAtIndex_mem [OF assms]
      split: if_splits)

lemma analyzeApp_stop_dom:
  assumes "app_ok (az_app a)"
  shows "dom (stop_view (analyzeApp rt a (new_analysis n))) =
     {g. \<not> stop_queued a g \<and> (\<exists>h\<in>set (app_InstanceHeartbeats (az_app a)). hb_InstanceGuid h = g \<and>
           expected_stop rt a h)}"
proof -
  have "dom (stop_view (new_analysis n)) = {}" by (auto simp: stop_view_def new_analysis_def)
  then show ?thesis
    by (cases "\<forall>i. expected_start rt a i = None")
      (auto simp: analyzeApp_def Let_def no_starts_iff stop_phases_dom [OF assms] starts_phase_dom
        expected_stop_def)
qed

subsection \<open>Restarts back off\<close>

definition backoff_delay :: "Config \<Rightarrow> int \<Rightarrow> int" where
  "backoff_delay c crashes =
     (if crashes < NumberOfCrashesBeforeBackoffBegins c then 0
      else min (MaximumBackoffDelayInHeartbeats c * uint (HeartbeatPeriod c))
             (StartingBackoffDelayInHeartbeats c * uint (HeartbeatPeriod c)
               * 2 ^ nat (crashes - NumberOfCrashesBeforeBackoffBegins c)))"

definition backoff_ok :: "Config \<Rightarrow> bool" where
  "backoff_ok c \<longleftrightarrow> config_sane c \<and> 0 < StartingBackoffDelayInHeartbeats c
   \<and> StartingBackoffDelayInHeartbeats c \<le> MaximumBackoffDelayInHeartbeats c
   \<and> 0 \<le> NumberOfCrashesBeforeBackoffBegins c \<and> NumberOfCrashesBeforeBackoffBegins c < 2 ^ 62"

lemma backoff_ok_args:
  assumes "backoff_ok c"
  shows "backoff_args_ok (NumberOfCrashesBeforeBackoffBegins c)
           (whole_seconds (StartingBackoffDelay c)) (whole_seconds (MaximumBackoffDelay c))"
    and "whole_seconds (MaximumBackoffDelay c) < 2 ^ 20"
proof -
  have c: "config_sane c" using assms by (simp add: backoff_ok_def)
  have p: "0 < uint (HeartbeatPeriod c)" "uint (HeartbeatPeriod c) < 2 ^ 10"
    using c by (simp_all add: config_sane_def)
  have "MaximumBackoffDelayInHeartbeats c * uint (HeartbeatPeriod c) < 2 ^ 10 * 2 ^ 10"
    using c p by (intro mult_strict_mono) (simp_all add: config_sane_def)
  then show m: "whole_seconds (MaximumBackoffDelay c) < 2 ^ 20"
    by (simp add: MaximumBackoffDelay_sane [OF c])
  have "StartingBackoffDelayInHeartbeats c * uint (HeartbeatPeriod c)
      \<le> whole_seconds (MaximumBackoffDelay c)"
    using assms p unfolding MaximumBackoffDelay_sane [OF c] by (simp add: backoff_ok_def mult_right_mono)
  then show "backoff_args_ok (NumberOfCrashesBeforeBackoffBegins c)
      (whole_seconds (StartingBackoffDelay c)) (whole_seconds (MaximumBackoffDelay c))"
    using assms p m by (simp add: backoff_args_ok_def backoff_ok_def StartingBackoffDelay_sane [OF c])
qed

lemma crashed_send_on:
  assumes c: "backoff_ok (az_conf a)"
    and n: "cc_CrashCount (CrashCountAtIndex (az_app a) i (az_currentTime a)) < 2 ^ 63"
  shows "SendOn (crashed_message rt a p i g) = Unix (az_currentTime a)
           + backoff_delay (az_conf a) (cc_CrashCount (CrashCountAtIndex (az_app a) i (az_currentTime a)))"
proof -
  let ?c = "CrashCountAtIndex (az_app a) i (az_currentTime a)"
  let ?d = "computeDelayForCrashCount rt a ?c"
  have sane: "config_sane (az_conf a)" using c by (simp add: backoff_ok_def)
  have d: "?d = backoff_delay (az_conf a) (cc_CrashCount ?c)"
    using ComputeCrashDelay_eq_min [OF backoff_ok_args(1) [OF c] n]
    by (simp add: computeDelayForCrashCount_def backoff_delay_def
        StartingBackoffDelay_sane [OF sane] MaximumBackoffDelay_sane [OF sane])
  have "0 \<le> ?d" "?d < 2 ^ 20"
    using ComputeCrashDelay_bounds [OF backoff_ok_args(1) [OF c] n, of "rt_unrep rt"]
      backoff_ok_args(2) [OF c] by (simp_all add: computeDelayForCrashCount_def)
  then have "in_int64 (?d * second)"
    by (intro in_int64_mult_bound [where A = "2 ^ 20" and B = second]) (simp_all add: second_def)
  then show ?thesis
    by (simp add: crashed_message_def dur_mult_def wrap64_id Unix_Add_seconds flip: d)
qed

lemma start_reasons:
  "StartReason (missing_message a p i g) \<noteq> PendingStartMessageReasonCrashed"
  "StartReason (evacuating_message a i g) \<noteq> PendingStartMessageReasonCrashed"
  by (simp_all add: missing_message_def evacuating_message_def reason_defs)

subsection \<open>Sample apps\<close>

definition sample_runtime :: runtime where
  "sample_runtime = \<lparr>rt_Guid = itoa \<circ> int, rt_range = (\<lambda>_. 0), rt_unrep = 0\<rparr>"

text \<open>Three instances are wanted: one runs, one has crashed, one is missing, one evacuates too late.\<close>

definition starting_analyzer :: appAnalyzer where
  "starting_analyzer = newAppAnalyzer
     (sample_app 3 [sample_heartbeat ''a'' 0 InstanceStateRunning,
                    sample_heartbeat ''b'' 1 InstanceStateCrashed,
                    sample_heartbeat ''c'' 0 InstanceStateEvacuating])
     (time_Unix 1000) [] [] defaults"

text \<open>One instance is wanted, and two run; a third runs at an index nobody wants.\<close>

definition stopping_analyzer :: appAnalyzer where
  "stopping_analyzer = newAppAnalyzer
     (sample_app 1 [sample_heartbeat ''a'' 0 InstanceStateRunning,
                    sample_heartbeat ''b'' 0 InstanceStateRunning,
                    sample_heartbeat ''c'' 1 InstanceStateStarting])
     (time_Unix 1000) [] [] defaults"

lemma sample_analyzers_ok:
  "app_ok (az_app starting_analyzer)" "app_ok (az_app stopping_analyzer)"
  by (simp_all add: starting_analyzer_def stopping_analyzer_def newAppAnalyzer_def sample_app_def
      gomap_ok_def app_ok_NewApp)

subsection \<open>Properties\<close>

text \<open>
  C1. The analysis of an app queues exactly the expected start messages. For every index the
  message under its key is, up to the random message id, the one the rules give: none when one is
  already queued; an urgent one when an evacuating instance has no replacement; a delayed one when
  the instance crashed; one after the grace period when it is missing. No other key is written.
\<close>

theorem analyzeApp_start_messages:
  "map_option anonymous (map_of (an_startMessages (analyzeApp rt a (new_analysis n))) (start_key a i))
     = expected_start rt a i
   \<and> dom (map_of (an_startMessages (analyzeApp rt a (new_analysis n)))) \<subseteq> range (start_key a)"
  using analyzeApp_expected [of rt a n i]
  by (auto simp: start_view_def elim: analyzeApp_start_cases)

text \<open>
  C2. Whatever start message the analysis queues is for a desired index at which no instance
  starts or runs, for which no start was queued before; it is unsent, will be verified by the
  sender, and its priority is 2 for an evacuation and the fraction of missing instances, in
  (0, 1], otherwise.
\<close>

theorem analyzeApp_start_sound:
  assumes "map_of (an_startMessages (analyzeApp rt a (new_analysis n))) k = Some m"
  shows "k = PendingStartMessage_StoreKey m \<and> map_of (az_existingPendingStartMessages a) k = None
     \<and> AppGuid m = app_AppGuid (az_app a) \<and> AppVersion m = app_AppVersion (az_app a)
     \<and> IsIndexDesired (az_app a) (IndexToStart m)
     \<and> \<not> HasStartingOrRunningInstanceAtIndex (az_app a) (IndexToStart m)
     \<and> SentOn m = 0 \<and> \<not> SkipVerification m
     \<and> (if StartReason m = PendingStartMessageReasonEvacuating then Priority m = Num 2
        else \<exists>p. Priority m = Num p \<and> 0 < p \<and> p \<le> 1)"
  using assms by (rule queued_start_sound)

theorem analyzeApp_start_sound_witness:
  "\<exists>m. map_of (an_startMessages (analyzeApp sample_runtime starting_analyzer (new_analysis 0)))
         ''app-v1-2'' = Some m
     \<and> StartReason m = PendingStartMessageReasonMissing
     \<and> \<not> HasStartingOrRunningInstanceAtIndex (az_app starting_analyzer) (IndexToStart m)"
proof -
  have "map_option StartReason (map_of (an_startMessages
      (analyzeApp sample_runtime starting_analyzer (new_analysis 0))) ''app-v1-2'')
      = Some PendingStartMessageReasonMissing"
    by code_simp
  then obtain m where "map_of (an_startMessages
      (analyzeApp sample_runtime starting_analyzer (new_analysis 0))) ''app-v1-2'' = Some m"
      "StartReason m = PendingStartMessageReasonMissing"
    by auto
  then show ?thesis using analyzeApp_start_sound by blast
qed

text \<open>
  C3. A stop is queued for exactly these instances: evacuating ones whose evacuation is over; and,
  when no start is needed, those that start or run at an index that is not desired or beside
  another one at the same index. An instance whose stop is already queued gets no second one.
\<close>

theorem analyzeApp_stop_messages:
  assumes "app_ok (az_app a)"
  shows "map_of (an_stopMessages (analyzeApp rt a (new_analysis n))) g \<noteq> None \<longleftrightarrow>
     map_of (az_existingPendingStopMessages a) g = None
   \<and> (\<exists>h\<in>set (app_InstanceHeartbeats (az_app a)). hb_InstanceGuid h = g \<and> expected_stop rt a h)"
  using analyzeApp_stop_dom [OF assms, of rt n]
  by (simp add: set_eq_iff stop_view_dom stop_queued_def)

theorem analyzeApp_stop_messages_witness:
  "map_of (an_stopMessages (analyzeApp sample_runtime stopping_analyzer (new_analysis 0))) ''c'' \<noteq> None
   \<and> (\<exists>h\<in>set (app_InstanceHeartbeats (az_app stopping_analyzer)).
        hb_InstanceGuid h = ''c'' \<and> expected_stop sample_runtime stopping_analyzer h)"
proof -
  have "map_of (an_stopMessages (analyzeApp sample_runtime stopping_analyzer (new_analysis 0))) ''c'' \<noteq> None"
    by code_simp
  then show ?thesis using analyzeApp_stop_messages [OF sample_analyzers_ok(2)] by blast
qed

text \<open>
  C4. While the analysis queues a start for the app, every stop it queues is for an instance that
  evacuates: neither extra nor duplicate instances are stopped, and an evacuating instance at a
  desired index only once a replacement runs, the app has crashed there or is not staged.
\<close>

theorem analyzeApp_starts_before_stops:
  assumes "app_ok (az_app a)"
    and "an_startMessages (analyzeApp rt a (new_analysis n)) \<noteq> []"
    and "map_of (an_stopMessages (analyzeApp rt a (new_analysis n))) g = Some m"
  shows "g = InstanceGuid m \<and> named_by a m (evacuation_justified a m)"
  using analyzeApp_stops(2) [OF assms(1,2)] assms(3) by (simp add: stops_all_def)

theorem analyzeApp_starts_before_stops_witness:
  "\<exists>m. map_of (an_stopMessages (analyzeApp sample_runtime starting_analyzer (new_analysis 0))) ''c'' = Some m
     \<and> named_by starting_analyzer m (evacuation_justified starting_analyzer m)"
proof -
  have "an_startMessages (analyzeApp sample_runtime starting_analyzer (new_analysis 0)) \<noteq> []
      \<and> map_of (an_stopMessages (analyzeApp sample_runtime starting_analyzer (new_analysis 0))) ''c'' \<noteq> None"
    by code_simp
  then show ?thesis
    using analyzeApp_starts_before_stops [OF sample_analyzers_ok(1)] by blast
qed

text \<open>
  C5. When several instances start or run at one desired index and no start is queued, their stops
  are staggered: the stop of the \<open>j\<close>-th becomes due \<open>4 + j\<close> grace periods from now, so that no two
  of them are due within one grace period of each other.
\<close>

theorem analyzeApp_duplicates_staggered:
  assumes "app_ok (az_app a)"
    and "distinct (map hb_InstanceGuid (app_InstanceHeartbeats (az_app a)))"
    and "config_sane (az_conf a)"
    and "an_startMessages (analyzeApp rt a (new_analysis n)) = []"
    and "0 \<le> i" and "IsIndexDesired (az_app a) i"
    and "1 < length (StartingOrRunningInstancesAtIndex (az_app a) i)"
    and "j < length (StartingOrRunningInstancesAtIndex (az_app a) i)" and "j < 4000"
    and "g = hb_InstanceGuid (StartingOrRunningInstancesAtIndex (az_app a) i ! j)"
    and "map_of (az_existingPendingStopMessages a) g = None"
  shows "map_option (\<lambda>m. (SendOn m, StopReason m))
           (map_of (an_stopMessages (analyzeApp rt a (new_analysis n))) g) =
         Some (Unix (az_currentTime a) + (4 + int j) * GracePeriod (az_conf a),
               PendingStopMessageReasonDuplicate)"
proof -
  have "an_startMessages (starts_phase rt a (new_analysis n)) = []"
    using assms(4) by (simp add: analyzeApp_starts)
  then show ?thesis
    using duplicate_schedule [OF assms(1,2,5,6,8,7)] assms(9-11) duplicate_send_on [OF assms(3)]
    by (simp add: analyzeApp_def Let_def stop_view_def stop_queued_def)
qed

theorem analyzeApp_duplicates_staggered_witness:
  "map_option (\<lambda>m. (SendOn m, StopReason m)) (map_of (an_stopMessages
       (analyzeApp sample_runtime stopping_analyzer (new_analysis 0))) ''b'') =
     Some (1150, PendingStopMessageReasonDuplicate)"
proof -
  have conf: "config_sane (az_conf stopping_analyzer)" "GracePeriod (az_conf stopping_analyzer) = 30"
    by (simp_all add: stopping_analyzer_def newAppAnalyzer_def defaults_sane GracePeriod_defaults)
  have at: "map hb_InstanceGuid (StartingOrRunningInstancesAtIndex (az_app stopping_analyzer) 0) = [''a'', ''b'']"
    by code_simp
  then have len: "length (StartingOrRunningInstancesAtIndex (az_app stopping_analyzer) 0) = 2"
    by (metis length_map length_Cons list.size(3) numeral_2_eq_2)
  with at have "''b'' = hb_InstanceGuid (StartingOrRunningInstancesAtIndex (az_app stopping_analyzer) 0 ! 1)"
    by (metis nth_Cons_Suc nth_Cons_0 nth_map One_nat_def lessI numeral_2_eq_2)
  moreover have "distinct (map hb_InstanceGuid (app_InstanceHeartbeats (az_app stopping_analyzer)))"
      "an_startMessages (analyzeApp sample_runtime stopping_analyzer (new_analysis 0)) = []"
      "IsIndexDesired (az_app stopping_analyzer) 0"
      "Unix (az_currentTime stopping_analyzer) = 1000"
      "map_of (az_existingPendingStopMessages stopping_analyzer) ''b'' = None"
    by code_simp+
  ultimately show ?thesis
    using analyzeApp_duplicates_staggered
        [OF sample_analyzers_ok(2) _ conf(1), where i = 0 and j = 1 and g = "''b''" and n = 0
          and rt = sample_runtime] len conf(2)
    by simp
qed






end
