(* ===== verification/Store_Actual.thy ===== *)
theory Store_Actual imports Store_Core begin

text \<open>
  \<open>store/actual_state.go\<close>: the heartbeats of all instances in the store, the cache in front of
  them, and the set of DEAs whose presence has not expired.

  \<open>heartbeatCache\<close> lists the instance guids of every DEA, \<open>instanceHeartbeatCache\<close> holds their
  heartbeats; \<open>SyncHeartbeats\<close> brings both and the store in line with what the DEAs report. The
  order in which Go ranges over a map is the argument \<open>ch\<close>.
\<close>

subsection \<open>Keys and nodes\<close>

definition instanceHeartbeatStoreKey :: "RealStore \<Rightarrow> string \<Rightarrow> string \<Rightarrow> string \<Rightarrow> string" where
  "instanceHeartbeatStoreKey store appGuid appVersion instanceGuid =
     SchemaRoot store @ ''/apps/actual/'' @ AppKey appGuid appVersion @ ''/'' @ instanceGuid"

definition deaPresenceNode :: "RealStore \<Rightarrow> string \<Rightarrow> store_node" where
  "deaPresenceNode store deaGuid =
     leaf_node (SchemaRoot store @ ''/dea-presence/'' @ deaGuid) (Raw deaGuid)
       (HeartbeatTTL (st_config store))"

definition heartbeat_key :: "RealStore \<Rightarrow> InstanceHeartbeat \<Rightarrow> string" where
  "heartbeat_key store h =
     instanceHeartbeatStoreKey store (hb_AppGuid h) (hb_AppVersion h) (hb_InstanceGuid h)"

definition storeNodeForInstanceHeartbeat :: "RealStore \<Rightarrow> InstanceHeartbeat \<Rightarrow> store_node" where
  "storeNodeForInstanceHeartbeat store instanceHeartbeat =
     leaf_node (heartbeat_key store instanceHeartbeat) (Raw (InstanceHeartbeat_ToCSV instanceHeartbeat)) 0"

subsection \<open>Reading\<close>

definition GetDeaCache :: "'w externals \<Rightarrow> time \<Rightarrow> RealStore \<Rightarrow> 'w
    \<Rightarrow> (hm_error + string list) \<times> RealStore \<times> 'w" where
  "GetDeaCache ex now store w =
     (if deaCacheExpirationTimestamp store < now
      then let (summaryNodes, w') = ad_ListRecursively ex (SchemaRoot store @ ''/dea-presence'') w;
               fill = (\<lambda>nodes.
                 let cache = remdups (map (raw_text \<circ> sn_Value) nodes);
                     store' = store\<lparr>deaCache := cache, deaCacheExpirationTimestamp :=
                       time_Add now (dur_mult (sint (HeartbeatPeriod (st_config store))) second)\<rparr>
                 in (Inr cache, store', w'))
           in (case summaryNodes of
                 Inl ErrorKeyNotFound \<Rightarrow> fill []
               | Inl err \<Rightarrow> (Inl (StoreError err), store, w')
               | Inr node \<Rightarrow> fill (sn_ChildNodes node))
      else (Inr (deaCache store), store, w))"

text \<open>
  One node below an app: the guids are read off its key, its value is the CSV line. A key with
  too few components makes the program panic. The test uses the cache of the store, not the
  parameter of the Go function.
\<close>

definition parse_heartbeat_node :: "store_node \<Rightarrow> hm_error + InstanceHeartbeat" where
  "parse_heartbeat_node node =
     (let components = split_on CHR ''/'' (sn_Key node) in
      if length components < 2 then Inl IndexPanic
      else let instanceGuid = components ! (length components - 1);
               appGuidVersion = split_on CHR '','' (components ! (length components - 2))
           in if length appGuidVersion < 2 then Inl IndexPanic
              else case NewInstanceHeartbeatFromCSV (appGuidVersion ! 0) (appGuidVersion ! 1) instanceGuid
                          (raw_text (sn_Value node)) of
                     Inl err \<Rightarrow> Inl (CsvError err)
                   | Inr heartbeat \<Rightarrow> Inr heartbeat)"

fun heartbeats_loop :: "RealStore \<Rightarrow> store_node list \<Rightarrow> InstanceHeartbeat list \<Rightarrow> string list
    \<Rightarrow> hm_error + InstanceHeartbeat list \<times> string list" where
  "heartbeats_loop store [] results toDelete = Inr (results, toDelete)"
| "heartbeats_loop store (node # nodes) results toDelete =
     (case parse_heartbeat_node node of
        Inl err \<Rightarrow> Inl err
      | Inr heartbeat \<Rightarrow>
          if hb_DeaGuid heartbeat \<in> set (deaCache store)
          then heartbeats_loop store nodes (results @ [heartbeat]) toDelete
          else heartbeats_loop store nodes results (toDelete @ [sn_Key node]))"

definition heartbeatsForNode :: "RealStore \<Rightarrow> store_node \<Rightarrow> string list
    \<Rightarrow> hm_error + InstanceHeartbeat list \<times> string list" where
  "heartbeatsForNode store node unused = heartbeats_loop store (sn_ChildNodes node) [] []"

text \<open>Expired keys are deleted; a missing one does not matter.\<close>

definition delete_expired :: "'w externals \<Rightarrow> string list \<Rightarrow> 'a \<Rightarrow> RealStore \<Rightarrow> 'w
    \<Rightarrow> (hm_error + 'a) \<times> RealStore \<times> 'w" where
  "delete_expired ex keys results store w =
     (case ad_Delete ex keys w of
        (Some ErrorKeyNotFound, w') \<Rightarrow> (Inr results, store, w')
      | (Some err, w') \<Rightarrow> (Inl (StoreError err), store, w')
      | (None, w') \<Rightarrow> (Inr results, store, w'))"

text \<open>
  The loop over the apps. When the heartbeats of one app cannot be parsed the whole function
  returns an empty list and no error.
\<close>

fun all_heartbeats_loop :: "RealStore \<Rightarrow> string list \<Rightarrow> store_node list \<Rightarrow> InstanceHeartbeat list
    \<Rightarrow> string list \<Rightarrow> hm_error + InstanceHeartbeat list \<times> string list" where
  "all_heartbeats_loop store deas [] results expiredKeys = Inr (results, expiredKeys)"
| "all_heartbeats_loop store deas (actualNode # nodes) results expiredKeys =
     (case heartbeatsForNode store actualNode deas of
        Inl err \<Rightarrow> Inl err
      | Inr (heartbeats, toDelete) \<Rightarrow>
          all_heartbeats_loop store deas nodes (results @ heartbeats) (expiredKeys @ toDelete))"

definition GetInstanceHeartbeats :: "'w externals \<Rightarrow> time \<Rightarrow> RealStore \<Rightarrow> 'w
    \<Rightarrow> (hm_error + InstanceHeartbeat list) \<times> RealStore \<times> 'w" where
  "GetInstanceHeartbeats ex now store w =
     (case ad_ListRecursively ex (SchemaRoot store @ ''/apps/actual'') w of
        (Inl ErrorKeyNotFound, w1) \<Rightarrow> (Inr [], store, w1)
      | (Inl err, w1) \<Rightarrow> (Inl (StoreError err), store, w1)
      | (Inr node, w1) \<Rightarrow>
          (case GetDeaCache ex now store w1 of
             (Inl err, store2, w2) \<Rightarrow> (Inl err, store2, w2)
           | (Inr deas, store2, w2) \<Rightarrow>
               (case all_heartbeats_loop store2 deas (sn_ChildNodes node) [] [] of
                  Inl IndexPanic \<Rightarrow> (Inl IndexPanic, store2, w2)
                | Inl err \<Rightarrow> (Inr [], store2, w2)
                | Inr (results, expiredKeys) \<Rightarrow> delete_expired ex expiredKeys results store2 w2)))"

definition GetInstanceHeartbeatsForApp :: "'w externals \<Rightarrow> time \<Rightarrow> string \<Rightarrow> string \<Rightarrow> RealStore \<Rightarrow> 'w
    \<Rightarrow> (hm_error + InstanceHeartbeat list) \<times> RealStore \<times> 'w" where
  "GetInstanceHeartbeatsForApp ex now appGuid appVersion store w =
     (case ad_ListRecursively ex (SchemaRoot store @ ''/apps/actual/'' @ AppKey appGuid appVersion) w of
        (Inl ErrorKeyNotFound, w1) \<Rightarrow> (Inr [], store, w1)
      | (Inl err, w1) \<Rightarrow> (Inl (StoreError err), store, w1)
      | (Inr node, w1) \<Rightarrow>
          (case GetDeaCache ex now store w1 of
             (Inl err, store2, w2) \<Rightarrow> (Inl err, store2, w2)
           | (Inr deas, store2, w2) \<Rightarrow>
               (case heartbeatsForNode store2 node deas of
                  Inl err \<Rightarrow> (Inl err, store2, w2)
                | Inr (results, expiredKeys) \<Rightarrow> delete_expired ex expiredKeys results store2 w2)))"

subsection \<open>The cache\<close>

definition dea_instances :: "(string, string list) gomap \<Rightarrow> string \<Rightarrow> string list" where
  "dea_instances cache dea = (case map_of cache dea of None \<Rightarrow> [] | Some guids \<Rightarrow> guids)"

definition cache_heartbeat :: "InstanceHeartbeat \<Rightarrow> RealStore \<Rightarrow> RealStore" where
  "cache_heartbeat heartbeat store = store\<lparr>
     instanceHeartbeatCache := mput (hb_InstanceGuid heartbeat) heartbeat (instanceHeartbeatCache store),
     heartbeatCache := mput (hb_DeaGuid heartbeat)
       (List.insert (hb_InstanceGuid heartbeat) (dea_instances (heartbeatCache store) (hb_DeaGuid heartbeat)))
       (heartbeatCache store)\<rparr>"

definition loadCache :: "'w externals \<Rightarrow> time \<Rightarrow> RealStore \<Rightarrow> 'w \<Rightarrow> hm_error option \<times> RealStore \<times> 'w" where
  "loadCache ex now store w =
     (if StoreHeartbeatCacheRefreshInterval (st_config store)
           \<le> time_Sub now (instanceHeartbeatCacheTimestamp store)
      then (case GetInstanceHeartbeats ex now store w of
              (Inl err, store', w') \<Rightarrow> (Some err, store', w')
            | (Inr heartbeats, store', w') \<Rightarrow>
                (None, fold cache_heartbeat heartbeats (store'\<lparr>instanceHeartbeatCacheTimestamp := now,
                   heartbeatCache := [], instanceHeartbeatCache := []\<rparr>), w'))
      else (None, store, w))"

subsection \<open>Syncing heartbeats\<close>

text \<open>What the loops over the heartbeats fill: the nodes to save, the heartbeats to evacuate, the
  keys to delete, and the caches.\<close>

record sync_state =
  sy_store :: RealStore
  sy_nodes :: "store_node list"
  sy_evac :: "InstanceHeartbeat list"
  sy_keys :: "string list"

definition sync_instance :: "string \<Rightarrow> InstanceHeartbeat \<Rightarrow> sync_state \<Rightarrow> sync_state" where
  "sync_instance dea incoming s =
     (let store = sy_store s;
          found = map_of (instanceHeartbeatCache store) (hb_InstanceGuid incoming);
          existing = (case found of None \<Rightarrow> zero_InstanceHeartbeat | Some h \<Rightarrow> h)
      in if found \<noteq> None \<and> hb_State existing = hb_State incoming then s
         else s\<lparr>
           sy_evac := sy_evac s @
             (if hb_State incoming = InstanceStateEvacuating \<and> hb_State existing \<noteq> InstanceStateCrashed
              then [incoming] else []),
           sy_nodes := sy_nodes s @ [storeNodeForInstanceHeartbeat store incoming],
           sy_store := store\<lparr>
             instanceHeartbeatCache :=
               mput (hb_InstanceGuid incoming) incoming (instanceHeartbeatCache store),
             heartbeatCache := mput dea
               (List.insert (hb_InstanceGuid incoming) (dea_instances (heartbeatCache store) dea))
               (heartbeatCache store)\<rparr>\<rparr>)"

text \<open>The instances of the DEA that it reports no longer.\<close>

definition sync_vanished :: "choice \<Rightarrow> string \<Rightarrow> string list \<Rightarrow> sync_state \<Rightarrow> sync_state" where
  "sync_vanished ch dea incomingGuids s =
     (let store = sy_store s;
          vanished = filter (\<lambda>g. g \<notin> set incomingGuids)
            (go_range ch (dea_instances (heartbeatCache store) dea));
          existing = map (\<lambda>g. case map_of (instanceHeartbeatCache store) g of
            None \<Rightarrow> zero_InstanceHeartbeat | Some h \<Rightarrow> h) vanished;
          cacheKeysToDelete = map hb_InstanceGuid existing;
          remaining = filter (\<lambda>g. g \<notin> set cacheKeysToDelete) (dea_instances (heartbeatCache store) dea)
      in s\<lparr>
        sy_keys := sy_keys s @ map (heartbeat_key store) existing,
        sy_store := store\<lparr>
          instanceHeartbeatCache := fold mdel cacheKeysToDelete (instanceHeartbeatCache store),
          heartbeatCache := (if length remaining = 0 then mdel dea (heartbeatCache store)
                             else mput dea remaining (heartbeatCache store))\<rparr>\<rparr>)"

definition sync_heartbeat :: "choice \<Rightarrow> Heartbeat \<Rightarrow> sync_state \<Rightarrow> sync_state" where
  "sync_heartbeat ch incoming s =
     (let store = sy_store s; dea = DeaGuid incoming;
          s1 = s\<lparr>
            sy_store := store\<lparr>heartbeatCache :=
              mput dea (dea_instances (heartbeatCache store) dea) (heartbeatCache store)\<rparr>,
            sy_nodes := sy_nodes s @ [deaPresenceNode store dea]\<rparr>
      in sync_vanished ch dea (map hb_InstanceGuid (InstanceHeartbeats incoming))
           (fold (sync_instance dea) (InstanceHeartbeats incoming) s1))"

definition latestHeartbeats :: "Heartbeat list \<Rightarrow> (string, Heartbeat) gomap" where
  "latestHeartbeats incoming = fold (\<lambda>h. mput (DeaGuid h) h) incoming []"

definition sync_caches :: "choice \<Rightarrow> Heartbeat list \<Rightarrow> RealStore \<Rightarrow> sync_state" where
  "sync_caches ch incoming store =
     fold (\<lambda>(dea, h). sync_heartbeat ch h) (go_range ch (latestHeartbeats incoming))
       \<lparr>sy_store = store, sy_nodes = [], sy_evac = [], sy_keys = []\<rparr>"

definition SyncHeartbeats :: "'w externals \<Rightarrow> time \<Rightarrow> choice \<Rightarrow> Heartbeat list \<Rightarrow> RealStore \<Rightarrow> 'w
    \<Rightarrow> (InstanceHeartbeat list \<times> hm_error option) \<times> RealStore \<times> 'w" where
  "SyncHeartbeats ex now ch incomingHeartbeats store w =
     (case loadCache ex now store w of
        (Some err, store1, w1) \<Rightarrow> (([], Some err), store1, w1)
      | (None, store1, w1) \<Rightarrow>
          (let s = sync_caches ch incomingHeartbeats store1 in
           case ad_SetMulti ex (sy_nodes s) w1 of
             (Some err, w2) \<Rightarrow> ((sy_evac s, Some (StoreError err)), sy_store s, w2)
           | (None, w2) \<Rightarrow>
               (case ad_Delete ex (sy_keys s) w2 of
                  (Some ErrorKeyNotFound, w3) \<Rightarrow> ((sy_evac s, None), sy_store s, w3)
                | (Some err, w3) \<Rightarrow> ((sy_evac s, Some (StoreError err)), sy_store s, w3)
                | (None, w3) \<Rightarrow> ((sy_evac s, None), sy_store s, w3))))"

end
