(* ===== verification/Store_Apps.thy ===== *)
theory Store_Apps imports Store_Actual App_Model begin

text \<open>
  \<open>store/crash_count.go\<close> and \<open>store/apps.go\<close>: crash counts in the store, and the apps put together
  from heartbeats and crash counts.
\<close>

subsection \<open>Crash counts\<close>

definition crashCountStoreKey :: "RealStore \<Rightarrow> CrashCountRec \<Rightarrow> string" where
  "crashCountStoreKey store crashCount =
     SchemaRoot store @ ''/apps/crashes/'' @ AppKey (cc_AppGuid crashCount) (cc_AppVersion crashCount)
     @ ''/'' @ itoa (cc_InstanceIndex crashCount)"

definition crash_count_ttl :: "Config \<Rightarrow> 64 word" where
  "crash_count_ttl conf = word_of_int (whole_seconds (MaximumBackoffDelay conf)) * 2"

definition SaveCrashCounts ::
    "'w externals \<Rightarrow> RealStore \<Rightarrow> CrashCountRec list \<Rightarrow> 'w \<Rightarrow> hm_error option \<times> 'w" where
  "SaveCrashCounts ex store crashCounts w = store_result (ad_SetMulti ex
     (map (\<lambda>crashCount. leaf_node (crashCountStoreKey store crashCount) (CrashCount_ToJSON crashCount)
                (crash_count_ttl (st_config store))) crashCounts) w)"

fun crashCounts_loop :: "store_node list \<Rightarrow> CrashCountRec list \<Rightarrow> hm_error + CrashCountRec list" where
  "crashCounts_loop [] results = Inr results"
| "crashCounts_loop (crashNode # nodes) results =
     (case NewCrashCountFromJSON (sn_Value crashNode) of
        None \<Rightarrow> Inl DecodeError
      | Some crashCount \<Rightarrow> crashCounts_loop nodes (results @ [crashCount]))"

definition crashCountsForNode :: "store_node \<Rightarrow> hm_error + CrashCountRec list" where
  "crashCountsForNode node = crashCounts_loop (sn_ChildNodes node) []"

fun all_crashCounts_loop :: "store_node list \<Rightarrow> CrashCountRec list \<Rightarrow> CrashCountRec list" where
  "all_crashCounts_loop [] results = results"
| "all_crashCounts_loop (crashNode # nodes) results =
     (case crashCountsForNode crashNode of
        Inl err \<Rightarrow> []
      | Inr crashCounts \<Rightarrow> all_crashCounts_loop nodes (results @ crashCounts))"

definition getCrashCounts :: "'w externals \<Rightarrow> RealStore \<Rightarrow> 'w \<Rightarrow> (hm_error + CrashCountRec list) \<times> 'w" where
  "getCrashCounts ex store w =
     (case ad_ListRecursively ex (SchemaRoot store @ ''/apps/crashes'') w of
        (Inl ErrorKeyNotFound, w') \<Rightarrow> (Inr [], w')
      | (Inl err, w') \<Rightarrow> (Inl (StoreError err), w')
      | (Inr node, w') \<Rightarrow> (Inr (all_crashCounts_loop (sn_ChildNodes node) []), w'))"

definition getCrashCountForApp ::
    "'w externals \<Rightarrow> RealStore \<Rightarrow> string \<Rightarrow> string \<Rightarrow> 'w \<Rightarrow> (hm_error + CrashCountRec list) \<times> 'w" where
  "getCrashCountForApp ex store appGuid appVersion w =
     (case ad_ListRecursively ex (SchemaRoot store @ ''/apps/crashes/'' @ AppKey appGuid appVersion) w of
        (Inl ErrorKeyNotFound, w') \<Rightarrow> (Inr [], w')
      | (Inl err, w') \<Rightarrow> (Inl (StoreError err), w')
      | (Inr node, w') \<Rightarrow> (crashCountsForNode node, w'))"

subsection \<open>Representations\<close>

record appRepresentation =
  actualState :: "InstanceHeartbeat list"
  crashCounts :: "CrashCountRec list"

definition representation_id :: "string \<Rightarrow> string \<Rightarrow> string" where
  "representation_id appGuid appVersion = appGuid @ ''-'' @ appVersion"

definition representationForAppGuidVersion ::
    "(string, appRepresentation) gomap \<Rightarrow> string \<Rightarrow> string \<Rightarrow> appRepresentation" where
  "representationForAppGuidVersion representations appGuid appVersion =
     (case map_of representations (representation_id appGuid appVersion) of
        None \<Rightarrow> \<lparr>actualState = [], crashCounts = []\<rparr>
      | Some rep \<Rightarrow> rep)"

definition representsAnApp :: "appRepresentation \<Rightarrow> bool" where
  "representsAnApp rep \<longleftrightarrow> length (actualState rep) > 0"

definition buildApp :: "appRepresentation \<Rightarrow> App option" where
  "buildApp rep =
     (let (appGuid, appVersion) = (case actualState rep of
            [] \<Rightarrow> ([], []) | h # hs \<Rightarrow> (hb_AppGuid h, hb_AppVersion h))
      in if appGuid = [] \<or> appVersion = [] then None
         else Some (NewApp appGuid appVersion zero_DesiredAppState (actualState rep)
                (fold (\<lambda>crashCount. mput (cc_InstanceIndex crashCount) crashCount)
                  (crashCounts rep) [])))"

definition add_actual ::
    "InstanceHeartbeat \<Rightarrow> (string, appRepresentation) gomap \<Rightarrow> (string, appRepresentation) gomap" where
  "add_actual h m =
     (let r = representationForAppGuidVersion m (hb_AppGuid h) (hb_AppVersion h)
      in mput (representation_id (hb_AppGuid h) (hb_AppVersion h))
           (r\<lparr>actualState := actualState r @ [h]\<rparr>) m)"

definition add_crash_count ::
    "CrashCountRec \<Rightarrow> (string, appRepresentation) gomap \<Rightarrow> (string, appRepresentation) gomap" where
  "add_crash_count c m =
     (let r = representationForAppGuidVersion m (cc_AppGuid c) (cc_AppVersion c)
      in mput (representation_id (cc_AppGuid c) (cc_AppVersion c))
           (r\<lparr>crashCounts := crashCounts r @ [c]\<rparr>) m)"

definition representations ::
    "InstanceHeartbeat list \<Rightarrow> CrashCountRec list \<Rightarrow> (string, appRepresentation) gomap" where
  "representations hs cs = fold add_crash_count cs (fold add_actual hs [])"

definition add_app :: "string \<times> appRepresentation \<Rightarrow> (string, App) gomap \<Rightarrow> (string, App) gomap" where
  "add_app = (\<lambda>(key, rep) results.
     if representsAnApp rep
     then (case buildApp rep of
             None \<Rightarrow> results
           | Some app \<Rightarrow> mput (AppKey (app_AppGuid app) (app_AppVersion app)) app results)
     else results)"

definition build_apps :: "choice \<Rightarrow> InstanceHeartbeat list \<Rightarrow> CrashCountRec list \<Rightarrow> (string, App) gomap" where
  "build_apps ch hs cs = fold add_app (go_range ch (representations hs cs)) []"

subsection \<open>Apps\<close>

definition GetApp :: "'w externals \<Rightarrow> time \<Rightarrow> string \<Rightarrow> string \<Rightarrow> RealStore \<Rightarrow> 'w
    \<Rightarrow> (hm_error + App) \<times> RealStore \<times> 'w" where
  "GetApp ex now appGuid appVersion store w =
     (case GetInstanceHeartbeatsForApp ex now appGuid appVersion store w of
        (Inl err, store1, w1) \<Rightarrow> (Inl err, store1, w1)
      | (Inr actual, store1, w1) \<Rightarrow>
          (if \<not> representsAnApp \<lparr>actualState = actual, crashCounts = []\<rparr>
           then (Inl AppNotFoundError, store1, w1)
           else (case getCrashCountForApp ex store1 appGuid appVersion w1 of
                   (Inl err, w2) \<Rightarrow> (Inl err, store1, w2)
                 | (Inr counts, w2) \<Rightarrow>
                     (case buildApp \<lparr>actualState = actual, crashCounts = counts\<rparr> of
                        None \<Rightarrow> (Inl AppNotFoundError, store1, w2)
                      | Some app \<Rightarrow> (Inr app, store1, w2)))))"

definition GetApps :: "'w externals \<Rightarrow> time \<Rightarrow> choice \<Rightarrow> RealStore \<Rightarrow> 'w
    \<Rightarrow> (hm_error + (string, App) gomap) \<times> RealStore \<times> 'w" where
  "GetApps ex now ch store w =
     (case GetInstanceHeartbeats ex now store w of
        (Inl err, store1, w1) \<Rightarrow> (Inl err, store1, w1)
      | (Inr actualStates, store1, w1) \<Rightarrow>
          (case getCrashCounts ex store1 w1 of
             (Inl err, w2) \<Rightarrow> (Inl err, store1, w2)
           | (Inr counts, w2) \<Rightarrow> (Inr (build_apps ch actualStates counts), store1, w2)))"

subsection \<open>What the apps are\<close>

text \<open>The ids and keys of different apps differ.\<close>

definition ids_distinct :: "(string \<times> string) set \<Rightarrow> bool" where
  "ids_distinct ps \<longleftrightarrow>
     inj_on (\<lambda>(g, v). representation_id g v) ps \<and> inj_on (\<lambda>(g, v). AppKey g v) ps"

definition hb_app :: "InstanceHeartbeat \<Rightarrow> string \<times> string" where
  "hb_app h = (hb_AppGuid h, hb_AppVersion h)"

definition cc_app :: "CrashCountRec \<Rightarrow> string \<times> string" where
  "cc_app c = (cc_AppGuid c, cc_AppVersion c)"

abbreviation rep_id :: "string \<times> string \<Rightarrow> string" where
  "rep_id p \<equiv> representation_id (fst p) (snd p)"

definition rep_at :: "(string, appRepresentation) gomap \<Rightarrow> string \<Rightarrow> appRepresentation" where
  "rep_at m k = (case map_of m k of None \<Rightarrow> \<lparr>actualState = [], crashCounts = []\<rparr> | Some r \<Rightarrow> r)"

lemma add_rep_simps:
  "map_of (add_actual h m) = (map_of m)(rep_id (hb_app h) \<mapsto>
     (rep_at m (rep_id (hb_app h)))\<lparr>actualState := actualState (rep_at m (rep_id (hb_app h))) @ [h]\<rparr>)"
  "map_of (add_crash_count c m) = (map_of m)(rep_id (cc_app c) \<mapsto>
     (rep_at m (rep_id (cc_app c)))\<lparr>crashCounts := crashCounts (rep_at m (rep_id (cc_app c))) @ [c]\<rparr>)"
  by (simp_all add: add_actual_def add_crash_count_def representationForAppGuidVersion_def rep_at_def
      hb_app_def cc_app_def Let_def)

lemma rep_at_fold_actual:
  "actualState (rep_at (fold add_actual hs m) k) =
     actualState (rep_at m k) @ filter (\<lambda>h. rep_id (hb_app h) = k) hs"
  "crashCounts (rep_at (fold add_actual hs m) k) = crashCounts (rep_at m k)"
  by (induction hs arbitrary: m) (auto simp: rep_at_def add_rep_simps)

lemma rep_at_fold_crash:
  "crashCounts (rep_at (fold add_crash_count cs m) k) =
     crashCounts (rep_at m k) @ filter (\<lambda>c. rep_id (cc_app c) = k) cs"
  "actualState (rep_at (fold add_crash_count cs m) k) = actualState (rep_at m k)"
  by (induction cs arbitrary: m) (auto simp: rep_at_def add_rep_simps)

lemma gomap_ok_fold_add:
  "gomap_ok m \<Longrightarrow> gomap_ok (fold add_actual hs m)"
  by (induction hs arbitrary: m) (auto simp: add_actual_def Let_def)

lemma gomap_ok_fold_add_crash:
  "gomap_ok m \<Longrightarrow> gomap_ok (fold add_crash_count cs m)"
  by (induction cs arbitrary: m) (auto simp: add_crash_count_def Let_def)

lemma representations_ok: "gomap_ok (representations hs cs)"
  by (simp add: representations_def gomap_ok_fold_add gomap_ok_fold_add_crash)

lemma representations_at:
  "actualState (rep_at (representations hs cs) k) = filter (\<lambda>h. rep_id (hb_app h) = k) hs"
  "crashCounts (rep_at (representations hs cs) k) = filter (\<lambda>c. rep_id (cc_app c) = k) cs"
  by (simp_all add: representations_def rep_at_fold_actual rep_at_fold_crash) (simp_all add: rep_at_def)

lemma representations_mem:
  assumes "(k, r) \<in> set (representations hs cs)"
  shows "actualState r = filter (\<lambda>h. rep_id (hb_app h) = k) hs"
    and "crashCounts r = filter (\<lambda>c. rep_id (cc_app c) = k) cs"
proof -
  have "rep_at (representations hs cs) k = r"
    using assms representations_ok [of hs cs] by (simp add: rep_at_def map_of_Some_iff [THEN iffD2])
  then show "actualState r = filter (\<lambda>h. rep_id (hb_app h) = k) hs"
    and "crashCounts r = filter (\<lambda>c. rep_id (cc_app c) = k) cs"
    using representations_at [where k = k and hs = hs and cs = cs] by simp_all
qed

text \<open>The app that the heartbeats and crash counts describe.\<close>

definition app_of :: "InstanceHeartbeat list \<Rightarrow> CrashCountRec list \<Rightarrow> string \<Rightarrow> string \<Rightarrow> App" where
  "app_of hs cs g v = NewApp g v zero_DesiredAppState (filter (\<lambda>h. hb_app h = (g, v)) hs)
     (fold (\<lambda>c. mput (cc_InstanceIndex c) c) (filter (\<lambda>c. cc_app c = (g, v)) cs) [])"

lemma app_of_ok [simp]: "app_ok (app_of hs cs g v)"
proof -
  have "gomap_ok (fold (\<lambda>c. mput (cc_InstanceIndex c) c) ds m)" if "gomap_ok m" for ds m
    using that by (induction ds arbitrary: m) auto
  from this [OF gomap_ok_Nil] show ?thesis unfolding app_of_def by (rule app_ok_NewApp)
qed

definition built :: "string \<times> appRepresentation \<Rightarrow> App option" where
  "built x = (if representsAnApp (snd x) then buildApp (snd x) else None)"

definition app_key :: "App \<Rightarrow> string" where
  "app_key a = AppKey (app_AppGuid a) (app_AppVersion a)"

lemma add_app_view:
  "map_of (add_app x m) = (case built x of None \<Rightarrow> map_of m | Some a \<Rightarrow> (map_of m)(app_key a \<mapsto> a))"
  by (auto simp: add_app_def built_def app_key_def split: prod.splits option.splits)

lemma fold_add_app:
  "map_of (fold add_app xs m) K = Some a \<Longrightarrow>
     map_of m K = Some a \<or> (\<exists>x\<in>set xs. built x = Some a \<and> app_key a = K)"
  by (induction xs arbitrary: m) (fastforce simp: add_app_view split: option.splits if_splits)+

lemma fold_add_app_dom:
  "map_of m K \<noteq> None \<or> (\<exists>x\<in>set xs. \<exists>a. built x = Some a \<and> app_key a = K) \<Longrightarrow>
     map_of (fold add_app xs m) K \<noteq> None"
proof (induction xs arbitrary: m)
  case (Cons x xs)
  have "map_of (add_app x m) K \<noteq> None" if "map_of m K \<noteq> None \<or> (\<exists>a. built x = Some a \<and> app_key a = K)"
    using that by (auto simp: add_app_view split: option.splits)
  then have "map_of (add_app x m) K \<noteq> None \<or> (\<exists>x\<in>set xs. \<exists>a. built x = Some a \<and> app_key a = K)"
    using Cons.prems unfolding list.set by blast
  then show ?case using Cons.IH by simp
qed simp

lemma ids_distinctD:
  assumes "ids_distinct S" and "p \<in> S" and "q \<in> S"
  shows "rep_id p = rep_id q \<longleftrightarrow> p = q" and "AppKey (fst p) (snd p) = AppKey (fst q) (snd q) \<longleftrightarrow> p = q"
  using inj_on_eq_iff [OF conjunct1 [OF assms(1) [unfolded ids_distinct_def]] assms(2,3)]
    inj_on_eq_iff [OF conjunct2 [OF assms(1) [unfolded ids_distinct_def]] assms(2,3)]
  by (simp_all add: split_beta)

lemma built_app_of:
  assumes "ids_distinct (hb_app ` set hs \<union> cc_app ` set cs)"
    and "(k, r) \<in> set (representations hs cs)" and "h \<in> set hs" and "k = rep_id (hb_app h)"
  shows "built (k, r) = (if hb_AppGuid h = [] \<or> hb_AppVersion h = [] then None
     else Some (app_of hs cs (hb_AppGuid h) (hb_AppVersion h)))"
proof -
  note inj = ids_distinctD(1) [OF assms(1)]
  have actual: "actualState r = filter (\<lambda>h'. hb_app h' = hb_app h) hs"
    using representations_mem(1) [OF assms(2)] assms(3,4) inj by (auto intro!: filter_cong simp: prod_eq_iff)
  have crash: "crashCounts r = filter (\<lambda>c. cc_app c = hb_app h) cs"
    using representations_mem(2) [OF assms(2)] assms(3,4) inj by (auto intro!: filter_cong simp: prod_eq_iff)
  have "h \<in> set (actualState r)" using actual assms(3) by simp
  then obtain h' hs' where a: "actualState r = h' # hs'" by (cases "actualState r") auto
  then have "h' \<in> set (filter (\<lambda>h'. hb_app h' = hb_app h) hs)" using actual by (metis list.set_intros(1))
  then have "hb_app h' = hb_app h" by simp
  then show ?thesis
    using a actual crash
    by (auto simp: built_def representsAnApp_def buildApp_def app_of_def hb_app_def Let_def)
qed

lemma representations_keys:
  "fst ` set (representations hs cs) = (rep_id \<circ> hb_app) ` set hs \<union> (rep_id \<circ> cc_app) ` set cs"
proof -
  have "fst ` set (fold add_actual hs m) = (rep_id \<circ> hb_app) ` set hs \<union> fst ` set m" for m
    by (induction hs arbitrary: m) (auto simp: add_actual_def hb_app_def Let_def)
  moreover have "fst ` set (fold add_crash_count cs m) = (rep_id \<circ> cc_app) ` set cs \<union> fst ` set m" for m
    by (induction cs arbitrary: m) (auto simp: add_crash_count_def cc_app_def Let_def)
  ultimately show ?thesis by (auto simp: representations_def)
qed

lemma build_apps_Some:
  assumes "ids_distinct (hb_app ` set hs \<union> cc_app ` set cs)"
    and "map_of (build_apps ch hs cs) K = Some a"
  shows "\<exists>h\<in>set hs. hb_AppGuid h \<noteq> [] \<and> hb_AppVersion h \<noteq> []
     \<and> K = AppKey (hb_AppGuid h) (hb_AppVersion h) \<and> a = app_of hs cs (hb_AppGuid h) (hb_AppVersion h)"
proof -
  obtain k r where kr: "(k, r) \<in> set (representations hs cs)" "built (k, r) = Some a" "app_key a = K"
    using fold_add_app [OF assms(2) [unfolded build_apps_def]] by auto
  then have "actualState r \<noteq> []" by (auto simp: built_def representsAnApp_def split: if_splits)
  then obtain h where h: "h \<in> set hs" "k = rep_id (hb_app h)"
    using representations_mem(1) [OF kr(1)] by (auto simp: filter_empty_conv)
  then show ?thesis
    using built_app_of [OF assms(1) kr(1) h] kr(2,3) h(1)
    by (auto simp: app_key_def app_of_def NewApp_def split: if_splits)
qed

lemma build_apps_app_of:
  assumes ids: "ids_distinct (hb_app ` set hs \<union> cc_app ` set cs)"
    and h: "h \<in> set hs" and full: "hb_AppGuid h \<noteq> []" "hb_AppVersion h \<noteq> []"
  shows "map_of (build_apps ch hs cs) (AppKey (hb_AppGuid h) (hb_AppVersion h)) =
     Some (app_of hs cs (hb_AppGuid h) (hb_AppVersion h))"
proof -
  let ?K = "AppKey (hb_AppGuid h) (hb_AppVersion h)"
  have "rep_id (hb_app h) \<in> fst ` set (representations hs cs)"
    using representations_keys h by auto
  then obtain r where r: "(rep_id (hb_app h), r) \<in> set (representations hs cs)" by auto
  have "built (rep_id (hb_app h), r) = Some (app_of hs cs (hb_AppGuid h) (hb_AppVersion h))"
    using built_app_of [OF ids r h refl] full by simp
  moreover have "app_key (app_of hs cs (hb_AppGuid h) (hb_AppVersion h)) = ?K"
    by (simp add: app_key_def app_of_def NewApp_def)
  ultimately have "map_of (build_apps ch hs cs) ?K \<noteq> None"
    unfolding build_apps_def using r by (intro fold_add_app_dom) (auto intro!: bexI)
  then obtain a where a: "map_of (build_apps ch hs cs) ?K = Some a" by blast
  obtain h' where h': "h' \<in> set hs" "?K = AppKey (hb_AppGuid h') (hb_AppVersion h')"
    "a = app_of hs cs (hb_AppGuid h') (hb_AppVersion h')"
    using build_apps_Some [OF ids a] by blast
  then have "hb_app h' = hb_app h"
    using ids_distinctD(2) [OF ids, of "hb_app h'" "hb_app h"] h by (simp add: hb_app_def)
  then show ?thesis using a h'(3) by (simp add: hb_app_def)
qed

text \<open>The maps of apps that are put together have distinct keys.\<close>

lemma gomap_ok_add_app: "gomap_ok m \<Longrightarrow> gomap_ok (add_app x m)"
  by (auto simp: add_app_def split: prod.splits option.splits)

lemma gomap_ok_build_apps: "gomap_ok (build_apps ch hs cs)"
proof -
  have "gomap_ok (fold add_app xs m)" if "gomap_ok m" for xs m
    using that by (induction xs arbitrary: m) (simp_all add: gomap_ok_add_app)
  then show ?thesis by (simp add: build_apps_def)
qed

end
