(* ===== verification/Analyzer.thy ===== *)
theory Analyzer imports App_Analyzer_Facts Store_Apps Store_Freshness begin

text \<open>
  \<open>analyzer/analyzer.go\<close>: one run of the analyzer over all apps, and \<open>models/app_queue.go\<close>, through
  which the desired state fetcher hands over the desired apps. The channel \<open>DesiredApps\<close> is the
  list of the batches that were sent before it was closed, in their order; the flag is the one the
  fetcher leaves behind. The readings of the clock, the orders of the ranges over maps, and the
  runtime of each analysis are the record \<open>analyze_env\<close>; the \<open>n\<close>-th app that is analysed takes the \<open>n\<close>-th of each.
\<close>

record AppQueue =
  DesiredApps :: "(string, DesiredAppState) gomap list"
  fetchDesiredAppsSuccess :: bool

definition NewAppQueue :: AppQueue where
  "NewAppQueue = \<lparr>DesiredApps = [], fetchDesiredAppsSuccess = False\<rparr>"

definition SetFetchDesiredAppsSuccess :: "bool \<Rightarrow> AppQueue \<Rightarrow> AppQueue" where
  "SetFetchDesiredAppsSuccess val q = q\<lparr>fetchDesiredAppsSuccess := val\<rparr>"

record analyze_env =
  ev_clock :: "nat \<Rightarrow> time"
  ev_apps :: choice
  ev_pendingStarts :: choice
  ev_pendingStops :: choice
  ev_batch :: "nat \<Rightarrow> choice"
  ev_removal :: choice
  ev_runtime :: "nat \<Rightarrow> runtime"
  ev_starts :: "nat \<Rightarrow> choice"
  ev_stops :: "nat \<Rightarrow> choice"

record analyze_state =
  al_actualApps :: "(string, App) gomap"
  al_appsPendingRemoval :: "(string, App) gomap"
  al_newStartMessages :: "PendingStartMessage list"
  al_newStopMessages :: "PendingStopMessage list"
  al_crashCounts :: "CrashCountRec list"
  al_analysed :: nat

text \<open>The analysis of one app, as \<open>newAppAnalyzer(...).analyzeApp()\<close>.\<close>

definition run_analysis :: "analyze_env \<Rightarrow> Config \<Rightarrow> (string, PendingStartMessage) gomap
    \<Rightarrow> (string, PendingStopMessage) gomap \<Rightarrow> App \<Rightarrow> nat \<Rightarrow> analysis" where
  "run_analysis env conf starts stops app n =
     analyzeApp (ev_runtime env n) (newAppAnalyzer app (ev_clock env n) starts stops conf) (new_analysis 0)"

definition analyze_desired :: "analyze_env \<Rightarrow> Config \<Rightarrow> (string, PendingStartMessage) gomap
    \<Rightarrow> (string, PendingStopMessage) gomap \<Rightarrow> DesiredAppState \<Rightarrow> analyze_state \<Rightarrow> analyze_state" where
  "analyze_desired env conf starts stops desiredApp s =
     (let key = DesiredAppState_StoreKey desiredApp;
          (app, removal) = (case map_of (al_actualApps s) key of
             None \<Rightarrow> (NewApp (ds_AppGuid desiredApp) (ds_AppVersion desiredApp) desiredApp [] [],
                      al_appsPendingRemoval s)
           | Some app \<Rightarrow> (app\<lparr>app_Desired := desiredApp\<rparr>, mdel key (al_appsPendingRemoval s)));
          n = al_analysed s;
          result = run_analysis env conf starts stops app n
      in s\<lparr>al_actualApps := mput key app (al_actualApps s),
           al_appsPendingRemoval := removal,
           al_newStartMessages := al_newStartMessages s
             @ map snd (go_range (ev_starts env n) (an_startMessages result)),
           al_newStopMessages := al_newStopMessages s
             @ map snd (go_range (ev_stops env n) (an_stopMessages result)),
           al_crashCounts := al_crashCounts s @ an_crashCounts result,
           al_analysed := Suc n\<rparr>)"

definition analyze_batch :: "analyze_env \<Rightarrow> Config \<Rightarrow> (string, PendingStartMessage) gomap
    \<Rightarrow> (string, PendingStopMessage) gomap \<Rightarrow> nat \<times> (string, DesiredAppState) gomap
    \<Rightarrow> analyze_state \<Rightarrow> analyze_state" where
  "analyze_batch env conf starts stops = (\<lambda>(i, batch).
     fold (analyze_desired env conf starts stops) (map snd (go_range (ev_batch env i) batch)))"

text \<open>An app that is running but not desired: its start messages are dropped.\<close>

definition analyze_removal :: "analyze_env \<Rightarrow> Config \<Rightarrow> (string, PendingStartMessage) gomap
    \<Rightarrow> (string, PendingStopMessage) gomap \<Rightarrow> App \<Rightarrow> analyze_state \<Rightarrow> analyze_state" where
  "analyze_removal env conf starts stops app s =
     (let n = al_analysed s;
          result = run_analysis env conf starts stops app n
      in s\<lparr>al_newStopMessages := al_newStopMessages s
             @ map snd (go_range (ev_stops env n) (an_stopMessages result)),
           al_crashCounts := al_crashCounts s @ an_crashCounts result,
           al_analysed := Suc n\<rparr>)"

definition analyze_batches :: "analyze_env \<Rightarrow> Config \<Rightarrow> (string, PendingStartMessage) gomap
    \<Rightarrow> (string, PendingStopMessage) gomap \<Rightarrow> (string, DesiredAppState) gomap list
    \<Rightarrow> (string, App) gomap \<Rightarrow> analyze_state" where
  "analyze_batches env conf starts stops batches actualApps =
     fold (analyze_batch env conf starts stops) (enumerate 0 batches)
       \<lparr>al_actualApps = actualApps, al_appsPendingRemoval = actualApps, al_newStartMessages = [],
        al_newStopMessages = [], al_crashCounts = [], al_analysed = 0\<rparr>"

definition analyze_removals :: "analyze_env \<Rightarrow> Config \<Rightarrow> (string, PendingStartMessage) gomap
    \<Rightarrow> (string, PendingStopMessage) gomap \<Rightarrow> analyze_state \<Rightarrow> analyze_state" where
  "analyze_removals env conf starts stops s =
     fold (analyze_removal env conf starts stops)
       (map snd (go_range (ev_removal env) (al_appsPendingRemoval s))) s"

text \<open>The three saves at the end; the first error ends the run.\<close>

definition save_analysis :: "'w externals \<Rightarrow> RealStore \<Rightarrow> analyze_state \<Rightarrow> 'w \<Rightarrow> hm_error option \<times> 'w" where
  "save_analysis ex store s w =
     (case SaveCrashCounts ex store (al_crashCounts s) w of
        (Some err, w1) \<Rightarrow> (Some err, w1)
      | (None, w1) \<Rightarrow>
          (case SavePendingStartMessages ex store (al_newStartMessages s) w1 of
             (Some err, w2) \<Rightarrow> (Some err, w2)
           | (None, w2) \<Rightarrow> SavePendingStopMessages ex store (al_newStopMessages s) w2))"

type_synonym analysis_result =
  "(string, App) gomap \<times> PendingStartMessage list \<times> PendingStopMessage list"

definition Analyze :: "'w externals \<Rightarrow> analyze_env \<Rightarrow> time \<Rightarrow> AppQueue \<Rightarrow> RealStore \<Rightarrow> 'w
    \<Rightarrow> (hm_error + analysis_result) \<times> RealStore \<times> 'w" where
  "Analyze ex env now appQueue store w =
     (let conf = st_config store in
      case VerifyFreshness ex store now w of
        (Some err, w1) \<Rightarrow> (Inl err, store, w1)
      | (None, w1) \<Rightarrow>
          (case GetApps ex now (ev_apps env) store w1 of
             (Inl err, store2, w2) \<Rightarrow> (Inl err, store2, w2)
           | (Inr actualApps, store2, w2) \<Rightarrow>
               (case GetPendingStartMessages ex store2 w2 of
                  (Inl err, w3) \<Rightarrow> (Inl err, store2, w3)
                | (Inr starts, w3) \<Rightarrow>
                    (case GetPendingStopMessages ex store2 w3 of
                       (Inl err, w4) \<Rightarrow> (Inl err, store2, w4)
                     | (Inr stops, w4) \<Rightarrow>
                         (let s = analyze_batches env conf starts stops (DesiredApps appQueue) actualApps in
                          if \<not> fetchDesiredAppsSuccess appQueue
                          then (Inl DesiredStateFetcherFailed, store2, w4)
                          else let s' = analyze_removals env conf starts stops s in
                            case save_analysis ex store2 s' w4 of
                              (Some err, w5) \<Rightarrow> (Inl err, store2, w5)
                            | (None, w5) \<Rightarrow>
                                (Inr (al_actualApps s',
                                   map snd (go_range (ev_pendingStarts env) starts) @ al_newStartMessages s',
                                   map snd (go_range (ev_pendingStops env) stops) @ al_newStopMessages s'),
                                 store2, w5))))))"

end
