(* ===== verification/Store_Actual_Facts.thy ===== *)
theory Store_Actual_Facts imports Store_Actual begin

text \<open>
  What \<open>SyncHeartbeats\<close> does to the cache, as a function of the reports alone: \<open>report\<close> is the
  abstract specification of one heartbeat, \<open>cache_ok\<close> the invariant that ties the two caches
  together.
\<close>

subsection \<open>The cache as a map of instances\<close>

abbreviation cached :: "RealStore \<Rightarrow> string \<Rightarrow> InstanceHeartbeat option" where
  "cached store \<equiv> map_of (instanceHeartbeatCache store)"

definition cache_ok :: "RealStore \<Rightarrow> bool" where
  "cache_ok store \<longleftrightarrow>
     (\<forall>dea. \<forall>g\<in>set (dea_instances (heartbeatCache store) dea).
        \<exists>h. cached store g = Some h \<and> hb_DeaGuid h = dea)
   \<and> (\<forall>g h. cached store g = Some h \<longrightarrow>
        hb_InstanceGuid h = g \<and> g \<in> set (dea_instances (heartbeatCache store) (hb_DeaGuid h)))"

text \<open>A DEA reports its own instances, each once, and no instance that another DEA owns.\<close>

definition report_ok :: "(string \<Rightarrow> InstanceHeartbeat option) \<Rightarrow> Heartbeat \<Rightarrow> bool" where
  "report_ok c hb \<longleftrightarrow>
     distinct (map hb_InstanceGuid (InstanceHeartbeats hb))
   \<and> (\<forall>i\<in>set (InstanceHeartbeats hb). hb_DeaGuid i = DeaGuid hb
        \<and> (\<forall>h. c (hb_InstanceGuid i) = Some h \<longrightarrow> hb_DeaGuid h = DeaGuid hb))"

definition reported :: "Heartbeat \<Rightarrow> string \<Rightarrow> InstanceHeartbeat option" where
  "reported hb = map_of (map (\<lambda>i. (hb_InstanceGuid i, i)) (InstanceHeartbeats hb))"

definition same_state :: "(string \<Rightarrow> InstanceHeartbeat option) \<Rightarrow> InstanceHeartbeat \<Rightarrow> bool" where
  "same_state c i \<longleftrightarrow> (\<exists>h. c (hb_InstanceGuid i) = Some h \<and> hb_State h = hb_State i)"

definition update_reported ::
    "(string \<Rightarrow> InstanceHeartbeat option) \<Rightarrow> (string \<Rightarrow> InstanceHeartbeat option)
     \<Rightarrow> string \<Rightarrow> InstanceHeartbeat option" where
  "update_reported c r g = (case r g of Some i \<Rightarrow> if same_state c i then c g else Some i | None \<Rightarrow> c g)"

text \<open>The specification of one heartbeat: what the DEA reports in a new state replaces what was
  known, what it reports no longer is forgotten, all else stays.\<close>

definition report :: "Heartbeat \<Rightarrow> (string \<Rightarrow> InstanceHeartbeat option) \<Rightarrow> string \<Rightarrow> InstanceHeartbeat option" where
  "report hb c g =
     (case reported hb g of
        Some i \<Rightarrow> if same_state c i then c g else Some i
      | None \<Rightarrow> (case c g of Some h \<Rightarrow> if hb_DeaGuid h = DeaGuid hb then None else Some h | None \<Rightarrow> None))"

lemma dea_instances_mput [simp]:
  "dea_instances (mput dea gs m) d = (if d = dea then gs else dea_instances m d)"
  by (simp add: dea_instances_def)

lemma dea_instances_mdel [simp]:
  "dea_instances (mdel dea m) d = (if d = dea then [] else dea_instances m d)"
  by (simp add: dea_instances_def)

lemma map_of_fold_mdel: "map_of (fold mdel gs m) g = (if g \<in> set gs then None else map_of m g)"
  by (induction gs arbitrary: m) auto

subsection \<open>The instances of one heartbeat\<close>

lemma sync_instance_simps:
  "cached (sy_store (sync_instance dea i s)) =
     (if same_state (cached (sy_store s)) i then cached (sy_store s)
      else (cached (sy_store s))(hb_InstanceGuid i \<mapsto> i))"
  "set (dea_instances (heartbeatCache (sy_store (sync_instance dea i s))) d) =
     set (dea_instances (heartbeatCache (sy_store s)) d) \<union>
     (if d = dea \<and> \<not> same_state (cached (sy_store s)) i then {hb_InstanceGuid i} else {})"
  "st_config (sy_store (sync_instance dea i s)) = st_config (sy_store s)"
  "sy_keys (sync_instance dea i s) = sy_keys s"
  by (auto simp: sync_instance_def same_state_def Let_def split: option.splits)

lemma heartbeat_key_config:
  "st_config s = st_config t \<Longrightarrow> heartbeat_key s = heartbeat_key t"
  by (simp add: heartbeat_key_def instanceHeartbeatStoreKey_def SchemaRoot_def fun_eq_iff)

lemma store_node_config:
  "st_config s = st_config t \<Longrightarrow> storeNodeForInstanceHeartbeat s = storeNodeForInstanceHeartbeat t"
  by (simp add: storeNodeForInstanceHeartbeat_def heartbeat_key_config [of s t] fun_eq_iff)

lemma sync_instance_nodes:
  "sy_nodes (sync_instance dea i s) = sy_nodes s @
     (if same_state (cached (sy_store s)) i then [] else [storeNodeForInstanceHeartbeat (sy_store s) i])"
  by (auto simp: sync_instance_def same_state_def Let_def split: option.splits)

lemma sync_instance_evac:
  "sy_evac (sync_instance dea i s) = sy_evac s @
     (if hb_State i = InstanceStateEvacuating
         \<and> \<not> (\<exists>h. cached (sy_store s) (hb_InstanceGuid i) = Some h
               \<and> (hb_State h = InstanceStateEvacuating \<or> hb_State h = InstanceStateCrashed))
      then [i] else [])"
  by (auto simp: sync_instance_def Let_def zero_InstanceHeartbeat_def state_defs split: option.splits)

lemma same_state_other:
  "hb_InstanceGuid i \<noteq> hb_InstanceGuid j \<Longrightarrow>
   same_state (cached (sy_store (sync_instance dea i s))) j = same_state (cached (sy_store s)) j"
  by (simp add: sync_instance_simps same_state_def)

lemma fold_instances_cached:
  "distinct (map hb_InstanceGuid is) \<Longrightarrow>
   cached (sy_store (fold (sync_instance dea) is s)) =
     update_reported (cached (sy_store s)) (map_of (map (\<lambda>i. (hb_InstanceGuid i, i)) is))"
proof (induction "is" arbitrary: s)
  case Nil
  then show ?case by (simp add: update_reported_def fun_eq_iff)
next
  case (Cons i "is")
  have new: "hb_InstanceGuid i \<notin> hb_InstanceGuid ` set is" using Cons.prems by simp
  then have none: "map_of (map (\<lambda>i. (hb_InstanceGuid i, i)) is) (hb_InstanceGuid i) = None"
    by (rule map_of_keys_None)
  have other: "same_state (cached (sy_store (sync_instance dea i s))) j = same_state (cached (sy_store s)) j"
    if "map_of (map (\<lambda>i. (hb_InstanceGuid i, i)) is) g = Some j" for g j
    using that new by (intro same_state_other) (auto dest!: map_of_SomeD)
  show ?case
    using Cons.IH [of "sync_instance dea i s"] Cons.prems none other
    by (auto simp: update_reported_def fun_eq_iff sync_instance_simps split: option.splits)
qed

lemma fold_instances_deas:
  "distinct (map hb_InstanceGuid is) \<Longrightarrow>
   set (dea_instances (heartbeatCache (sy_store (fold (sync_instance dea) is s))) d) =
     set (dea_instances (heartbeatCache (sy_store s)) d) \<union>
     (if d = dea then hb_InstanceGuid ` {i \<in> set is. \<not> same_state (cached (sy_store s)) i} else {})"
proof (induction "is" arbitrary: s)
  case (Cons i "is")
  have other: "same_state (cached (sy_store (sync_instance dea i s))) j = same_state (cached (sy_store s)) j"
    if "j \<in> set is" for j
    using that Cons.prems by (intro same_state_other) auto
  have "{j \<in> set is. \<not> same_state (cached (sy_store (sync_instance dea i s))) j}
      = {j \<in> set is. \<not> same_state (cached (sy_store s)) j}" using other by blast
  with Cons.IH [of "sync_instance dea i s"] Cons.prems show ?case
    by (auto simp: sync_instance_simps(2))
qed simp

lemma fold_instances_rest [simp]:
  "st_config (sy_store (fold (sync_instance dea) is s)) = st_config (sy_store s)"
  "sy_keys (fold (sync_instance dea) is s) = sy_keys s"
  by (induction "is" arbitrary: s) (simp_all add: sync_instance_simps)

lemma fold_instances_nodes:
  "distinct (map hb_InstanceGuid is) \<Longrightarrow>
   sy_nodes (fold (sync_instance dea) is s) = sy_nodes s @
     map (storeNodeForInstanceHeartbeat (sy_store s)) (filter (\<lambda>i. \<not> same_state (cached (sy_store s)) i) is)"
proof (induction "is" arbitrary: s)
  case (Cons i "is")
  have other: "filter (\<lambda>j. \<not> same_state (cached (sy_store (sync_instance dea i s))) j) is
      = filter (\<lambda>j. \<not> same_state (cached (sy_store s)) j) is"
  proof (intro filter_cong refl)
    fix j assume "j \<in> set is"
    then have "hb_InstanceGuid i \<noteq> hb_InstanceGuid j" using Cons.prems by auto
    then show "(\<not> same_state (cached (sy_store (sync_instance dea i s))) j)
        = (\<not> same_state (cached (sy_store s)) j)" by (simp add: same_state_other)
  qed
  have conf: "storeNodeForInstanceHeartbeat (sy_store (sync_instance dea i s))
      = storeNodeForInstanceHeartbeat (sy_store s)"
    by (rule store_node_config) (simp add: sync_instance_simps)
  show ?case using Cons.IH [of "sync_instance dea i s"] Cons.prems
    by (auto simp: sync_instance_nodes other conf)
qed simp

subsection \<open>The instances that vanished\<close>

definition known_at :: "RealStore \<Rightarrow> string \<Rightarrow> bool" where
  "known_at store dea \<longleftrightarrow>
     (\<forall>g\<in>set (dea_instances (heartbeatCache store) dea). \<exists>h. cached store g = Some h \<and> hb_InstanceGuid h = g)"

lemma known_at_guids:
  assumes "known_at store dea" and "set gs \<subseteq> set (dea_instances (heartbeatCache store) dea)"
  shows "map (hb_InstanceGuid \<circ> (\<lambda>g. case cached store g of None \<Rightarrow> zero_InstanceHeartbeat | Some h \<Rightarrow> h)) gs = gs"
  using assms by (intro map_idI) (fastforce simp: known_at_def dest: subsetD)

lemma sync_vanished_simps:
  assumes "known_at (sy_store s) dea"
  shows "cached (sy_store (sync_vanished ch dea guids s)) g =
      (if g \<in> set (dea_instances (heartbeatCache (sy_store s)) dea) - set guids then None
       else cached (sy_store s) g)"
    and "set (dea_instances (heartbeatCache (sy_store (sync_vanished ch dea guids s))) d) =
      set (dea_instances (heartbeatCache (sy_store s)) d) \<inter> (if d = dea then set guids else UNIV)"
    and "sy_keys (sync_vanished ch dea guids s) = sy_keys s @
      map (\<lambda>g. heartbeat_key (sy_store s) (the (cached (sy_store s) g)))
        (filter (\<lambda>g. g \<notin> set guids) (go_range ch (dea_instances (heartbeatCache (sy_store s)) dea)))"
    and "st_config (sy_store (sync_vanished ch dea guids s)) = st_config (sy_store s)"
    and "sy_nodes (sync_vanished ch dea guids s) = sy_nodes s"
proof -
  let ?deas = "dea_instances (heartbeatCache (sy_store s)) dea"
  let ?gs = "filter (\<lambda>g. g \<notin> set guids) (go_range ch ?deas)"
  let ?f = "\<lambda>g. case cached (sy_store s) g of None \<Rightarrow> zero_InstanceHeartbeat | Some h \<Rightarrow> h"
  have gs: "map (hb_InstanceGuid \<circ> ?f) ?gs = ?gs"
    using assms by (intro known_at_guids) auto
  have keys: "map hb_InstanceGuid (map ?f ?gs) = ?gs" using gs by simp
  show "cached (sy_store (sync_vanished ch dea guids s)) g =
      (if g \<in> set ?deas - set guids then None else cached (sy_store s) g)"
    unfolding sync_vanished_def Let_def keys by (auto simp: map_of_fold_mdel)
  show "set (dea_instances (heartbeatCache (sy_store (sync_vanished ch dea guids s))) d) =
      set (dea_instances (heartbeatCache (sy_store s)) d) \<inter> (if d = dea then set guids else UNIV)"
    unfolding sync_vanished_def Let_def keys by (auto simp: filter_empty_conv)
  have "?f g = the (cached (sy_store s) g)" if "g \<in> set ?deas" for g
    using assms that by (auto simp: known_at_def)
  then show "sy_keys (sync_vanished ch dea guids s) = sy_keys s @
      map (\<lambda>g. heartbeat_key (sy_store s) (the (cached (sy_store s) g))) ?gs"
    unfolding sync_vanished_def Let_def keys by simp
qed (simp_all add: sync_vanished_def Let_def)

subsection \<open>One heartbeat\<close>

lemma cache_ok_cached:
  assumes "cache_ok store"
  shows "g \<in> set (dea_instances (heartbeatCache store) dea) \<longleftrightarrow>
     (\<exists>h. cached store g = Some h \<and> hb_DeaGuid h = dea)"
  using assms by (auto simp: cache_ok_def)

text \<open>The state in which the loop over the instances starts.\<close>

definition sync_start :: "Heartbeat \<Rightarrow> sync_state \<Rightarrow> sync_state" where
  "sync_start hb s = s\<lparr>
     sy_store := sy_store s\<lparr>heartbeatCache := mput (DeaGuid hb)
       (dea_instances (heartbeatCache (sy_store s)) (DeaGuid hb)) (heartbeatCache (sy_store s))\<rparr>,
     sy_nodes := sy_nodes s @ [deaPresenceNode (sy_store s) (DeaGuid hb)]\<rparr>"

lemma sync_start_simps [simp]:
  "cached (sy_store (sync_start hb s)) = cached (sy_store s)"
  "dea_instances (heartbeatCache (sy_store (sync_start hb s))) d = dea_instances (heartbeatCache (sy_store s)) d"
  "st_config (sy_store (sync_start hb s)) = st_config (sy_store s)"
  "sy_keys (sync_start hb s) = sy_keys s"
  "sy_nodes (sync_start hb s) = sy_nodes s @ [deaPresenceNode (sy_store s) (DeaGuid hb)]"
  "same_state (cached (sy_store (sync_start hb s))) = same_state (cached (sy_store s))"
  by (simp_all add: sync_start_def)

lemma sync_heartbeat_start:
  "sync_heartbeat ch hb s = sync_vanished ch (DeaGuid hb) (map hb_InstanceGuid (InstanceHeartbeats hb))
     (fold (sync_instance (DeaGuid hb)) (InstanceHeartbeats hb) (sync_start hb s))"
  by (simp add: sync_heartbeat_def sync_start_def Let_def)

definition after_instances :: "Heartbeat \<Rightarrow> sync_state \<Rightarrow> RealStore" where
  "after_instances hb s =
     sy_store (fold (sync_instance (DeaGuid hb)) (InstanceHeartbeats hb) (sync_start hb s))"

lemma after_instances_cached:
  assumes "report_ok (cached (sy_store s)) hb"
  shows "cached (after_instances hb s) = update_reported (cached (sy_store s)) (reported hb)"
  using assms by (simp add: after_instances_def fold_instances_cached report_ok_def reported_def)

lemma reported_SomeD:
  "reported hb g = Some i \<Longrightarrow> i \<in> set (InstanceHeartbeats hb) \<and> hb_InstanceGuid i = g"
  by (auto simp: reported_def dest: map_of_SomeD)

lemma reported_in:
  "g \<in> hb_InstanceGuid ` set (InstanceHeartbeats hb) \<longleftrightarrow> reported hb g \<noteq> None"
  by (simp add: reported_def map_of_eq_None_iff image_image)

lemma reported_unique:
  assumes "report_ok c hb" and "i \<in> set (InstanceHeartbeats hb)"
  shows "reported hb (hb_InstanceGuid i) = Some i"
  using assms unfolding reported_def report_ok_def
  by (intro map_of_is_SomeI) (auto simp: o_def)

lemma after_instances_deas:
  assumes "cache_ok (sy_store s)" and "report_ok (cached (sy_store s)) hb"
  shows "g \<in> set (dea_instances (heartbeatCache (after_instances hb s)) d) \<longleftrightarrow>
     (\<exists>h. cached (after_instances hb s) g = Some h \<and> hb_DeaGuid h = d)"
proof -
  have dist: "distinct (map hb_InstanceGuid (InstanceHeartbeats hb))"
    using assms(2) by (simp add: report_ok_def)
  have "g \<in> set (dea_instances (heartbeatCache (after_instances hb s)) d) \<longleftrightarrow>
      (\<exists>h. cached (sy_store s) g = Some h \<and> hb_DeaGuid h = d)
      \<or> (d = DeaGuid hb \<and> (\<exists>i. reported hb g = Some i \<and> \<not> same_state (cached (sy_store s)) i))"
    using reported_SomeD [of hb g] reported_unique [OF assms(2)]
    by (auto simp: after_instances_def fold_instances_deas [OF dist] cache_ok_cached [OF assms(1)])
  also have "\<dots> \<longleftrightarrow> (\<exists>h. cached (after_instances hb s) g = Some h \<and> hb_DeaGuid h = d)"
    using assms(2) reported_SomeD [of hb g]
    by (auto simp: after_instances_cached [OF assms(2)] update_reported_def report_ok_def same_state_def
        split: option.splits)
  finally show ?thesis .
qed

lemma sync_heartbeat_cached:
  assumes "cache_ok (sy_store s)" and "report_ok (cached (sy_store s)) hb"
  shows "cached (sy_store (sync_heartbeat ch hb s)) = report hb (cached (sy_store s))"
    and "cache_ok (sy_store (sync_heartbeat ch hb s))"
proof -
  let ?t = "fold (sync_instance (DeaGuid hb)) (InstanceHeartbeats hb) (sync_start hb s)"
  have guid: "hb_InstanceGuid h = g" if "cached (after_instances hb s) g = Some h" for g h
    using that assms(1) reported_SomeD [of hb g]
    by (auto simp: after_instances_cached [OF assms(2)] update_reported_def cache_ok_def
        split: option.splits if_splits)
  note deas = after_instances_deas [OF assms]
  have known: "known_at (sy_store ?t) (DeaGuid hb)"
    using deas guid unfolding known_at_def after_instances_def by blast
  note vanished = sync_vanished_simps(1,2) [OF known]
  show c: "cached (sy_store (sync_heartbeat ch hb s)) = report hb (cached (sy_store s))"
  proof
    fix g
    have mem: "g \<in> set (map hb_InstanceGuid (InstanceHeartbeats hb)) \<longleftrightarrow> reported hb g \<noteq> None"
      using reported_in [of g hb] by simp
    show "cached (sy_store (sync_heartbeat ch hb s)) g = report hb (cached (sy_store s)) g"
      unfolding sync_heartbeat_start vanished(1) Diff_iff mem
      unfolding after_instances_def [symmetric] deas
      by (auto simp: after_instances_cached [OF assms(2)] update_reported_def report_def
          split: option.splits)
  qed
  show "cache_ok (sy_store (sync_heartbeat ch hb s))"
    unfolding cache_ok_def sync_heartbeat_start vanished
    unfolding after_instances_def [symmetric] deas
    using guid by (auto simp: deas split: if_splits)
qed


subsection \<open>All heartbeats of one call\<close>

definition report_guids :: "Heartbeat \<Rightarrow> string list" where
  "report_guids hb = map hb_InstanceGuid (InstanceHeartbeats hb)"

definition reports_ok :: "(string \<Rightarrow> InstanceHeartbeat option) \<Rightarrow> Heartbeat list \<Rightarrow> bool" where
  "reports_ok c hbs \<longleftrightarrow>
     distinct (map DeaGuid hbs) \<and> distinct (concat (map report_guids hbs))
   \<and> (\<forall>hb\<in>set hbs. report_ok c hb)"

lemma report_other:
  assumes "reported hb g = None" and "\<And>h. c g = Some h \<Longrightarrow> hb_DeaGuid h \<noteq> DeaGuid hb"
  shows "report hb c g = c g"
  using assms by (auto simp: report_def split: option.splits)

lemma not_reported: "reported hb g = None \<longleftrightarrow> g \<notin> set (report_guids hb)"
  using reported_in [of g hb] by (simp add: report_guids_def)

lemma reports_ok_Cons:
  assumes "reports_ok c (hb # hbs)"
  shows "report_ok c hb" and "reports_ok (report hb c) hbs"
    and "hb' \<in> set hbs \<Longrightarrow> reported hb' g = Some i \<Longrightarrow> reported hb g = None \<and> report hb c g = c g"
proof -
  show "report_ok c hb" using assms by (simp add: reports_ok_def)
  show keep: "reported hb g = None \<and> report hb c g = c g"
    if "hb' \<in> set hbs" "reported hb' g = Some i" for hb' g i
  proof -
    have i: "i \<in> set (InstanceHeartbeats hb')" "hb_InstanceGuid i = g"
      using reported_SomeD [OF that(2)] by auto
    have none: "reported hb g = None"
      using assms that(1) i by (auto simp: not_reported reports_ok_def report_guids_def)
    have "hb_DeaGuid h \<noteq> DeaGuid hb" if "c g = Some h" for h
    proof -
      have "hb_DeaGuid h = DeaGuid hb'"
        using assms \<open>hb' \<in> set hbs\<close> i that by (auto simp: reports_ok_def report_ok_def)
      moreover have "DeaGuid hb' \<noteq> DeaGuid hb"
        using assms \<open>hb' \<in> set hbs\<close> unfolding reports_ok_def by (metis distinct.simps(2) image_eqI list.map(2) set_map)
      ultimately show ?thesis by simp
    qed
    then show ?thesis using none report_other [of hb g c] by blast
  qed
  show "reports_ok (report hb c) hbs"
    unfolding reports_ok_def
  proof (intro conjI ballI)
    fix hb' assume hb': "hb' \<in> set hbs"
    then have ok: "report_ok c hb'" using assms by (simp add: reports_ok_def)
    have "report hb c (hb_InstanceGuid i) = c (hb_InstanceGuid i)" if "i \<in> set (InstanceHeartbeats hb')" for i
      using keep [OF hb' reported_unique [OF ok that]] by blast
    then show "report_ok (report hb c) hb'" using ok by (simp add: report_ok_def)
  qed (use assms in \<open>auto simp: reports_ok_def\<close>)
qed

lemma fold_sync_cached:
  assumes "cache_ok (sy_store s)" and "reports_ok (cached (sy_store s)) hbs"
  shows "cache_ok (sy_store (fold (sync_heartbeat ch) hbs s))
     \<and> cached (sy_store (fold (sync_heartbeat ch) hbs s)) = fold report hbs (cached (sy_store s))"
  using assms
proof (induction hbs arbitrary: s)
  case (Cons hb hbs)
  note step = sync_heartbeat_cached [OF Cons.prems(1) reports_ok_Cons(1) [OF Cons.prems(2)], of ch]
  show ?case
    using Cons.IH [OF step(2)] reports_ok_Cons(2) [OF Cons.prems(2)] step(1) by simp
qed simp

lemma fold_report_in:
  assumes "reports_ok c hbs" and "hb \<in> set hbs" and "reported hb g = Some i"
  shows "fold report hbs c g = (if same_state c i then c g else Some i)"
proof -
  have out: "fold report hbs c g = c g" if "\<forall>hb\<in>set hbs. reported hb g = None"
      "\<forall>hb\<in>set hbs. \<forall>h. c g = Some h \<longrightarrow> hb_DeaGuid h \<noteq> DeaGuid hb" for hbs c
    using that by (induction hbs arbitrary: c) (auto simp: report_other)
  show ?thesis using assms
  proof (induction hbs arbitrary: c)
    case (Cons hb' hbs)
    note step = reports_ok_Cons [OF Cons.prems(1)]
    show ?case
    proof (cases "hb = hb'")
      case True
      have others: "reported hb'' g = None" if "hb'' \<in> set hbs" for hb''
        using step(3) [OF that] Cons.prems(3) True by (cases "reported hb'' g") auto
      have i: "i \<in> set (InstanceHeartbeats hb)" "hb_InstanceGuid i = g"
        using reported_SomeD [OF Cons.prems(3)] by auto
      have now: "report hb c g = (if same_state c i then c g else Some i)"
        using Cons.prems(3) by (simp add: report_def)
      have "hb_DeaGuid h = DeaGuid hb" if "report hb c g = Some h" for h
        using that step(1) True i unfolding now by (auto simp: report_ok_def split: if_splits)
      then have "fold report hbs (report hb c) g = report hb c g"
        using others Cons.prems(1) True by (intro out) (auto simp: reports_ok_def)
      then show ?thesis using now True by simp
    next
      case False
      then have hb: "hb \<in> set hbs" using Cons.prems(2) by simp
      have i: "hb_InstanceGuid i = g" using reported_SomeD [OF Cons.prems(3)] by simp
      have "report hb' c g = c g" using step(3) [OF hb Cons.prems(3)] by simp
      then show ?thesis using Cons.IH [OF step(2) hb Cons.prems(3)] i
        by (auto simp: same_state_def split: if_splits)
    qed
  qed simp
qed

lemma fold_report_out:
  assumes "\<forall>hb\<in>set hbs. reported hb g = None"
  shows "fold report hbs c g =
     (case c g of Some h \<Rightarrow> if hb_DeaGuid h \<in> DeaGuid ` set hbs then None else Some h | None \<Rightarrow> None)"
  using assms
proof (induction hbs arbitrary: c)
  case (Cons hb hbs)
  then show ?case by (auto simp: report_def split: option.splits)
qed (simp split: option.splits)

lemma latestHeartbeats_mem:
  "map_of (latestHeartbeats incoming) dea = Some hb \<Longrightarrow> DeaGuid hb = dea \<and> hb \<in> set incoming"
proof -
  have *: "map_of (fold (\<lambda>h. mput (DeaGuid h) h) incoming m) dea = Some hb \<Longrightarrow>
      (DeaGuid hb = dea \<and> hb \<in> set incoming) \<or> map_of m dea = Some hb" for m
    by (induction incoming arbitrary: m) (force split: if_splits)+
  show "map_of (latestHeartbeats incoming) dea = Some hb \<Longrightarrow> DeaGuid hb = dea \<and> hb \<in> set incoming"
    using * [of "[]"] by (simp add: latestHeartbeats_def)
qed

lemma latestHeartbeats_keys: "fst ` set (latestHeartbeats incoming) = DeaGuid ` set incoming"
proof -
  have "fst ` set (fold (\<lambda>h. mput (DeaGuid h) h) incoming m) = DeaGuid ` set incoming \<union> fst ` set m"
    for m :: "(string, Heartbeat) gomap"
    by (induction incoming arbitrary: m) auto
  from this [of "[]"] show ?thesis by (simp add: latestHeartbeats_def)
qed

text \<open>The heartbeats that are processed, in the order of the range.\<close>

definition processed :: "choice \<Rightarrow> Heartbeat list \<Rightarrow> Heartbeat list" where
  "processed ch incoming = map snd (go_range ch (latestHeartbeats incoming))"

lemma sync_caches_processed:
  "sync_caches ch incoming store = fold (sync_heartbeat ch) (processed ch incoming)
     \<lparr>sy_store = store, sy_nodes = [], sy_evac = [], sy_keys = []\<rparr>"
proof -
  have "fold (\<lambda>(dea, h). sync_heartbeat ch h) xs s = fold (sync_heartbeat ch) (map snd xs) s"
    for xs :: "(string \<times> Heartbeat) list" and s
    by (induction xs arbitrary: s) auto
  then show ?thesis by (simp add: sync_caches_def processed_def)
qed


subsection \<open>What is written and deleted\<close>

definition changed :: "(string \<Rightarrow> InstanceHeartbeat option) \<Rightarrow> Heartbeat list \<Rightarrow> InstanceHeartbeat set" where
  "changed c hbs = {i. \<exists>hb\<in>set hbs. i \<in> set (InstanceHeartbeats hb) \<and> \<not> same_state c i}"

definition vanished :: "(string \<Rightarrow> InstanceHeartbeat option) \<Rightarrow> Heartbeat list \<Rightarrow> InstanceHeartbeat set" where
  "vanished c hbs = {h. \<exists>hb\<in>set hbs. \<exists>g. c g = Some h \<and> hb_DeaGuid h = DeaGuid hb \<and> reported hb g = None}"

lemma sync_heartbeat_nodes:
  assumes "cache_ok (sy_store s)" and "report_ok (cached (sy_store s)) hb"
  shows "sy_nodes (sync_heartbeat ch hb s) = sy_nodes s @ deaPresenceNode (sy_store s) (DeaGuid hb) #
      map (storeNodeForInstanceHeartbeat (sy_store s))
        (filter (\<lambda>i. \<not> same_state (cached (sy_store s)) i) (InstanceHeartbeats hb))"
    and "set (sy_keys (sync_heartbeat ch hb s)) =
      set (sy_keys s) \<union> heartbeat_key (sy_store s) ` vanished (cached (sy_store s)) [hb]"
    and "st_config (sy_store (sync_heartbeat ch hb s)) = st_config (sy_store s)"
proof -
  let ?t = "fold (sync_instance (DeaGuid hb)) (InstanceHeartbeats hb) (sync_start hb s)"
  have dist: "distinct (map hb_InstanceGuid (InstanceHeartbeats hb))"
    using assms(2) by (simp add: report_ok_def)
  have guid: "hb_InstanceGuid h = g" if "cached (after_instances hb s) g = Some h" for g h
    using that assms(1) reported_SomeD [of hb g]
    by (auto simp: after_instances_cached [OF assms(2)] update_reported_def cache_ok_def
        split: option.splits if_splits)
  note deas = after_instances_deas [OF assms]
  have known: "known_at (sy_store ?t) (DeaGuid hb)"
    using deas guid unfolding known_at_def after_instances_def by blast
  note v = sync_vanished_simps(3-5) [OF known]
  have conf: "storeNodeForInstanceHeartbeat (sy_store (sync_start hb s)) = storeNodeForInstanceHeartbeat (sy_store s)"
    by (rule store_node_config) simp
  show "sy_nodes (sync_heartbeat ch hb s) = sy_nodes s @ deaPresenceNode (sy_store s) (DeaGuid hb) #
      map (storeNodeForInstanceHeartbeat (sy_store s))
        (filter (\<lambda>i. \<not> same_state (cached (sy_store s)) i) (InstanceHeartbeats hb))"
    by (simp add: sync_heartbeat_start v fold_instances_nodes [OF dist] conf)
  show "st_config (sy_store (sync_heartbeat ch hb s)) = st_config (sy_store s)"
    by (simp add: sync_heartbeat_start v)
  have key: "heartbeat_key (sy_store ?t) = heartbeat_key (sy_store s)"
    by (rule heartbeat_key_config) simp
  have "{g \<in> set (dea_instances (heartbeatCache (sy_store ?t)) (DeaGuid hb)).
        g \<notin> set (map hb_InstanceGuid (InstanceHeartbeats hb))}
      = {g. reported hb g = None \<and> (\<exists>h. cached (sy_store s) g = Some h \<and> hb_DeaGuid h = DeaGuid hb)}"
    using reported_in [of _ hb] deas unfolding after_instances_def [symmetric]
    by (auto simp: after_instances_cached [OF assms(2)] update_reported_def)
  moreover have "cached (sy_store ?t) g = cached (sy_store s) g" if "reported hb g = None" for g
    using that after_instances_cached [OF assms(2)] unfolding after_instances_def
    by (simp add: update_reported_def)
  ultimately show "set (sy_keys (sync_heartbeat ch hb s)) =
      set (sy_keys s) \<union> heartbeat_key (sy_store s) ` vanished (cached (sy_store s)) [hb]"
    unfolding sync_heartbeat_start v key
    by (auto simp: vanished_def image_iff set_eq_iff)
qed


lemma changed_Cons:
  assumes "reports_ok c (hb # hbs)"
  shows "changed c (hb # hbs) = {i \<in> set (InstanceHeartbeats hb). \<not> same_state c i} \<union> changed (report hb c) hbs"
proof -
  have "same_state (report hb c) i = same_state c i" if "hb' \<in> set hbs" "i \<in> set (InstanceHeartbeats hb')" for hb' i
  proof -
    have "report_ok c hb'" using assms that by (simp add: reports_ok_def)
    then have "report hb c (hb_InstanceGuid i) = c (hb_InstanceGuid i)"
      using reports_ok_Cons(3) [OF assms that(1)] reported_unique that(2) by blast
    then show ?thesis by (simp add: same_state_def)
  qed
  then show ?thesis by (auto simp: changed_def)
qed

lemma vanished_Cons:
  assumes "reports_ok c (hb # hbs)"
  shows "vanished c (hb # hbs) = vanished c [hb] \<union> vanished (report hb c) hbs"
proof -
  have same: "report hb c g = Some h \<longleftrightarrow> c g = Some h"
    if "hb' \<in> set hbs" "hb_DeaGuid h = DeaGuid hb'" for hb' h g
  proof -
    have other: "DeaGuid hb' \<noteq> DeaGuid hb"
      using assms that(1) unfolding reports_ok_def by (metis distinct.simps(2) image_eqI list.map(2) set_map)
    show ?thesis
    proof (cases "reported hb g")
      case None
      then show ?thesis using other that(2) by (auto simp: report_def split: option.splits)
    next
      case (Some i)
      then have own: "hb_DeaGuid i = DeaGuid hb" "c g = Some h \<Longrightarrow> hb_DeaGuid h = DeaGuid hb"
        using reported_SomeD [OF Some] reports_ok_Cons(1) [OF assms] by (auto simp: report_ok_def)
      then have "c g \<noteq> Some h" "i \<noteq> h" using other that(2) by auto
      then show ?thesis using Some by (simp add: report_def)
    qed
  qed
  have "vanished c (hb # hbs) = vanished c [hb] \<union> vanished c hbs"
    by (auto simp: vanished_def)
  moreover have "vanished c hbs = vanished (report hb c) hbs"
    unfolding vanished_def using same by blast
  ultimately show ?thesis by simp
qed

lemma fold_sync_nodes:
  assumes "cache_ok (sy_store s)" and "reports_ok (cached (sy_store s)) hbs"
  shows "set (sy_nodes (fold (sync_heartbeat ch) hbs s)) = set (sy_nodes s)
       \<union> (\<lambda>hb. deaPresenceNode (sy_store s) (DeaGuid hb)) ` set hbs
       \<union> storeNodeForInstanceHeartbeat (sy_store s) ` changed (cached (sy_store s)) hbs
     \<and> set (sy_keys (fold (sync_heartbeat ch) hbs s)) =
         set (sy_keys s) \<union> heartbeat_key (sy_store s) ` vanished (cached (sy_store s)) hbs
     \<and> st_config (sy_store (fold (sync_heartbeat ch) hbs s)) = st_config (sy_store s)"
  using assms
proof (induction hbs arbitrary: s)
  case Nil
  then show ?case by (simp add: changed_def vanished_def)
next
  case (Cons hb hbs)
  let ?t = "sync_heartbeat ch hb s"
  note first = reports_ok_Cons(1) [OF Cons.prems(2)]
  note step = sync_heartbeat_cached [OF Cons.prems(1) first, of ch]
  note nodes = sync_heartbeat_nodes [OF Cons.prems(1) first, of ch]
  have conf: "storeNodeForInstanceHeartbeat (sy_store ?t) = storeNodeForInstanceHeartbeat (sy_store s)"
    "heartbeat_key (sy_store ?t) = heartbeat_key (sy_store s)"
    "deaPresenceNode (sy_store ?t) = deaPresenceNode (sy_store s)"
    using store_node_config [OF nodes(3)] heartbeat_key_config [OF nodes(3)] nodes(3)
    by (simp_all add: deaPresenceNode_def SchemaRoot_def fun_eq_iff)
  have "reports_ok (cached (sy_store ?t)) hbs"
    using reports_ok_Cons(2) [OF Cons.prems(2)] step(1) by simp
  note IH = Cons.IH [OF step(2) this]
  show ?case
  proof (intro conjI)
    show "set (sy_nodes (fold (sync_heartbeat ch) (hb # hbs) s)) = set (sy_nodes s)
       \<union> (\<lambda>hb. deaPresenceNode (sy_store s) (DeaGuid hb)) ` set (hb # hbs)
       \<union> storeNodeForInstanceHeartbeat (sy_store s) ` changed (cached (sy_store s)) (hb # hbs)"
      using IH [THEN conjunct1] unfolding conf step(1)
      by (simp add: nodes(1) changed_Cons [OF Cons.prems(2)] image_Un Un_ac)
    show "set (sy_keys (fold (sync_heartbeat ch) (hb # hbs) s)) =
         set (sy_keys s) \<union> heartbeat_key (sy_store s) ` vanished (cached (sy_store s)) (hb # hbs)"
      using IH [THEN conjunct2, THEN conjunct1] unfolding conf step(1)
      by (simp add: nodes(2) vanished_Cons [OF Cons.prems(2)] image_Un Un_ac)
    show "st_config (sy_store (fold (sync_heartbeat ch) (hb # hbs) s)) = st_config (sy_store s)"
      using IH nodes(3) by simp
  qed
qed

subsection \<open>Keys of different instances\<close>

definition proper_heartbeat :: "InstanceHeartbeat \<Rightarrow> bool" where
  "proper_heartbeat h \<longleftrightarrow>
     proper_key (hb_InstanceGuid h) \<and> proper_key (hb_AppGuid h) \<and> proper_key (hb_AppVersion h)"

lemma heartbeat_key_inject:
  assumes "heartbeat_key store h = heartbeat_key store k" and "proper_heartbeat h" and "proper_heartbeat k"
  shows "hb_InstanceGuid h = hb_InstanceGuid k"
proof -
  have "last (split_on CHR ''/'' (heartbeat_key store i)) = hb_InstanceGuid i" if "proper_heartbeat i" for i
    using split_on_last [of "CHR ''/''" "hb_InstanceGuid i"
        "SchemaRoot store @ ''/apps/actual/'' @ AppKey (hb_AppGuid i) (hb_AppVersion i)"] that
    by (simp add: heartbeat_key_def instanceHeartbeatStoreKey_def proper_heartbeat_def proper_key_def)
  then show ?thesis using assms by metis
qed

lemma heartbeat_key_not_below:
  assumes "proper_heartbeat h"
  shows "\<not> below (heartbeat_key store k) (heartbeat_key store h)"
proof
  let ?n = "\<lambda>s. length (filter (\<lambda>c. c = CHR ''/'') s)"
  have "filter (\<lambda>c. c = CHR ''/'') s = []" if "proper_key s" for s
    using that by (auto simp: proper_key_def filter_empty_conv)
  then have h: "?n (heartbeat_key store h) = ?n (SchemaRoot store) + 4"
    using assms by (simp add: heartbeat_key_def instanceHeartbeatStoreKey_def proper_heartbeat_def AppKey_def)
  have k: "?n (SchemaRoot store) + 4 \<le> ?n (heartbeat_key store k)"
    by (simp add: heartbeat_key_def instanceHeartbeatStoreKey_def AppKey_def)
  assume "below (heartbeat_key store k) (heartbeat_key store h)"
  then obtain x where "heartbeat_key store h = heartbeat_key store k @ CHR ''/'' # x"
    by (auto simp: below_def prefix_def)
  then have "?n (heartbeat_key store k) < ?n (heartbeat_key store h)" by simp
  then show False using h k by simp
qed

lemma presence_key_other:
  "sn_Key (deaPresenceNode store dea) \<noteq> heartbeat_key store h"
  "\<not> below (heartbeat_key store h) (sn_Key (deaPresenceNode store dea))"
  by (auto simp: deaPresenceNode_def heartbeat_key_def instanceHeartbeatStoreKey_def below_def prefix_def)


subsection \<open>The store mirrors the cache\<close>

definition mirrors :: "RealStore \<Rightarrow> (string \<Rightarrow> entry option) \<Rightarrow> bool" where
  "mirrors store es \<longleftrightarrow>
     (\<forall>g h. cached store g = Some h \<longrightarrow>
        proper_heartbeat h \<and> es (heartbeat_key store h) = Some (File (Raw (InstanceHeartbeat_ToCSV h))))"

definition start_sync :: "RealStore \<Rightarrow> sync_state" where
  "start_sync store = \<lparr>sy_store = store, sy_nodes = [], sy_evac = [], sy_keys = []\<rparr>"

lemma start_sync_simps [simp]:
  "sy_store (start_sync store) = store" "sy_nodes (start_sync store) = []"
  "sy_evac (start_sync store) = []" "sy_keys (start_sync store) = []"
  by (simp_all add: start_sync_def)

lemma fold_report_cases:
  assumes "reports_ok c hbs" and "fold report hbs c g = Some h"
  shows "c g = Some h \<or> h \<in> changed c hbs"
proof (cases "\<exists>hb\<in>set hbs. reported hb g \<noteq> None")
  case True
  then obtain hb i where hb: "hb \<in> set hbs" "reported hb g = Some i" by blast
  then show ?thesis
    using fold_report_in [OF assms(1) hb] assms(2) reported_SomeD [OF hb(2)]
    by (auto simp: changed_def split: if_splits)
next
  case False
  then show ?thesis
    using fold_report_out [of hbs g c] assms(2) by (auto split: option.splits if_splits)
qed

lemma vanished_gone:
  assumes "reports_ok c hbs" and "h \<in> vanished c hbs" and "\<And>g h. c g = Some h \<Longrightarrow> hb_InstanceGuid h = g"
  shows "fold report hbs c (hb_InstanceGuid h) = None"
proof -
  obtain hb where hb: "hb \<in> set hbs" "c (hb_InstanceGuid h) = Some h" "hb_DeaGuid h = DeaGuid hb"
    "reported hb (hb_InstanceGuid h) = None"
    using assms(2) assms(3) [of _ h] unfolding vanished_def by blast
  have "reported hb' (hb_InstanceGuid h) = None" if "hb' \<in> set hbs" for hb'
  proof (rule ccontr)
    assume "reported hb' (hb_InstanceGuid h) \<noteq> None"
    then obtain i where i: "reported hb' (hb_InstanceGuid h) = Some i" by blast
    then have "DeaGuid hb' = DeaGuid hb"
      using assms(1) that hb reported_SomeD [OF i] by (auto simp: reports_ok_def report_ok_def)
    then have "hb' = hb"
      using assms(1) that hb(1) by (auto simp: reports_ok_def distinct_map inj_on_def)
    then show False using i hb(4) by simp
  qed
  then show ?thesis using fold_report_out [of hbs "hb_InstanceGuid h" c] hb by auto
qed

lemma changed_kept:
  assumes "reports_ok c hbs" and "i \<in> changed c hbs"
  shows "fold report hbs c (hb_InstanceGuid i) = Some i"
proof -
  obtain hb where hb: "hb \<in> set hbs" "i \<in> set (InstanceHeartbeats hb)" "\<not> same_state c i"
    using assms(2) by (auto simp: changed_def)
  then have "reported hb (hb_InstanceGuid i) = Some i"
    using assms(1) by (intro reported_unique) (auto simp: reports_ok_def)
  then show ?thesis using fold_report_in [OF assms(1) hb(1)] hb(3) by simp
qed

text \<open>
  What is known after a sync: \<open>synced\<close> collects the facts about its state \<open>s\<close> that the proof about
  the store uses.
\<close>

definition synced :: "RealStore \<Rightarrow> Heartbeat list \<Rightarrow> sync_state \<Rightarrow> bool" where
  "synced store hbs s \<longleftrightarrow>
     cached (sy_store s) = fold report hbs (cached store) \<and> st_config (sy_store s) = st_config store
   \<and> (\<forall>g h. cached (sy_store s) g = Some h \<longrightarrow> proper_heartbeat h \<and> hb_InstanceGuid h = g)
   \<and> set (sy_nodes s) = (\<lambda>hb. deaPresenceNode store (DeaGuid hb)) ` set hbs
       \<union> storeNodeForInstanceHeartbeat store ` changed (cached store) hbs
   \<and> set (sy_keys s) = heartbeat_key store ` vanished (cached store) hbs"

lemma synced_fold:
  assumes "cache_ok store" and "reports_ok (cached store) hbs"
    and proper: "\<And>g h. cached store g = Some h \<Longrightarrow> proper_heartbeat h"
      "\<forall>hb\<in>set hbs. \<forall>i\<in>set (InstanceHeartbeats hb). proper_heartbeat i"
  shows "synced store hbs (fold (sync_heartbeat ch) hbs (start_sync store))" (is "synced _ _ ?s")
proof -
  note nodes = fold_sync_nodes [of "start_sync store" hbs ch, unfolded start_sync_simps, OF assms(1,2)]
  note cache = fold_sync_cached [of "start_sync store" hbs ch, unfolded start_sync_simps, OF assms(1,2)]
  have "proper_heartbeat h \<and> hb_InstanceGuid h = g" if h: "cached (sy_store ?s) g = Some h" for g h
  proof -
    have "cached store g = Some h \<or> h \<in> changed (cached store) hbs"
      using fold_report_cases [OF assms(2)] h cache by simp
    then have "proper_heartbeat h" using proper by (auto simp: changed_def)
    then show ?thesis using h cache by (simp add: cache_ok_def)
  qed
  then show ?thesis using nodes cache by (simp add: synced_def)
qed

lemma synced_nodes:
  assumes "synced store hbs s" and "reports_ok (cached store) hbs" and "n \<in> set (sy_nodes s)"
  shows "(\<exists>dea. n = deaPresenceNode store dea)
    \<or> (\<exists>i. n = storeNodeForInstanceHeartbeat store i \<and> cached (sy_store s) (hb_InstanceGuid i) = Some i)"
  using assms(1,3) changed_kept [OF assms(2)] by (auto simp: synced_def)

text \<open>The node under the key of a cached heartbeat is that heartbeat's, and none lies below it.\<close>

lemma synced_node_unique:
  assumes "synced store hbs s" and "reports_ok (cached store) hbs" and "n \<in> set (sy_nodes s)"
    and h: "cached (sy_store s) g = Some h"
  shows "sn_Key n = heartbeat_key store h \<Longrightarrow> n = storeNodeForInstanceHeartbeat store h"
    and "\<not> below (heartbeat_key store h) (sn_Key n)"
proof -
  have proper: "proper_heartbeat i \<and> hb_InstanceGuid i = g'" if "cached (sy_store s) g' = Some i" for g' i
    using assms(1) that by (simp add: synced_def)
  show "\<not> below (heartbeat_key store h) (sn_Key n)"
    using synced_nodes [OF assms(1-3)] proper heartbeat_key_not_below presence_key_other(2)
    by (auto simp: storeNodeForInstanceHeartbeat_def)
  show "n = storeNodeForInstanceHeartbeat store h" if key: "sn_Key n = heartbeat_key store h"
  proof -
    obtain i where i: "n = storeNodeForInstanceHeartbeat store i"
        "cached (sy_store s) (hb_InstanceGuid i) = Some i"
      using synced_nodes [OF assms(1-3)] key presence_key_other(1) by auto
    then have "hb_InstanceGuid i = hb_InstanceGuid h"
      using heartbeat_key_inject [of store i h] key proper [OF i(2)] proper [OF h]
      by (simp add: storeNodeForInstanceHeartbeat_def)
    then show ?thesis using i h proper [OF h] by simp
  qed
qed

lemma synced_not_deleted:
  assumes "synced store hbs s" and "reports_ok (cached store) hbs" and "cache_ok store"
    and "\<And>g h. cached store g = Some h \<Longrightarrow> proper_heartbeat h"
    and h: "cached (sy_store s) g = Some h" and "d \<in> set (sy_keys s)"
  shows "heartbeat_key store h \<noteq> d \<and> \<not> below d (heartbeat_key store h)"
proof (rule ccontr)
  have proper: "proper_heartbeat h \<and> hb_InstanceGuid h = g" using assms(1) h by (simp add: synced_def)
  have guid: "hb_InstanceGuid h = g" if "cached store g = Some h" for g h
    using assms(3) that by (simp add: cache_ok_def)
  assume "\<not> (heartbeat_key store h \<noteq> d \<and> \<not> below d (heartbeat_key store h))"
  then obtain v where v: "v \<in> vanished (cached store) hbs" "heartbeat_key store v = heartbeat_key store h"
    using assms(1,6) proper heartbeat_key_not_below by (auto simp: synced_def)
  then have "cached store (hb_InstanceGuid v) = Some v" using guid by (auto simp: vanished_def)
  then have "hb_InstanceGuid v = g" using heartbeat_key_inject [OF v(2)] assms(4) proper by simp
  then show False using vanished_gone [OF assms(2) v(1) guid] h assms(1) by (simp add: synced_def)
qed

context kv_adapter begin

lemma synced_written:
  assumes "synced store hbs s" and "reports_ok (cached store) hbs" and "mirrors store (entries w)"
    and set: "ad_SetMulti ex (sy_nodes s) w = (None, w1)" and h: "cached (sy_store s) g = Some h"
  shows "entries w1 (heartbeat_key store h) = Some (File (Raw (InstanceHeartbeat_ToCSV h)))"
proof (cases "heartbeat_key store h \<in> sn_Key ` set (sy_nodes s)")
  case True
  then obtain n where n: "n \<in> set (sy_nodes s)" "sn_Key n = heartbeat_key store h"
      "entries w1 (heartbeat_key store h) = Some (File (sn_Value n))"
    using set_multi_ok [OF set, THEN spec, of "heartbeat_key store h"] by auto
  then show ?thesis
    by (simp add: synced_node_unique(1) [OF assms(1,2) n(1) h n(2)] storeNodeForInstanceHeartbeat_def)
next
  case False
  have "heartbeat_key store h \<in> sn_Key ` set (sy_nodes s)" if "h \<in> changed (cached store) hbs"
  proof (rule image_eqI)
    show "storeNodeForInstanceHeartbeat store h \<in> set (sy_nodes s)" using assms(1) that by (auto simp: synced_def)
  qed (simp add: storeNodeForInstanceHeartbeat_def)
  then have "cached store g = Some h"
    using False fold_report_cases [OF assms(2), of g h] h assms(1) by (auto simp: synced_def)
  then show ?thesis
    using set_multi_frame [OF set False] synced_node_unique(2) [OF assms(1,2) _ h] assms(3)
    by (simp add: mirrors_def)
qed

text \<open>The store mirrors the cache again, also when the deletion of a vanished instance fails.\<close>

lemma sync_mirrors:
  assumes ok: "cache_ok store" "reports_ok (cached store) hbs" "mirrors store (entries w)"
    and proper: "\<forall>hb\<in>set hbs. \<forall>i\<in>set (InstanceHeartbeats hb). proper_heartbeat i"
    and s: "s = fold (sync_heartbeat ch) hbs (start_sync store)"
    and set: "ad_SetMulti ex (sy_nodes s) w = (None, w1)" and del: "ad_Delete ex (sy_keys s) w1 = (r, w2)"
  shows "mirrors (sy_store s) (entries w2)"
proof -
  have known: "cached store g = Some h \<Longrightarrow> proper_heartbeat h" for g h
    using ok(3) by (simp add: mirrors_def)
  note sync = synced_fold [OF ok(1,2) known proper, where ch = ch, folded s]
  have "entries w2 (heartbeat_key store h) = entries w1 (heartbeat_key store h)"
    if h: "cached (sy_store s) g = Some h" for g h
    using synced_not_deleted [OF sync ok(2,1) known h] delete_ok [of "sy_keys s" w1 w2 "heartbeat_key store h"]
      delete_error [of "sy_keys s" w1 _ w2 "heartbeat_key store h"] del by (cases r) fastforce+
  moreover have "heartbeat_key (sy_store s) = heartbeat_key store"
    using sync by (intro heartbeat_key_config) (simp add: synced_def)
  ultimately show ?thesis
    using synced_written [OF sync ok(2,3) set] sync by (simp add: mirrors_def synced_def)
qed

end

end
