(* ===== verification/Analyzer_Facts.thy ===== *)
theory Analyzer_Facts imports Analyzer Store_Actual_Facts begin

text \<open>
  What a run of the analyzer changes in the store, and where the messages it returns come from.
\<close>

subsection \<open>What reading apps changes\<close>

definition actual_dir :: "RealStore \<Rightarrow> string" where
  "actual_dir store = SchemaRoot store @ ''/apps/actual''"

lemma SchemaRoot_config: "st_config s = st_config t \<Longrightarrow> SchemaRoot s = SchemaRoot t"
  by (simp add: SchemaRoot_def)

lemma heartbeats_loop_keys:
  "heartbeats_loop store nodes results keys = Inr (results', keys') \<Longrightarrow>
     set keys' \<subseteq> set keys \<union> sn_Key ` set nodes"
  by (induction store nodes results keys rule: heartbeats_loop.induct)
    (fastforce split: sum.splits if_splits)+

lemma all_heartbeats_loop_keys:
  "all_heartbeats_loop store deas nodes results keys = Inr (results', keys') \<Longrightarrow>
     set keys' \<subseteq> set keys \<union> (\<Union>n\<in>set nodes. sn_Key ` set (sn_ChildNodes n))"
proof (induction store deas nodes results keys rule: all_heartbeats_loop.induct)
  case (2 store deas n nodes results keys)
  then obtain hs ks where *: "heartbeatsForNode store n deas = Inr (hs, ks)"
      "all_heartbeats_loop store deas nodes (results @ hs) (keys @ ks) = Inr (results', keys')"
    by (auto split: sum.splits)
  have ks: "set ks \<subseteq> sn_Key ` set (sn_ChildNodes n)"
    using heartbeats_loop_keys [OF *(1) [unfolded heartbeatsForNode_def]] by simp
  have "set keys' \<subseteq> set (keys @ ks) \<union> (\<Union>n\<in>set nodes. sn_Key ` set (sn_ChildNodes n))"
    by (rule "2.IH" [OF *(1) refl *(2)])
  with ks show ?case by (simp add: subset_iff) blast
qed simp

context kv_adapter begin

lemma GetDeaCache_frame:
  assumes "GetDeaCache ex now store w = (r, store', w')"
  shows "w' = w \<and> st_config store' = st_config store"
proof (cases "ad_ListRecursively ex (SchemaRoot store @ ''/dea-presence'') w")
  case (Pair res w1)
  then have "w1 = w" by (rule list_pure)
  then show ?thesis using assms Pair
    by (auto simp: GetDeaCache_def Let_def split: if_splits sum.splits store_error.splits)
qed

lemma delete_expired_frame:
  assumes "delete_expired ex keys results store w = (r, store', w')" and "\<forall>d\<in>set keys. \<not> (k = d \<or> below d k)"
  shows "entries w' k = entries w k \<and> store' = store"
proof (cases "ad_Delete ex keys w")
  case (Pair e w1)
  have "entries w1 k = entries w k"
    using Pair delete_ok [of keys w w1 k] delete_error [of keys w _ w1 k] assms(2) by (cases e) auto
  then show ?thesis using assms(1) Pair
    by (auto simp: delete_expired_def split: option.splits store_error.splits)
qed

lemma GetInstanceHeartbeats_frame:
  assumes "GetInstanceHeartbeats ex now store w = (r, store', w')" and "\<not> below (actual_dir store) k"
  shows "entries w' k = entries w k \<and> st_config store' = st_config store"
proof (cases "ad_ListRecursively ex (SchemaRoot store @ ''/apps/actual'') w")
  case (Pair res w1)
  then have w1: "w1 = w" by (rule list_pure)
  show ?thesis
  proof (cases res)
    case (Inl e)
    then show ?thesis using assms(1) Pair w1
      by (auto simp: GetInstanceHeartbeats_def split: store_error.splits)
  next
    case (Inr node)
    have node: "sn_Key node = actual_dir store" "sn_Dir node" "listing_ok (entries w) node"
      using list_ok [OF Pair [unfolded Inr]] by (simp_all add: actual_dir_def clean_key_def)
    obtain d store2 w2 where d: "GetDeaCache ex now store w = (d, store2, w2)" by (metis prod_cases3)
    have w2: "w2 = w" "st_config store2 = st_config store" using GetDeaCache_frame [OF d] by auto
    show ?thesis
    proof (cases d)
      case (Inl e)
      then show ?thesis using assms(1) Pair Inr w1 w2 d by (auto simp: GetInstanceHeartbeats_def)
    next
      case deas: (Inr deas)
      show ?thesis
      proof (cases "all_heartbeats_loop store2 deas (sn_ChildNodes node) [] []")
        case (Inl e)
        then show ?thesis using assms(1) Pair Inr deas w1 w2 d
          by (auto simp: GetInstanceHeartbeats_def split: hm_error.splits)
      next
        case hs: (Inr p)
        obtain results keys where p: "p = (results, keys)" by fastforce
        have "\<not> (k = x \<or> below x k)" if x: "x \<in> set keys" for x
        proof -
          obtain n c where n: "n \<in> set (sn_ChildNodes node)" "c \<in> set (sn_ChildNodes n)" "x = sn_Key c"
            using all_heartbeats_loop_keys [OF hs [unfolded p]] x by auto
          have child: "below (actual_dir store) (sn_Key n)"
            using listing_children(2) [OF node(3,2)] node(1) n(1) by (auto simp: child_of_def)
          have ok: "listing_ok (entries w) n" using listing_children(3) [OF node(3,2) n(1)] .
          have "sn_Dir n" using listing_file [OF ok] n(2) by fastforce
          then have "below (sn_Key n) x"
            using listing_children(2) [OF ok] n(2,3) by (auto simp: child_of_def)
          then have "below (actual_dir store) x" using child below_trans by blast
          then show ?thesis using assms(2) below_trans by blast
        qed
        moreover have "delete_expired ex keys results store2 w = (r, store', w')"
          using assms(1) Pair Inr deas hs w1 w2 d p by (simp add: GetInstanceHeartbeats_def)
        ultimately show ?thesis using delete_expired_frame [of keys results store2 w r store' w' k] w2 by simp
      qed
    qed
  qed
qed

lemma getCrashCounts_pure: "getCrashCounts ex store w = (r, w') \<Longrightarrow> w' = w"
  using list_pure by (auto simp: getCrashCounts_def split: prod.splits sum.splits store_error.splits)

lemma GetApps_frame:
  assumes "GetApps ex now ch store w = (r, store', w')" and "\<not> below (actual_dir store) k"
  shows "entries w' k = entries w k \<and> st_config store' = st_config store"
proof -
  obtain r1 store1 w1 where 1: "GetInstanceHeartbeats ex now store w = (r1, store1, w1)" by (metis prod_cases3)
  note f = GetInstanceHeartbeats_frame [OF 1 assms(2)]
  show ?thesis
    using assms(1) 1 f getCrashCounts_pure [of store1 w1]
    by (auto simp: GetApps_def split: sum.splits prod.splits)
qed

lemma IsActualStateFresh_pure: "IsActualStateFresh ex store now w = (r, w') \<Longrightarrow> w' = w"
  using get_pure
  by (auto simp: IsActualStateFresh_def split: prod.splits sum.splits store_error.splits option.splits)

lemma VerifyFreshness_pure: "VerifyFreshness ex store now w = (r, w') \<Longrightarrow> w' = w"
  using IsActualStateFresh_pure by (auto simp: VerifyFreshness_def split: prod.splits sum.splits if_splits)

lemma get_op_pure: "get ex key dec dir w = (r, w') \<Longrightarrow> w' = w"
  using list_pure
  by (auto simp: get_def fetchNodesUnderDir_def split: prod.splits sum.splits store_error.splits)

text \<open>A run whose fetcher failed writes nothing.\<close>

lemma Analyze_unsuccessful:
  assumes "\<not> fetchDesiredAppsSuccess q" and "Analyze ex env now q store w = (r, store', w')"
  shows "(\<exists>err. r = Inl err) \<and> (\<not> below (actual_dir store) k \<longrightarrow> entries w' k = entries w k)"
proof -
  obtain v w1 where 1: "VerifyFreshness ex store now w = (v, w1)" by fastforce
  obtain a store2 w2 where 2: "GetApps ex now (ev_apps env) store w1 = (a, store2, w2)" by (metis prod_cases3)
  have w1: "w1 = w" by (rule VerifyFreshness_pure [OF 1])
  have frame: "entries w2 k = entries w k" if "\<not> below (actual_dir store) k"
    using GetApps_frame [OF 2 that] w1 by simp
  show ?thesis
    using assms 1 2 w1 frame
    by (auto simp: Analyze_def Let_def GetPendingStartMessages_def GetPendingStopMessages_def
        split: option.splits sum.splits prod.splits dest!: get_op_pure)
qed

end


subsection \<open>The maps of an analysis\<close>

lemma set_mdel_subset: "set (mdel k m) \<subseteq> set m"
  by (auto simp: mdel_def AList.delete_eq)

definition analysis_ok :: "analysis \<Rightarrow> bool" where
  "analysis_ok s \<longleftrightarrow> gomap_ok (an_startMessages s) \<and> gomap_ok (an_stopMessages s)"

lemma analysis_ok_draw [simp]: "analysis_ok (draw s) = analysis_ok s"
  by (simp add: analysis_ok_def)

lemma analysis_ok_steps:
  assumes "analysis_ok s"
  shows "analysis_ok (snd (appendStartMessageIfNotDuplicate a m s))"
    and "analysis_ok (appendStopMessageIfNotDuplicate a x s)"
    and "analysis_ok (stop_step rt a d r h s)"
  using assms by (auto simp: analysis_ok_def appendStartMessageIfNotDuplicate_def draw_def
      appendStopMessageIfNotDuplicate_def stop_step_def split: option.split)

lemma analysis_ok_fold:
  "(\<And>x s. analysis_ok s \<Longrightarrow> analysis_ok (f x s)) \<Longrightarrow> analysis_ok s \<Longrightarrow> analysis_ok (fold f xs s)"
  by (induction xs arbitrary: s) auto

lemma analysis_ok_addStop: "analysis_ok s \<Longrightarrow> analysis_ok (addStopMessages rt a i r s)"
  by (simp add: addStopMessages_def analysis_ok_fold analysis_ok_steps)

lemma analysis_ok_index_steps:
  assumes "analysis_ok s"
  shows "analysis_ok (missing_step rt a p i s)" and "analysis_ok (crashed_step rt a p i s)"
    and "analysis_ok (evacuating_step rt a i s)" and "analysis_ok (duplicates_at rt a i s)"
proof -
  show "analysis_ok (missing_step rt a p i s)" using assms by (simp add: missing_step_def analysis_ok_steps)
  show "analysis_ok (crashed_step rt a p i s)"
    using assms by (auto simp: crashed_step_def appendStartMessageIfNotDuplicate_def analysis_ok_def draw_def
        Let_def split: option.split)
  show "analysis_ok (evacuating_step rt a i s)"
    using assms by (auto simp: evacuating_step_def Let_def intro!: analysis_ok_addStop analysis_ok_steps)
  show "analysis_ok (duplicates_at rt a i s)"
    using assms by (auto simp: duplicates_at_def Let_def duplicate_step_def
        intro!: analysis_ok_fold analysis_ok_steps)
qed

lemma analyzeApp_ok: "analysis_ok (analyzeApp rt a (new_analysis n))"
proof -
  have "analysis_ok (new_analysis n)" by (simp add: analysis_ok_def new_analysis_def)
  then show ?thesis
    by (auto simp: analyzeApp_def Let_def starts_phase_def generatePendingStartsForMissingInstances_def
        generatePendingStartsForCrashedInstances_def generatePendingStopsForExtraInstances_def
        generatePendingStartsAndStopsForEvacuatingInstances_def generatePendingStopsForDuplicateInstances_def
        intro!: analysis_ok_fold analysis_ok_index_steps analysis_ok_steps)
qed

end
