(* ===== verification/Analysis_Sound.thy ===== *)
theory Analysis_Sound imports Analyzer_Facts begin

text \<open>
  Where the messages of a run of the analyzer come from: every new start and stop has its grounds in one
  of the apps that the run returns, seen with one of the desired states of the queue.
\<close>

subsection \<open>Instances that are to be started\<close>

definition instance_key :: "App \<Rightarrow> int \<Rightarrow> string" where
  "instance_key app i = app_AppGuid app @ ''-'' @ app_AppVersion app @ ''-'' @ itoa i"

text \<open>
  A desired index without a starting or running instance is to be filled: at once when an instance
  evacuates, otherwise when the app is staged; of several crashed instances of an app that runs nowhere
  only the first is restarted.
\<close>

definition start_wanted :: "App \<Rightarrow> int \<Rightarrow> bool" where
  "start_wanted app i \<longleftrightarrow> IsIndexDesired app i \<and> \<not> HasStartingOrRunningInstanceAtIndex app i
     \<and> (HasEvacuatingInstanceAtIndex app i
        \<or> IsStaged app \<and> 0 \<le> i
          \<and> (HasCrashedInstanceAtIndex app i \<longrightarrow> i = 0 \<or> HasStartingOrRunningInstances app))"

lemma expected_start_wanted:
  "expected_start rt (newAppAnalyzer app now starts stops conf) i \<noteq> None \<longleftrightarrow>
     start_wanted app i \<and> map_of starts (instance_key app i) = None"
  by (auto simp: expected_start_def Let_def start_queued_def start_key_def instance_key_def newAppAnalyzer_def
      starts_evacuating_def starts_crashed_def starts_missing_def is_restartable_def is_missing_def start_wanted_def)

subsection \<open>Apps that nobody desires\<close>

definition undesired :: "App \<Rightarrow> bool" where
  "undesired app \<longleftrightarrow> app_Desired app = zero_DesiredAppState"

lemma undesired_facts:
  assumes "undesired app"
  shows "\<not> IsStaged app" and "IsIndexDesired app i \<longleftrightarrow> i < 0"
  using assms by (simp_all add: undesired_def IsStaged_def IsIndexDesired_def NumberOfDesiredInstances_def
      zero_DesiredAppState_def AppPackageStateStaged_def)

subsection \<open>Where the new messages come from\<close>

text \<open>A sound start for an app: as in \<open>queued_start_sound\<close>, without the priority.\<close>

definition sound_start :: "(string, PendingStartMessage) gomap \<Rightarrow> App \<Rightarrow> PendingStartMessage \<Rightarrow> bool" where
  "sound_start existing app m \<longleftrightarrow>
     map_of existing (PendingStartMessage_StoreKey m) = None
   \<and> AppGuid m = app_AppGuid app \<and> AppVersion m = app_AppVersion app
   \<and> IsIndexDesired app (IndexToStart m) \<and> \<not> HasStartingOrRunningInstanceAtIndex app (IndexToStart m)
   \<and> SentOn m = 0 \<and> \<not> SkipVerification m"

definition desired_apps :: "(string, DesiredAppState) gomap list \<Rightarrow> DesiredAppState set" where
  "desired_apps batches = (\<Union>b\<in>set batches. snd ` set b)"

text \<open>
  The grounds for a stop: the instance evacuates and its replacement runs, has crashed or is not to run at
  all; or it starts or runs at an index that is not desired or beside another one there, and every start
  that is wanted for the app is pending already. The time in a crash count that is only just made is of no
  account.
\<close>

definition stop_grounds :: "(string \<Rightarrow> PendingStartMessage option) \<Rightarrow> App \<Rightarrow> InstanceHeartbeat \<Rightarrow> bool" where
  "stop_grounds pending app h \<longleftrightarrow>
     (let i = hb_InstanceIndex h in
      if IsEvacuating h
      then \<not> IsIndexDesired app i \<or> \<not> IsStaged app \<or> HasRunningInstanceAtIndex app i
         \<or> 0 < cc_CrashCount (CrashCountAtIndex app i (time_Unix 0))
      else IsStartingOrRunning h
         \<and> (\<not> IsIndexDesired app i \<or> 1 < length (StartingOrRunningInstancesAtIndex app i))
         \<and> (\<forall>j. start_wanted app j \<longrightarrow> pending (instance_key app j) \<noteq> None))"

definition sound_stop :: "(string, PendingStartMessage) gomap \<Rightarrow> (string, PendingStopMessage) gomap
    \<Rightarrow> App \<Rightarrow> PendingStopMessage \<Rightarrow> bool" where
  "sound_stop starts stops app m \<longleftrightarrow>
     map_of stops (InstanceGuid m) = None
   \<and> AppGuid m = app_AppGuid app \<and> AppVersion m = app_AppVersion app
   \<and> (\<exists>h\<in>set (app_InstanceHeartbeats app). hb_InstanceGuid h = InstanceGuid m \<and> stop_grounds (map_of starts) app h)"

lemma run_analysis_starts:
  assumes "p \<in> set (an_startMessages (run_analysis env conf starts stops app n))"
  shows "sound_start starts app (snd p)"
proof -
  have "map_of (an_startMessages (run_analysis env conf starts stops app n)) (fst p) = Some (snd p)"
    using assms analyzeApp_ok by (auto simp: run_analysis_def analysis_ok_def gomap_ok_def)
  from queued_start_sound [OF this [unfolded run_analysis_def]] show ?thesis
    by (auto simp: sound_start_def newAppAnalyzer_def)
qed

lemma crash_count_any_time: "cc_CrashCount (CrashCountAtIndex app i t) = cc_CrashCount (CrashCountAtIndex app i t')"
  by (simp add: CrashCountAtIndex_def split: option.split)

lemma states_apart: "IsStartingOrRunning h \<Longrightarrow> \<not> IsEvacuating h"
  by (auto simp: IsStartingOrRunning_def IsStarting_def IsRunning_def IsEvacuating_def
      InstanceStateStarting_def InstanceStateRunning_def InstanceStateEvacuating_def)

lemma run_analysis_stops:
  assumes "p \<in> set (an_stopMessages (run_analysis env conf starts stops app n))" and "app_ok app"
  shows "sound_stop starts stops app (snd p)"
proof -
  let ?a = "newAppAnalyzer app (ev_clock env n) starts stops conf"
  let ?run = "analyzeApp (ev_runtime env n) ?a (new_analysis 0)"
  have az: "az_app ?a = app" "az_currentTime ?a = ev_clock env n" by (simp_all add: newAppAnalyzer_def)
  have m: "map_of (an_stopMessages ?run) (fst p) = Some (snd p)"
    using assms analyzeApp_ok by (auto simp: run_analysis_def analysis_ok_def gomap_ok_def)
  have ok: "app_ok (az_app ?a)" using assms(2) by (simp add: az)
  have "stop_justified ?a (snd p)" and free: "fst p = InstanceGuid (snd p)" "\<not> stop_queued ?a (fst p)"
    using analyzeApp_stops(1) [OF ok, of "ev_runtime env n" 0] m by (auto simp: stops_all_def)
  then obtain h where h: "h \<in> set (app_InstanceHeartbeats app)" "hb_InstanceGuid h = InstanceGuid (snd p)"
      "AppGuid (snd p) = app_AppGuid app" "AppVersion (snd p) = app_AppVersion app"
    and why: "extra_justified ?a (snd p) h \<or> duplicate_justified ?a (snd p) h \<or> evacuation_justified ?a (snd p) h"
    by (auto simp: stop_justified_def named_by_def az)
  have evacuating: "stop_grounds (map_of starts) app k" if "evacuation_justified ?a (snd p) k" for k
    using that crash_count_any_time [of app "hb_InstanceIndex k" "ev_clock env n" "time_Unix 0"]
    by (auto simp: evacuation_justified_def stop_grounds_def az Let_def split: if_splits)
  have "\<exists>k\<in>set (app_InstanceHeartbeats app). hb_InstanceGuid k = InstanceGuid (snd p) \<and> stop_grounds (map_of starts) app k"
  proof (cases "an_startMessages ?run = []")
    case True
    then have "\<forall>j. start_wanted app j \<longrightarrow> map_of starts (instance_key app j) \<noteq> None"
      unfolding analyzeApp_starts no_starts_iff using expected_start_wanted by metis
    then have "stop_grounds (map_of starts) app h"
      using why evacuating [of h]
      by (auto simp: extra_justified_def duplicate_justified_def stop_grounds_def az Let_def dest: states_apart)
    then show ?thesis using h by blast
  next
    case False
    then have "named_by ?a (snd p) (evacuation_justified ?a (snd p))"
      using analyzeApp_stops(2) [OF ok False] m by (simp add: stops_all_def)
    then show ?thesis using evacuating by (auto simp: named_by_def az)
  qed
  then show ?thesis using h free by (simp add: sound_stop_def stop_queued_def newAppAnalyzer_def)
qed

subsection \<open>The run over all apps\<close>

text \<open>An app of the run as one of the desired apps made it.\<close>

definition app_desired_as :: "DesiredAppState set \<Rightarrow> (string, App) gomap \<Rightarrow> App \<Rightarrow> bool" where
  "app_desired_as D apps app \<longleftrightarrow>
     (\<exists>d\<in>D. \<exists>a. map_of apps (DesiredAppState_StoreKey d) = Some a \<and> app = a\<lparr>app_Desired := d\<rparr>)"

lemma app_desired_as_mput:
  assumes "app_desired_as D apps app" and "map_of apps k = Some a"
  shows "app_desired_as D (mput k (a\<lparr>app_Desired := d\<rparr>) apps) app"
proof -
  obtain d' a' where d': "d' \<in> D" "map_of apps (DesiredAppState_StoreKey d') = Some a'" "app = a'\<lparr>app_Desired := d'\<rparr>"
    using assms(1) by (auto simp: app_desired_as_def)
  show ?thesis
  proof (cases "DesiredAppState_StoreKey d' = k")
    case True
    then have "a' = a" using d'(2) assms(2) by simp
    then show ?thesis
      unfolding app_desired_as_def using d' True by (intro bexI [of _ d'] exI [of _ "a\<lparr>app_Desired := d\<rparr>"]) simp_all
  next
    case False
    then show ?thesis
      unfolding app_desired_as_def using d' by (intro bexI [of _ d'] exI [of _ a']) simp_all
  qed
qed

lemma app_desired_as_new:
  assumes "app_desired_as D apps app" and "map_of apps k = None"
  shows "app_desired_as D (mput k a apps) app"
proof -
  obtain d' a' where d': "d' \<in> D" "map_of apps (DesiredAppState_StoreKey d') = Some a'" "app = a'\<lparr>app_Desired := d'\<rparr>"
    using assms(1) by (auto simp: app_desired_as_def)
  then have "DesiredAppState_StoreKey d' \<noteq> k" using assms(2) by auto
  then show ?thesis
    unfolding app_desired_as_def using d' by (intro bexI [of _ d'] exI [of _ a']) simp_all
qed

definition analyze_inv :: "(string, PendingStartMessage) gomap \<Rightarrow> (string, PendingStopMessage) gomap
    \<Rightarrow> DesiredAppState set \<Rightarrow> InstanceHeartbeat set \<Rightarrow> analyze_state \<Rightarrow> bool" where
  "analyze_inv starts stops D H s \<longleftrightarrow>
     (\<forall>p\<in>set (al_actualApps s). app_ok (snd p) \<and> set (app_InstanceHeartbeats (snd p)) \<subseteq> H)
   \<and> gomap_ok (al_appsPendingRemoval s)
   \<and> (\<forall>k a. map_of (al_appsPendingRemoval s) k = Some a \<longrightarrow> map_of (al_actualApps s) k = Some a \<and> undesired a)
   \<and> (\<forall>m\<in>set (al_newStartMessages s). \<exists>app. app_desired_as D (al_actualApps s) app \<and> sound_start starts app m)
   \<and> (\<forall>m\<in>set (al_newStopMessages s). \<exists>app. app_desired_as D (al_actualApps s) app \<and> sound_stop starts stops app m)"

lemma analyze_inv_desired:
  assumes "analyze_inv starts stops D H s" and "d \<in> D"
  shows "analyze_inv starts stops D H (analyze_desired env conf starts stops d s)"
proof -
  let ?key = "DesiredAppState_StoreKey d"
  note inv = assms(1) [unfolded analyze_inv_def]
  obtain app removal where app: "(case map_of (al_actualApps s) ?key of
             None \<Rightarrow> (NewApp (ds_AppGuid d) (ds_AppVersion d) d [] [], al_appsPendingRemoval s)
           | Some app \<Rightarrow> (app\<lparr>app_Desired := d\<rparr>, mdel ?key (al_appsPendingRemoval s))) = (app, removal)"
    by fastforce
  let ?apps = "mput ?key app (al_actualApps s)"
  have ok: "app_ok app" "app_Desired app = d" "set (app_InstanceHeartbeats app) \<subseteq> H"
    using app inv by (force simp: NewApp_def [of _ _ d] app_ok_NewApp [unfolded NewApp_def] split: option.splits
        dest!: map_of_SomeD)+
  have here: "app_desired_as D ?apps app"
    using assms(2) ok(2) by (auto simp: app_desired_as_def intro!: bexI [of _ d])
  have kept: "app_desired_as D ?apps a" if "app_desired_as D (al_actualApps s) a" for a
    using that app by (auto split: option.splits intro: app_desired_as_mput app_desired_as_new)
  have removed: "map_of ?apps k = Some a \<and> undesired a" if "map_of removal k = Some a" for k a
    using that app inv by (cases "map_of (al_actualApps s) ?key") (auto split: if_splits)
  have rok: "gomap_ok removal" using app inv by (auto split: option.splits)
  let ?run = "run_analysis env conf starts stops app (al_analysed s)"
  have new: "sound_start starts app m" if "m \<in> snd ` set (an_startMessages ?run)" for m
    using that run_analysis_starts by fastforce
  have stop: "sound_stop starts stops app m" if "m \<in> snd ` set (an_stopMessages ?run)" for m
    using that run_analysis_stops [OF _ ok(1)] by fastforce
  show ?thesis
    unfolding analyze_desired_def Let_def app prod.case analyze_inv_def
  proof (intro conjI ballI allI impI, goal_cases)
    case (1 p)
    then show ?case using inv ok set_mput_subset [of ?key app "al_actualApps s"] by auto
  next
    case (2 p)
    then have "p \<in> set ?apps" by simp
    then have "p = (?key, app) \<or> p \<in> set (al_actualApps s)" using set_mput_subset [of ?key app "al_actualApps s"] by blast
    then show ?case using inv ok by auto
  next
    case 3
    show ?case using rok by simp
  next
    case (4 k a)
    then show ?case using removed by simp
  next
    case (5 k a)
    then show ?case using removed by simp
  next
    case (6 m)
    then consider "m \<in> set (al_newStartMessages s)" | "m \<in> snd ` set (an_startMessages ?run)" by auto
    then show ?case
    proof cases
      case 1 then show ?thesis using inv kept by fastforce
    next
      case 2 then show ?thesis using here new by fastforce
    qed
  next
    case (7 m)
    then consider "m \<in> set (al_newStopMessages s)" | "m \<in> snd ` set (an_stopMessages ?run)" by auto
    then show ?case
    proof cases
      case 1 then show ?thesis using inv kept by fastforce
    next
      case 2 then show ?thesis using here stop by fastforce
    qed
  qed
qed

lemma analyze_inv_batches:
  assumes "\<forall>p\<in>set apps. app_ok (snd p) \<and> set (app_InstanceHeartbeats (snd p)) \<subseteq> H" and "gomap_ok apps" and "\<And>k a. map_of apps k = Some a \<Longrightarrow> undesired a"
  shows "analyze_inv starts stops (desired_apps batches) H (analyze_batches env conf starts stops batches apps)"
    (is "?P (analyze_batches env conf starts stops batches apps)")
  unfolding analyze_batches_def
proof (rule fold_invariant_set [where P = ?P])
  show "?P \<lparr>al_actualApps = apps, al_appsPendingRemoval = apps, al_newStartMessages = [],
      al_newStopMessages = [], al_crashCounts = [], al_analysed = 0\<rparr>"
    using assms by (simp add: analyze_inv_def)
  fix ib s assume ib: "ib \<in> set (enumerate 0 batches)" and s: "?P s"
  have "snd p \<in> desired_apps batches" if "p \<in> set (snd ib)" for p
    using that ib set_enumerate_snd [of "fst ib" "snd ib" 0 batches] by (auto simp: desired_apps_def)
  then show "?P (analyze_batch env conf starts stops ib s)"
    unfolding analyze_batch_def case_prod_beta
    by (intro fold_invariant_set [where P = ?P, OF s] analyze_inv_desired) auto
qed

lemma analyze_removals_sound:
  assumes "analyze_inv starts stops D H s" and "m \<in> set (al_newStopMessages (analyze_removals env conf starts stops s))"
  shows "\<exists>app. set (app_InstanceHeartbeats app) \<subseteq> H
     \<and> (app_desired_as D (al_actualApps s) app \<or> (\<exists>k. map_of (al_actualApps s) k = Some app) \<and> undesired app)
     \<and> sound_stop starts stops app m"
proof -
  note inv = assms(1) [unfolded analyze_inv_def]
  let ?removed = "map snd (go_range (ev_removal env) (al_appsPendingRemoval s))"
  have app: "(\<exists>k. map_of (al_actualApps s) k = Some app) \<and> undesired app \<and> app_ok app \<and> set (app_InstanceHeartbeats app) \<subseteq> H" if "app \<in> set ?removed" for app
  proof -
    obtain k where "(k, app) \<in> set (al_appsPendingRemoval s)" using \<open>app \<in> set ?removed\<close> by auto
    then have "map_of (al_appsPendingRemoval s) k = Some app" using inv by (simp add: map_of_Some_iff)
    then have "map_of (al_actualApps s) k = Some app" "undesired app" using inv by blast+
    then show ?thesis using inv map_of_SomeD [of "al_actualApps s" k app] by fastforce
  qed
  let ?P = "\<lambda>t :: analyze_state. \<forall>m\<in>set (al_newStopMessages t).
      m \<in> set (al_newStopMessages s) \<or> (\<exists>app\<in>set ?removed. sound_stop starts stops app m)"
  have "?P (analyze_removals env conf starts stops s)"
    unfolding analyze_removals_def
  proof (rule fold_invariant_set [where P = ?P])
    fix a and t :: analyze_state assume a: "a \<in> set ?removed" and t: "?P t"
    have "sound_stop starts stops a m" if "m \<in> snd ` set (an_stopMessages (run_analysis env conf starts stops a (al_analysed t)))" for m
      using that run_analysis_stops app [OF a] by fastforce
    then show "?P (analyze_removal env conf starts stops a t)"
      using t a by (auto simp: analyze_removal_def Let_def)
  qed simp
  then have found: "m \<in> set (al_newStopMessages s) \<or> (\<exists>app\<in>set ?removed. sound_stop starts stops app m)"
    using assms(2) by blast
  have H: "set (app_InstanceHeartbeats app) \<subseteq> H" if "app_desired_as D (al_actualApps s) app" for app
    using that inv by (fastforce simp: app_desired_as_def dest: map_of_SomeD)
  from found show ?thesis
  proof
    assume "m \<in> set (al_newStopMessages s)"
    then obtain app where "app_desired_as D (al_actualApps s) app" "sound_stop starts stops app m" using inv by blast
    then show ?thesis using H by blast
  next
    assume "\<exists>app\<in>set ?removed. sound_stop starts stops app m"
    then obtain app where "app \<in> set ?removed" "sound_stop starts stops app m" by blast
    then show ?thesis using app by blast
  qed
qed

lemma removals_apps:
  "al_actualApps (analyze_removals env conf starts stops s) = al_actualApps s"
  "al_newStartMessages (analyze_removals env conf starts stops s) = al_newStartMessages s"
proof -
  have "al_actualApps (analyze_removals env conf starts stops s) = al_actualApps s
     \<and> al_newStartMessages (analyze_removals env conf starts stops s) = al_newStartMessages s"
    unfolding analyze_removals_def
    by (rule fold_invariant_set [where P = "\<lambda>t. al_actualApps t = al_actualApps s \<and> al_newStartMessages t = al_newStartMessages s"])
      (simp_all add: analyze_removal_def Let_def)
  then show "al_actualApps (analyze_removals env conf starts stops s) = al_actualApps s"
    "al_newStartMessages (analyze_removals env conf starts stops s) = al_newStartMessages s" by simp_all
qed

end
