(* ===== verification/Desired_State_Fetcher.thy ===== *)
theory Desired_State_Fetcher
  imports Analyzer "HOL-Library.Char_ord" "HOL-Library.List_Lexorder"
begin

text \<open>
  \<open>desiredstatefetcher/\<close>: the desired apps, fetched page by page from the cloud controller and put
  into the app queue.

  Each page names the token for the next one; an empty page ends the run. Nothing bounds the number
  of pages, so \<open>fetchBatch\<close> is a partial function: a run that never ends has no result. Whether the
  analyzer has stopped when the \<open>n\<close>-th page is sent is the argument \<open>stopped\<close>, since the program waits
  for the queue and for the end of the analyzer at the same time.
\<close>

subsection \<open>The response of the server\<close>

record DesiredStateServerResponse =
  rs_Results :: "(string, DesiredAppState) gomap"
  rs_BulkToken :: int

text \<open>Every entry of the object is decoded into a fresh struct; \<open>null\<close> leaves it empty.\<close>

fun decode_results :: "(string, DesiredAppState) gomap \<Rightarrow> (string \<times> json) list
    \<Rightarrow> (string, DesiredAppState) gomap option" where
  "decode_results m [] = Some m"
| "decode_results m ((k, j) # fs) =
     (case (if j = JNull then Some zero_DesiredAppState else jstruct decode_DesiredAppState j) of
        None \<Rightarrow> None
      | Some d \<Rightarrow> decode_results (mput k d m) fs)"

definition decode_BulkToken :: "int \<Rightarrow> (string \<times> json) list \<Rightarrow> int option" where
  "decode_BulkToken i fs = jfield jint ''id'' i fs"

definition NewDesiredStateServerResponse :: "bytes \<Rightarrow> DesiredStateServerResponse option" where
  "NewDesiredStateServerResponse jsonMessage = unmarshal_struct
     (\<lambda>fs. do {
        results \<leftarrow> jnested decode_results ''results'' [] fs;
        token \<leftarrow> jnested decode_BulkToken ''bulk_token'' 0 fs;
        Some \<lparr>rs_Results = results, rs_BulkToken = token\<rparr> })
     \<lparr>rs_Results = [], rs_BulkToken = 0\<rparr> jsonMessage"

text \<open>The compact text of the token's JSON object.\<close>

definition BulkTokenRepresentation :: "DesiredStateServerResponse \<Rightarrow> string" where
  "BulkTokenRepresentation response =
     ''{'' @ [CHR 0x22] @ ''id'' @ [CHR 0x22] @ '':'' @ itoa (rs_BulkToken response) @ ''}''"

text \<open>\<open>Marshal\<close> sorts the keys of a map.\<close>

definition Response_ToJSON :: "DesiredStateServerResponse \<Rightarrow> bytes" where
  "Response_ToJSON response = Doc (JObj
     [(''results'', JObj (map (\<lambda>(k, d). (k, DesiredAppState_json d)) (sort_key fst (rs_Results response)))),
      (''bulk_token'', JObj [(''id'', JInt (rs_BulkToken response))])])"

subsection \<open>Fetching\<close>

datatype fetch_error =
    NoURL string
  | NoAnswer string
  | Unauthorized
  | InvalidResponseCode
  | NoBody string
  | NoJSON
  | NotAnalyzing

record DesiredStateFetcherResult =
  fr_Success :: bool
  fr_Message :: string
  fr_Error :: "fetch_error option"
  fr_NumResults :: int

definition failed_fetch :: "string \<Rightarrow> fetch_error \<Rightarrow> DesiredStateFetcherResult" where
  "failed_fetch message err =
     \<lparr>fr_Success = False, fr_Message = message, fr_Error = Some err, fr_NumResults = 0\<rparr>"

definition initialBulkToken :: string where "initialBulkToken = ''{}''"

definition bulkURL :: "Config \<Rightarrow> int \<Rightarrow> string \<Rightarrow> string" where
  "bulkURL conf batchSize bulkToken =
     CCBaseURL conf @ ''/bulk/apps?batch_size='' @ itoa batchSize @ ''&bulk_token='' @ bulkToken"

definition guids :: "DesiredAppState list \<Rightarrow> string" where
  "guids desiredStates = join_with '','' (map ds_AppGuid desiredStates)"

definition is_relevant :: "DesiredAppState \<Rightarrow> bool" where
  "is_relevant d \<longleftrightarrow> ds_State d = AppStateStarted
     \<and> (ds_PackageState d = AppPackageStateStaged \<or> ds_PackageState d = AppPackageStatePending)"

definition batch_of :: "choice \<Rightarrow> DesiredStateServerResponse \<Rightarrow> (string, DesiredAppState) gomap" where
  "batch_of ch response = fold (\<lambda>(k, d) cache. if is_relevant d then mput (DesiredAppState_StoreKey d) d cache else cache)
     (go_range ch (rs_Results response)) []"

definition sendBatch :: "bool \<Rightarrow> choice \<Rightarrow> DesiredStateServerResponse \<Rightarrow> AppQueue \<Rightarrow> fetch_error option \<times> AppQueue" where
  "sendBatch stopped ch response appQueue =
     (if stopped then (Some NotAnalyzing, appQueue)
      else (None, appQueue\<lparr>DesiredApps := DesiredApps appQueue @ [batch_of ch response]\<rparr>))"

partial_function (option) fetchBatch :: "'w externals \<Rightarrow> Config \<Rightarrow> (nat \<Rightarrow> bool) \<Rightarrow> (nat \<Rightarrow> choice) \<Rightarrow> string \<Rightarrow> nat
    \<Rightarrow> string \<Rightarrow> int \<Rightarrow> AppQueue \<Rightarrow> 'w \<Rightarrow> (DesiredStateFetcherResult \<times> AppQueue \<times> 'w) option" where
  "fetchBatch ex conf stopped ch authorization n token numResults appQueue w =
     (case http_get ex (bulkURL conf (DesiredStateBatchSize conf) token) authorization w of
        (Inl (BadRequestURL err), w') \<Rightarrow>
          Some (failed_fetch ''Failed to generate URL request'' (NoURL err), appQueue, w')
      | (Inl (RequestFailed err), w') \<Rightarrow>
          Some (failed_fetch ''HTTP request failed with error'' (NoAnswer err), appQueue, w')
      | (Inr (status, body), w') \<Rightarrow>
          if status = 401
          then Some (failed_fetch ''HTTP request received unauthorized response code'' Unauthorized, appQueue, w')
          else if status \<noteq> 200
          then Some (failed_fetch (''HTTP request received non-200 response ('' @ itoa (int status) @ '')'')
                       InvalidResponseCode, appQueue, w')
          else (case body of
                  Inl err \<Rightarrow> Some (failed_fetch ''Failed to read HTTP response body'' (NoBody err), appQueue, w')
                | Inr bytes \<Rightarrow>
                    (case NewDesiredStateServerResponse bytes of
                       None \<Rightarrow> Some (failed_fetch ''Failed to parse HTTP response body JSON'' NoJSON, appQueue, w')
                     | Some response \<Rightarrow>
                         if length (rs_Results response) = 0
                         then Some (\<lparr>fr_Success = True, fr_Message = [], fr_Error = None,
                                      fr_NumResults = numResults\<rparr>, appQueue, w')
                         else (case sendBatch (stopped n) (ch n) response appQueue of
                                 (Some err, appQueue') \<Rightarrow>
                                   Some (failed_fetch ''Stopping fetcher'' err, appQueue', w')
                               | (None, appQueue') \<Rightarrow>
                                   fetchBatch ex conf stopped ch authorization (Suc n)
                                     (BulkTokenRepresentation response)
                                     (wrap64 (numResults + int (length (rs_Results response)))) appQueue' w'))))"

definition Fetch :: "'w externals \<Rightarrow> Config \<Rightarrow> (nat \<Rightarrow> bool) \<Rightarrow> (nat \<Rightarrow> choice) \<Rightarrow> AppQueue \<Rightarrow> 'w
    \<Rightarrow> (DesiredStateFetcherResult \<times> AppQueue \<times> 'w) option" where
  "Fetch ex conf stopped ch appQueue w =
     fetchBatch ex conf stopped ch (BasicAuthInfo_Encode \<lparr>User = CCAuthUser conf, Password = CCAuthPassword conf\<rparr>)
       0 initialBulkToken 0 appQueue w"

subsection \<open>Runs of the server\<close>

text \<open>
  \<open>page_run ex conf auth token w rs w'\<close>: asked with \<open>token\<close> in the world \<open>w\<close>, the server hands out the
  non-empty pages \<open>rs\<close>, each asked for with the token of the one before, and then an empty page.
\<close>

definition page_at :: "'w externals \<Rightarrow> Config \<Rightarrow> string \<Rightarrow> string \<Rightarrow> 'w \<Rightarrow> (DesiredStateServerResponse \<times> 'w) option" where
  "page_at ex conf auth token w =
     (case http_get ex (bulkURL conf (DesiredStateBatchSize conf) token) auth w of
        (Inr (status, Inr bytes), w') \<Rightarrow>
          if status = 200 then map_option (\<lambda>r. (r, w')) (NewDesiredStateServerResponse bytes) else None
      | _ \<Rightarrow> None)"

inductive page_run :: "'w externals \<Rightarrow> Config \<Rightarrow> string \<Rightarrow> string \<Rightarrow> 'w \<Rightarrow> DesiredStateServerResponse list \<Rightarrow> 'w \<Rightarrow> bool"
  for ex :: "'w externals" and conf :: Config and auth :: string where
  page_end: "page_at ex conf auth token w = Some (r, w') \<Longrightarrow> rs_Results r = [] \<Longrightarrow> page_run ex conf auth token w [] w'"
| page_more: "page_at ex conf auth token w = Some (r, w1) \<Longrightarrow> rs_Results r \<noteq> [] \<Longrightarrow>
     page_run ex conf auth (BulkTokenRepresentation r) w1 rs w' \<Longrightarrow> page_run ex conf auth token w (r # rs) w'"

inductive_cases page_run_NilE: "page_run ex conf auth token w [] w'"
inductive_cases page_run_ConsE: "page_run ex conf auth token w (r # rs) w'"

definition total_results :: "int \<Rightarrow> DesiredStateServerResponse list \<Rightarrow> int" where
  "total_results n rs = fold (\<lambda>r n. wrap64 (n + int (length (rs_Results r)))) rs n"

definition batches_of :: "(nat \<Rightarrow> choice) \<Rightarrow> nat \<Rightarrow> DesiredStateServerResponse list \<Rightarrow> (string, DesiredAppState) gomap list" where
  "batches_of ch n rs = map (\<lambda>(i, r). batch_of (ch i) r) (enumerate n rs)"

definition fetched :: "int \<Rightarrow> DesiredStateFetcherResult" where
  "fetched n = \<lparr>fr_Success = True, fr_Message = [], fr_Error = None, fr_NumResults = n\<rparr>"

text \<open>One unfolding of the recursion, as a case split over the page.\<close>

lemma fetchBatch_page:
  assumes "page_at ex conf auth token w = Some (r, w1)"
  shows "fetchBatch ex conf stopped ch auth n token k q w =
     (if rs_Results r = [] then Some (fetched k, q, w1)
      else if stopped n then Some (failed_fetch ''Stopping fetcher'' NotAnalyzing, q, w1)
      else fetchBatch ex conf stopped ch auth (Suc n) (BulkTokenRepresentation r)
             (wrap64 (k + int (length (rs_Results r))))
             (q\<lparr>DesiredApps := DesiredApps q @ [batch_of (ch n) r]\<rparr>) w1)"
  using assms
  by (subst fetchBatch.simps)
    (auto simp: page_at_def sendBatch_def fetched_def split: prod.splits sum.splits if_splits)

lemma fetchBatch_no_page:
  assumes "page_at ex conf auth token w = None"
  obtains res w1 where "fetchBatch ex conf stopped ch auth n token k q w = Some (res, q, w1)" "\<not> fr_Success res"
proof -
  have "\<exists>res w1. fetchBatch ex conf stopped ch auth n token k q w = Some (res, q, w1) \<and> \<not> fr_Success res"
    using assms
    by (subst fetchBatch.simps)
      (auto simp: page_at_def failed_fetch_def split: prod.splits sum.splits if_splits http_error.splits)
  then show thesis using that by blast
qed

lemma fetchBatch_page_run:
  assumes "page_run ex conf auth token w rs w'" and "\<And>i. i \<ge> n \<Longrightarrow> i < n + length rs \<Longrightarrow> \<not> stopped i"
  shows "fetchBatch ex conf stopped ch auth n token k q w =
     Some (fetched (total_results k rs), q\<lparr>DesiredApps := DesiredApps q @ batches_of ch n rs\<rparr>, w')"
  using assms
proof (induction arbitrary: n k q)
  case (page_end token w r w')
  then show ?case by (simp add: fetchBatch_page total_results_def batches_of_def)
next
  case (page_more token w r w1 rs w')
  have "\<not> stopped i" if "Suc n \<le> i" "i < Suc n + length rs" for i using page_more.prems that by simp
  from page_more.IH [of "Suc n", OF this] show ?case
    using page_more.hyps page_more.prems [of n]
    by (simp add: fetchBatch_page total_results_def batches_of_def)
qed

text \<open>A successful fetch has seen such a run, and was stopped at none of its pages.\<close>

definition fetch_claim :: "'w externals \<Rightarrow> Config \<Rightarrow> (nat \<Rightarrow> bool) \<Rightarrow> (nat \<Rightarrow> choice) \<Rightarrow> string \<Rightarrow> nat \<Rightarrow> string \<Rightarrow> int
    \<Rightarrow> AppQueue \<Rightarrow> 'w \<Rightarrow> DesiredStateFetcherResult \<times> AppQueue \<times> 'w \<Rightarrow> bool" where
  "fetch_claim ex conf stopped ch auth n token k q w y \<longleftrightarrow> fr_Success (fst y) \<longrightarrow>
     (\<exists>rs. page_run ex conf auth token w rs (snd (snd y)) \<and> (\<forall>i. n \<le> i \<and> i < n + length rs \<longrightarrow> \<not> stopped i))"

lemma fetch_claim_more:
  assumes "page_at ex conf auth token w = Some (r, w1)" and "rs_Results r \<noteq> []" and "\<not> stopped n"
    and "fetch_claim ex conf stopped ch auth (Suc n) (BulkTokenRepresentation r) k' q' w1 y"
  shows "fetch_claim ex conf stopped ch auth n token k q w y"
  unfolding fetch_claim_def
proof
  assume "fr_Success (fst y)"
  then obtain rs where rs: "page_run ex conf auth (BulkTokenRepresentation r) w1 rs (snd (snd y))"
    "\<forall>i. Suc n \<le> i \<and> i < Suc n + length rs \<longrightarrow> \<not> stopped i"
    using assms(4) by (auto simp: fetch_claim_def)
  have "\<not> stopped i" if "n \<le> i \<and> i < n + length (r # rs)" for i
    using rs(2) assms(3) that by (cases "i = n") auto
  then show "\<exists>rs. page_run ex conf auth token w rs (snd (snd y)) \<and> (\<forall>i. n \<le> i \<and> i < n + length rs \<longrightarrow> \<not> stopped i)"
    using page_run.page_more [OF assms(1,2) rs(1)] by blast
qed

lemma fetch_claim_end:
  assumes "page_at ex conf auth token w = Some (r, w1)" and "rs_Results r = []"
  shows "fetch_claim ex conf stopped ch auth n token k q w (res, q, w1)"
  using page_run.page_end [OF assms] by (force simp: fetch_claim_def)

lemma fetch_claim_failed: "\<not> fr_Success (fst y) \<Longrightarrow> fetch_claim ex conf stopped ch auth n token k q w y"
  by (simp add: fetch_claim_def)

lemma fetchBatch_success:
  assumes "fetchBatch ex conf stopped ch auth n token k q w = Some (res, q', w')" and "fr_Success res"
  shows "\<exists>rs. page_run ex conf auth token w rs w' \<and> (\<forall>i. n \<le> i \<and> i < n + length rs \<longrightarrow> \<not> stopped i)"
proof -
  have "fetch_claim ex conf stopped ch auth n token k q w (res, q', w')"
  proof (rule fetchBatch.raw_induct [OF _ assms(1), where P = fetch_claim], goal_cases)
    case (1 f ex conf stopped ch auth n token k q w y)
    show ?case
    proof (cases "page_at ex conf auth token w")
      case None
      then show ?thesis using 1(2)
        by (auto simp: page_at_def failed_fetch_def fetch_claim_def split: prod.splits sum.splits if_splits http_error.splits)
    next
      case (Some p)
      obtain r w1 where p: "p = (r, w1)" by fastforce
      have rec: "fetch_claim ex conf stopped ch auth (Suc n) (BulkTokenRepresentation r) k' q' w1 y"
        if "f ex conf stopped ch auth (Suc n) (BulkTokenRepresentation r) k' q' w1 = Some y" for k' q'
        using 1(1) [OF that] .
      show ?thesis
        using 1(2) Some fetch_claim_end [OF Some [unfolded p], of stopped ch n k q]
          fetch_claim_more [OF Some [unfolded p], of stopped n ch _ _ y k q] rec
        by (auto simp: page_at_def p sendBatch_def failed_fetch_def fetch_claim_failed
            split: prod.splits sum.splits if_splits)
    qed
  qed
  then show ?thesis using assms(2) by (simp add: fetch_claim_def)
qed

text \<open>
  When every non-empty page brings the server closer to its end, as a bulk API over finitely many
  apps does, the fetch returns.
\<close>

lemma fetchBatch_returns:
  fixes rank :: "'w \<Rightarrow> nat"
  assumes "\<And>token w r w'. page_at ex conf auth token w = Some (r, w') \<Longrightarrow> rs_Results r \<noteq> [] \<Longrightarrow> rank w' < rank w"
  shows "\<exists>y. fetchBatch ex conf stopped ch auth n token k q w = Some y"
proof (induction "rank w" arbitrary: n token k q w rule: less_induct)
  case less
  show ?case
  proof (cases "page_at ex conf auth token w")
    case None
    then show ?thesis using fetchBatch_no_page by metis
  next
    case (Some p)
    obtain r w1 where p: "p = (r, w1)" by fastforce
    show ?thesis
      using less [of w1] assms [OF Some [unfolded p]] by (simp add: fetchBatch_page [OF Some [unfolded p]])
  qed
qed

text \<open>A page never grows the queue by an app that is not relevant, or by one under another key.\<close>

definition batch_ok :: "(string, DesiredAppState) gomap \<Rightarrow> bool" where
  "batch_ok b \<longleftrightarrow> (\<forall>(k, d)\<in>set b. is_relevant d \<and> k = DesiredAppState_StoreKey d)"

lemma batch_of_ok: "batch_ok (batch_of ch r)"
proof -
  have "batch_ok (fold (\<lambda>(k, d) cache. if is_relevant d then mput (DesiredAppState_StoreKey d) d cache else cache) xs m)"
    if "batch_ok m" for xs :: "(string \<times> DesiredAppState) list" and m
    using that
  proof (induction xs arbitrary: m)
    case (Cons x xs)
    have "batch_ok (mput (DesiredAppState_StoreKey (snd x)) (snd x) m)" if "is_relevant (snd x)"
      using Cons.prems set_mput_subset [of "DesiredAppState_StoreKey (snd x)" "snd x" m] that
      by (fastforce simp: batch_ok_def)
    then show ?case using Cons by (cases x) simp
  qed simp
  then show ?thesis unfolding batch_of_def by (simp add: batch_ok_def [of "[]"])
qed

end
