(* ===== verification/Metrics.thy ===== *)
theory Metrics imports App_Model Store_Core begin

text \<open>
  \<open>helpers/metricsaccountant/metrics_accountant.go\<close>, the counters of sent messages and heartbeats,
  and \<open>analyzer/app_metrics.go\<close>, the gauges of one run of the analyzer. The metrics client is the
  fields \<open>metrics_AddToCounter\<close> and \<open>metrics_SendValue\<close> of the externals; the orders in which Go
  ranges over the map of counts are the arguments \<open>ch\<close>.
\<close>

subsection \<open>Sent messages and heartbeats\<close>

definition startMetrics :: "(PendingStartMessageReason, string) gomap" where
  "startMetrics =
     [(PendingStartMessageReasonCrashed, ''StartCrashed''),
      (PendingStartMessageReasonMissing, ''StartMissing''),
      (PendingStartMessageReasonEvacuating, ''StartEvacuating'')]"

definition stopMetrics :: "(PendingStopMessageReason, string) gomap" where
  "stopMetrics =
     [(PendingStopMessageReasonDuplicate, ''StopDuplicate''),
      (PendingStopMessageReasonExtra, ''StopExtra''),
      (PendingStopMessageReasonEvacuationComplete, ''StopEvacuationComplete'')]"

text \<open>A reason that is not in the map reads as the empty name.\<close>

definition metric_name :: "(string, string) gomap \<Rightarrow> string \<Rightarrow> string" where
  "metric_name names reason = (case map_of names reason of None \<Rightarrow> [] | Some name \<Rightarrow> name)"

definition addOne :: "(string, nat) gomap \<Rightarrow> string \<Rightarrow> (string, nat) gomap" where
  "addOne m key = (let v = (case map_of m key of None \<Rightarrow> 0 | Some v \<Rightarrow> v) in mput key (v + 1) m)"

definition count_messages ::
    "PendingStartMessage list \<Rightarrow> PendingStopMessage list \<Rightarrow> (string, nat) gomap" where
  "count_messages starts stops =
     fold (\<lambda>stop counts. addOne counts (metric_name stopMetrics (StopReason stop))) stops
       (fold (\<lambda>start counts. addOne counts (metric_name startMetrics (StartReason start))) starts [])"

fun add_to_counters :: "'w externals \<Rightarrow> (string \<times> nat) list \<Rightarrow> 'w \<Rightarrow> hm_error option \<times> 'w" where
  "add_to_counters ex [] w = (None, w)"
| "add_to_counters ex ((key, n) # counts) w =
     (case metrics_AddToCounter ex key n w of
        (Some err, w') \<Rightarrow> (Some (MetricsError err), w')
      | (None, w') \<Rightarrow> add_to_counters ex counts w')"

definition IncrementSentMessageMetrics :: "'w externals \<Rightarrow> choice \<Rightarrow> PendingStartMessage list
    \<Rightarrow> PendingStopMessage list \<Rightarrow> 'w \<Rightarrow> hm_error option \<times> 'w" where
  "IncrementSentMessageMetrics ex ch starts stops w =
     add_to_counters ex (go_range ch (count_messages starts stops)) w"

definition TrackReceivedHeartbeats :: "'w externals \<Rightarrow> int \<Rightarrow> 'w \<Rightarrow> string option \<times> 'w" where
  "TrackReceivedHeartbeats ex metric w =
     metrics_SendValue ex ''ReceivedHeartbeats'' (float_of_int metric) w"

definition TrackSavedHeartbeats :: "'w externals \<Rightarrow> int \<Rightarrow> 'w \<Rightarrow> string option \<times> 'w" where
  "TrackSavedHeartbeats ex metric w =
     metrics_SendValue ex ''SavedHeartbeats'' (float_of_int metric) w"

subsection \<open>Gauges of the analyzer\<close>

definition zero_counts :: "(string, int) gomap" where
  "zero_counts = map (\<lambda>key. (key, 0))
     [''NumberOfAppsWithAllInstancesReporting'', ''NumberOfAppsWithMissingInstances'',
      ''NumberOfUndesiredRunningApps'', ''NumberOfRunningInstances'', ''NumberOfMissingIndices'',
      ''NumberOfCrashedInstances'', ''NumberOfCrashedIndices'', ''NumberOfDesiredApps'',
      ''NumberOfDesiredInstances'', ''NumberOfDesiredAppsPendingStaging'']"

definition count_at :: "(string, int) gomap \<Rightarrow> string \<Rightarrow> int" where
  "count_at counts key = (case map_of counts key of None \<Rightarrow> 0 | Some v \<Rightarrow> v)"

definition addToCounter :: "string \<Rightarrow> int \<Rightarrow> (string, int) gomap \<Rightarrow> (string, int) gomap" where
  "addToCounter key increment counts = mput key (wrap64 (count_at counts key + increment)) counts"

definition count_desired :: "App \<Rightarrow> (string, int) gomap \<Rightarrow> (string, int) gomap" where
  "count_desired app counts =
     (if ds_PackageState (app_Desired app) = AppPackageStatePending
      then addToCounter ''NumberOfDesiredAppsPendingStaging'' 1 counts
      else let counts1 = addToCounter ''NumberOfDesiredInstances'' (NumberOfDesiredInstances app)
                 (addToCounter ''NumberOfDesiredApps'' 1 counts);
               missing = wrap64 (NumberOfDesiredInstances app - NumberOfDesiredIndicesReporting app)
           in if missing = 0
              then addToCounter ''NumberOfAppsWithAllInstancesReporting'' 1 counts1
              else addToCounter ''NumberOfMissingIndices'' missing
                     (addToCounter ''NumberOfAppsWithMissingInstances'' 1 counts1))"

definition count_app :: "App \<Rightarrow> (string, int) gomap \<Rightarrow> (string, int) gomap" where
  "count_app app counts =
     (let counts1 =
        (if IsDesired app then count_desired app counts
         else if HasStartingOrRunningInstances app
         then addToCounter ''NumberOfUndesiredRunningApps'' 1 counts else counts)
      in addToCounter ''NumberOfCrashedIndices'' (NumberOfCrashedIndices app)
           (addToCounter ''NumberOfCrashedInstances'' (NumberOfCrashedInstances app)
             (addToCounter ''NumberOfRunningInstances'' (NumberOfStartingOrRunningInstances app) counts1)))"

definition app_counts :: "App list \<Rightarrow> (string, int) gomap" where
  "app_counts apps = fold count_app apps zero_counts"

text \<open>The errors of \<open>SendValue\<close> are ignored.\<close>

definition send_values :: "'w externals \<Rightarrow> (string \<times> int) list \<Rightarrow> 'w \<Rightarrow> 'w" where
  "send_values ex counts w =
     fold (\<lambda>(key, val) w. snd (metrics_SendValue ex key (float_of_int val) w)) counts w"

definition SendMetrics :: "'w externals \<Rightarrow> choice \<Rightarrow> choice \<Rightarrow> (string, App) gomap \<Rightarrow> hm_error option
    \<Rightarrow> 'w \<Rightarrow> 'w" where
  "SendMetrics ex ch_apps ch apps err w =
     (case err of
        None \<Rightarrow> send_values ex (go_range ch (app_counts (map snd (go_range ch_apps apps)))) w
      | Some _ \<Rightarrow> send_values ex (map (\<lambda>(key, _). (key, - 1)) (go_range ch zero_counts)) w)"

subsection \<open>What is counted\<close>

definition reason_count :: "string \<Rightarrow> PendingStartMessage list \<Rightarrow> PendingStopMessage list \<Rightarrow> nat" where
  "reason_count name starts stops =
     length (filter (\<lambda>m. metric_name startMetrics (StartReason m) = name) starts)
   + length (filter (\<lambda>m. metric_name stopMetrics (StopReason m) = name) stops)"

definition counted :: "(string, nat) gomap \<Rightarrow> string \<Rightarrow> nat" where
  "counted m k = (case map_of m k of None \<Rightarrow> 0 | Some n \<Rightarrow> n)"

lemma counted_addOne: "counted (addOne m key) k = counted m k + (if k = key then 1 else 0)"
  by (auto simp: counted_def addOne_def Let_def)

lemma counted_fold:
  "counted (fold (\<lambda>x m. addOne m (f x)) xs m) k = counted m k + length (filter (\<lambda>x. f x = k) xs)"
  by (induction xs arbitrary: m) (auto simp: counted_addOne)

lemma count_messages_counted: "counted (count_messages starts stops) k = reason_count k starts stops"
  by (simp add: count_messages_def counted_fold reason_count_def) (simp add: counted_def)

lemma gomap_ok_fold_addOne: "gomap_ok m \<Longrightarrow> gomap_ok (fold (\<lambda>x m. addOne m (f x)) xs m)"
  by (induction xs arbitrary: m) (auto simp: addOne_def Let_def)

definition positive_counts :: "(string, nat) gomap \<Rightarrow> bool" where
  "positive_counts m \<longleftrightarrow> (\<forall>k n. map_of m k = Some n \<longrightarrow> 0 < n)"

lemma positive_addOne: "positive_counts m \<Longrightarrow> positive_counts (addOne m key)"
  by (auto simp: positive_counts_def addOne_def Let_def)

lemma positive_fold_addOne: "positive_counts m \<Longrightarrow> positive_counts (fold (\<lambda>x m. addOne m (f x)) xs m)"
  by (induction xs arbitrary: m) (simp_all add: positive_addOne)

lemma count_messages_ok: "gomap_ok (count_messages starts stops)"
  by (simp add: count_messages_def gomap_ok_fold_addOne)

lemma count_messages_positive: "positive_counts (count_messages starts stops)"
  unfolding count_messages_def by (intro positive_fold_addOne) (simp add: positive_counts_def)

lemma wrap64_add: "wrap64 (wrap64 x + y) = wrap64 (x + y)"
proof -
  have "wrap64 x + y + 2 ^ 63 = (x + 2 ^ 63) mod 2 ^ 64 + y" by (simp add: wrap64_def)
  then have "wrap64 (wrap64 x + y) = ((x + 2 ^ 63) mod 2 ^ 64 + y) mod 2 ^ 64 - 2 ^ 63"
    by (simp only: wrap64_def [of "wrap64 x + y"])
  also have "\<dots> = (x + 2 ^ 63 + y) mod 2 ^ 64 - 2 ^ 63" by (simp only: mod_add_left_eq)
  also have "\<dots> = wrap64 (x + y)" by (simp add: wrap64_def algebra_simps)
  finally show ?thesis .
qed

lemma wrap64_add_right: "wrap64 (x + wrap64 y) = wrap64 (x + y)"
  using wrap64_add [of y x] by (simp add: add.commute)

lemma count_at_add:
  "count_at (addToCounter key n counts) k =
     (if k = key then wrap64 (count_at counts key + n) else count_at counts k)"
  by (simp add: addToCounter_def count_at_def)

text \<open>
  The desired apps are those with all and those with some instances reporting; in 64 bits this
  holds whatever the numbers are.
\<close>

definition gauges_ok :: "(string, int) gomap \<Rightarrow> bool" where
  "gauges_ok c \<longleftrightarrow>
     count_at c ''NumberOfDesiredApps'' = wrap64 (count_at c ''NumberOfAppsWithAllInstancesReporting''
       + count_at c ''NumberOfAppsWithMissingInstances'')"

lemmas gauge_simps = gauges_ok_def count_at_add wrap64_add wrap64_add_right

lemma wrap64_add_one: "a = wrap64 b \<Longrightarrow> wrap64 (a + 1) = wrap64 (b + 1)"
  by (simp add: wrap64_add)

lemma gauges_count_desired:
  assumes "gauges_ok c"
  shows "gauges_ok (count_desired app c)"
  using assms wrap64_add_one [OF assms [unfolded gauges_ok_def]]
  by (simp add: count_desired_def Let_def gauge_simps) (simp add: algebra_simps)

lemma gauges_count_app: "gauges_ok c \<Longrightarrow> gauges_ok (count_app app c)"
  using gauges_count_desired [of c app] by (simp add: count_app_def Let_def gauge_simps)

lemma gauges_app_counts: "gauges_ok (app_counts apps)"
proof -
  have "gauges_ok (fold count_app apps c)" if "gauges_ok c" for c
    using that by (induction apps arbitrary: c) (simp_all add: gauges_count_app)
  moreover have "gauges_ok zero_counts" by (simp add: gauges_ok_def zero_counts_def count_at_def wrap64_def)
  ultimately show ?thesis by (simp add: app_counts_def)
qed

end
