(* ===== verification/Sender.thy ===== *)
theory Sender imports Metrics Store_Freshness begin

text \<open>
  \<open>sender/sender.go\<close>: pending messages that are due are checked against the apps once more and
  posted to the cloud controller; what was sent, what is to be kept and what is to be deleted is
  collected in the fields of the sender and written to the store at the end.

  The apps are the result of the analyzer or, for the starts of evacuating instances, the nil map.
  Logging is left out. A request that cannot be made, or gets no answer, is the error branch of
  \<open>http_post\<close>.
\<close>

record sender =
  se_conf :: Config
  se_apps :: "(string, App) gomap"
  currentTime :: time
  numberOfStartMessagesSent :: int
  sentStartMessages :: "PendingStartMessage list"
  startMessagesToSave :: "PendingStartMessage list"
  startMessagesToDelete :: "PendingStartMessage list"
  sentStopMessages :: "PendingStopMessage list"
  stopMessagesToSave :: "PendingStopMessage list"
  stopMessagesToDelete :: "PendingStopMessage list"
  didSucceed :: bool

definition new_sender :: "Config \<Rightarrow> sender" where
  "new_sender conf = \<lparr>se_conf = conf, se_apps = [], currentTime = zero_time,
     numberOfStartMessagesSent = 0, sentStartMessages = [], startMessagesToSave = [],
     startMessagesToDelete = [], sentStopMessages = [], stopMessagesToSave = [],
     stopMessagesToDelete = [], didSucceed = True\<rparr>"

subsection \<open>What is to be sent\<close>

definition startMessageToSend :: "sender \<Rightarrow> PendingStartMessage \<Rightarrow> StartMessage option" where
  "startMessageToSend s message =
     (let messageToSend = \<lparr>sm_MessageId = MessageId message, sm_AppGuid = AppGuid message,
            sm_AppVersion = AppVersion message, sm_InstanceIndex = IndexToStart message\<rparr>
      in if SkipVerification message then Some messageToSend
         else case map_of (se_apps s) (AppKey (AppGuid message) (AppVersion message)) of
                None \<Rightarrow> None
              | Some app \<Rightarrow>
                  if \<not> IsDesired app then None
                  else if \<not> IsIndexDesired app (IndexToStart message) then None
                  else if HasStartingOrRunningInstanceAtIndex app (IndexToStart message) then None
                  else Some messageToSend)"

definition stopMessageToSend :: "sender \<Rightarrow> PendingStopMessage \<Rightarrow> StopMessage option" where
  "stopMessageToSend s message =
     (case map_of (se_apps s) (AppKey (AppGuid message) (AppVersion message)) of
        None \<Rightarrow> None
      | Some app \<Rightarrow>
          (let instanceToStop = InstanceWithGuid app (InstanceGuid message);
               messageToSend = (\<lambda>isDuplicate. \<lparr>xm_MessageId = MessageId message,
                 xm_AppGuid = AppGuid message, xm_AppVersion = AppVersion message,
                 xm_InstanceGuid = InstanceGuid message,
                 xm_InstanceIndex = hb_InstanceIndex instanceToStop, xm_IsDuplicate = isDuplicate\<rparr>)
           in if \<not> IsDesired app then Some (messageToSend False)
              else if \<not> IsIndexDesired app (hb_InstanceIndex instanceToStop) then Some (messageToSend False)
              else if hb_State instanceToStop = InstanceStateEvacuating then Some (messageToSend True)
              else if length (StartingOrRunningInstancesAtIndex app (hb_InstanceIndex instanceToStop)) > 1
              then Some (messageToSend True)
              else None))"

subsection \<open>What is to be saved and deleted\<close>

definition markStartMessageSent :: "PendingStartMessage \<Rightarrow> sender \<Rightarrow> sender" where
  "markStartMessageSent startMessage s = s\<lparr>startMessagesToSave :=
     startMessagesToSave s @ [startMessage\<lparr>SentOn := Unix (currentTime s)\<rparr>]\<rparr>"

definition markStopMessageSent :: "PendingStopMessage \<Rightarrow> sender \<Rightarrow> sender" where
  "markStopMessageSent stopMessage s = s\<lparr>stopMessagesToSave :=
     stopMessagesToSave s @ [stopMessage\<lparr>SentOn := Unix (currentTime s)\<rparr>]\<rparr>"

definition queueStartMessageForDeletion :: "PendingStartMessage \<Rightarrow> sender \<Rightarrow> sender" where
  "queueStartMessageForDeletion startMessage s =
     s\<lparr>startMessagesToDelete := startMessagesToDelete s @ [startMessage]\<rparr>"

definition queueStopMessageForDeletion :: "PendingStopMessage \<Rightarrow> sender \<Rightarrow> sender" where
  "queueStopMessageForDeletion stopMessage s =
     s\<lparr>stopMessagesToDelete := stopMessagesToDelete s @ [stopMessage]\<rparr>"

subsection \<open>Sending one message\<close>

text \<open>The request for one message, with the credentials of the configuration.\<close>

definition post_message :: "'w externals \<Rightarrow> Config \<Rightarrow> string \<Rightarrow> string \<Rightarrow> bytes \<Rightarrow> 'w
    \<Rightarrow> (string + nat) \<times> 'w" where
  "post_message ex conf action guid body w =
     (let targetURL = CCInternalURL conf @ ''/internal/dea/hm9000/'' @ action @ ''/'' @ guid;
          authorization = BasicAuthInfo_Encode
            \<lparr>User = APIServerUsername conf, Password = APIServerPassword conf\<rparr>
      in http_post ex targetURL authorization body w)"

definition sendStartMessageHttp :: "'w externals \<Rightarrow> PendingStartMessage \<Rightarrow> sender \<times> 'w \<Rightarrow> sender \<times> 'w" where
  "sendStartMessageHttp ex startMessage = (\<lambda>(s, w).
     case startMessageToSend s startMessage of
       None \<Rightarrow> (queueStartMessageForDeletion startMessage s, w)
     | Some messageToSend \<Rightarrow>
         if numberOfStartMessagesSent s < SenderMessageLimit (se_conf s)
         then (case post_message ex (se_conf s) ''start'' (AppGuid startMessage)
                      (StartMessage_ToJSON messageToSend) w of
                 (Inl err, w') \<Rightarrow> (s\<lparr>didSucceed := False\<rparr>, w')
               | (Inr status, w') \<Rightarrow>
                   if status \<noteq> 200 then (s\<lparr>didSucceed := False\<rparr>, w')
                   else let s' = s\<lparr>sentStartMessages := sentStartMessages s @ [startMessage],
                              numberOfStartMessagesSent := wrap64 (numberOfStartMessagesSent s + 1)\<rparr>
                        in (if KeepAlive startMessage = 0 then queueStartMessageForDeletion startMessage s'
                            else markStartMessageSent startMessage s', w'))
         else (s, w))"

definition sendStopMessageHttp :: "'w externals \<Rightarrow> PendingStopMessage \<Rightarrow> sender \<times> 'w \<Rightarrow> sender \<times> 'w" where
  "sendStopMessageHttp ex stopMessage = (\<lambda>(s, w).
     case stopMessageToSend s stopMessage of
       None \<Rightarrow> (queueStopMessageForDeletion stopMessage s, w)
     | Some messageToSend \<Rightarrow>
         (case post_message ex (se_conf s) ''stop'' (AppGuid stopMessage)
                 (StopMessage_ToJSON messageToSend) w of
            (Inl err, w') \<Rightarrow> (s\<lparr>didSucceed := False\<rparr>, w')
          | (Inr status, w') \<Rightarrow>
              if status \<noteq> 200 then (s\<lparr>didSucceed := False\<rparr>, w')
              else let s' = s\<lparr>sentStopMessages := sentStopMessages s @ [stopMessage]\<rparr>
                   in (if KeepAlive stopMessage = 0 then queueStopMessageForDeletion stopMessage s'
                       else markStopMessageSent stopMessage s', w')))"

text \<open>The older way over the message bus, which nothing calls any more.\<close>

definition sendStartMessage :: "'w externals \<Rightarrow> PendingStartMessage \<Rightarrow> sender \<times> 'w \<Rightarrow> sender \<times> 'w" where
  "sendStartMessage ex startMessage = (\<lambda>(s, w).
     case startMessageToSend s startMessage of
       None \<Rightarrow> (queueStartMessageForDeletion startMessage s, w)
     | Some messageToSend \<Rightarrow>
         if numberOfStartMessagesSent s < SenderMessageLimit (se_conf s)
         then (case nats_Publish ex (SenderNatsStartSubject (se_conf s)) (StartMessage_ToJSON messageToSend) w of
                 (Some err, w') \<Rightarrow> (s\<lparr>didSucceed := False\<rparr>, w')
               | (None, w') \<Rightarrow>
                   let s1 = s\<lparr>sentStartMessages := sentStartMessages s @ [startMessage]\<rparr>;
                       s2 = (if KeepAlive startMessage = 0 then queueStartMessageForDeletion startMessage s1
                             else markStartMessageSent startMessage s1)
                   in (s2\<lparr>numberOfStartMessagesSent := wrap64 (numberOfStartMessagesSent s2 + 1)\<rparr>, w'))
         else (s, w))"

subsection \<open>Sending\<close>

definition send_start :: "'w externals \<Rightarrow> PendingStartMessage \<Rightarrow> sender \<times> 'w \<Rightarrow> sender \<times> 'w" where
  "send_start ex startMessage = (\<lambda>(s, w).
     if IsTimeToSend startMessage (currentTime s) then sendStartMessageHttp ex startMessage (s, w)
     else if IsExpired startMessage (currentTime s) then (queueStartMessageForDeletion startMessage s, w)
     else (s, w))"

definition sendStartMessages :: "'w externals \<Rightarrow> choice \<Rightarrow> PendingStartMessage list \<Rightarrow> sender \<times> 'w
    \<Rightarrow> sender \<times> 'w" where
  "sendStartMessages ex ch startMessages =
     fold (send_start ex) (SortStartMessagesByPriority ch startMessages)"

definition send_stop :: "'w externals \<Rightarrow> PendingStopMessage \<Rightarrow> sender \<times> 'w \<Rightarrow> sender \<times> 'w" where
  "send_stop ex stopMessage = (\<lambda>(s, w).
     if IsTimeToSend stopMessage (currentTime s) then sendStopMessageHttp ex stopMessage (s, w)
     else if IsExpired stopMessage (currentTime s) then (queueStopMessageForDeletion stopMessage s, w)
     else (s, w))"

definition sendStopMessages :: "'w externals \<Rightarrow> PendingStopMessage list \<Rightarrow> sender \<times> 'w \<Rightarrow> sender \<times> 'w" where
  "sendStopMessages ex stopMessages = fold (send_stop ex) stopMessages"

text \<open>One write at the end: an error is remembered, and the next write is made all the same.\<close>

definition try_write :: "('w \<Rightarrow> hm_error option \<times> 'w) \<Rightarrow> sender \<times> 'w \<Rightarrow> sender \<times> 'w" where
  "try_write write = (\<lambda>(s, w).
     case write w of (Some err, w') \<Rightarrow> (s\<lparr>didSucceed := False\<rparr>, w') | (None, w') \<Rightarrow> (s, w'))"

definition write_messages :: "'w externals \<Rightarrow> choice \<Rightarrow> RealStore \<Rightarrow> sender \<times> 'w \<Rightarrow> sender \<times> 'w" where
  "write_messages ex ch store = (\<lambda>(s, w).
     try_write (DeletePendingStopMessages ex store (stopMessagesToDelete s))
       (try_write (SavePendingStopMessages ex store (stopMessagesToSave s))
         (try_write (DeletePendingStartMessages ex store (startMessagesToDelete s))
           (try_write (SavePendingStartMessages ex store (startMessagesToSave s))
             (try_write (IncrementSentMessageMetrics ex ch (sentStartMessages s) (sentStopMessages s))
               (s, w))))))"

definition Send :: "'w externals \<Rightarrow> choice \<Rightarrow> choice \<Rightarrow> RealStore \<Rightarrow> time \<Rightarrow> (string, App) gomap
    \<Rightarrow> PendingStartMessage list \<Rightarrow> PendingStopMessage list \<Rightarrow> sender \<Rightarrow> 'w
    \<Rightarrow> hm_error option \<times> sender \<times> 'w" where
  "Send ex ch ch_metrics store now apps pendingStartMessages pendingStopMessages s w =
     (let s0 = s\<lparr>currentTime := now, se_apps := apps\<rparr> in
      case VerifyFreshness ex store now w of
        (Some err, w1) \<Rightarrow> (Some err, s0, w1)
      | (None, w1) \<Rightarrow>
          (let (s', w') = write_messages ex ch_metrics store
                 (sendStopMessages ex pendingStopMessages
                   (sendStartMessages ex ch pendingStartMessages (s0, w1)))
           in (if \<not> didSucceed s' then Some SenderFailed else None, s', w')))"

end
