(* ===== verification/Sender_Facts.thy ===== *)
theory Sender_Facts imports Sender begin

text \<open>
  Facts about the sender. One step is either the ideal step, in which the cloud controller accepts
  the message, or it only clears \<open>didSucceed\<close>; so a run that succeeds is the fold of the ideal
  steps, and every other run keeps the invariants.
\<close>

subsection \<open>The ideal steps\<close>

definition record_start :: "PendingStartMessage \<Rightarrow> sender \<Rightarrow> sender" where
  "record_start m s =
     (let s' = s\<lparr>sentStartMessages := sentStartMessages s @ [m],
            numberOfStartMessagesSent := wrap64 (numberOfStartMessagesSent s + 1)\<rparr>
      in if KeepAlive m = 0 then queueStartMessageForDeletion m s' else markStartMessageSent m s')"

definition ideal_start :: "PendingStartMessage \<Rightarrow> sender \<Rightarrow> sender" where
  "ideal_start m s =
     (if IsTimeToSend m (currentTime s)
      then (if startMessageToSend s m = None then queueStartMessageForDeletion m s
            else if numberOfStartMessagesSent s < SenderMessageLimit (se_conf s) then record_start m s
            else s)
      else if IsExpired m (currentTime s) then queueStartMessageForDeletion m s else s)"

definition record_stop :: "PendingStopMessage \<Rightarrow> sender \<Rightarrow> sender" where
  "record_stop m s =
     (let s' = s\<lparr>sentStopMessages := sentStopMessages s @ [m]\<rparr>
      in if KeepAlive m = 0 then queueStopMessageForDeletion m s' else markStopMessageSent m s')"

definition ideal_stop :: "PendingStopMessage \<Rightarrow> sender \<Rightarrow> sender" where
  "ideal_stop m s =
     (if IsTimeToSend m (currentTime s)
      then (if stopMessageToSend s m = None then queueStopMessageForDeletion m s else record_stop m s)
      else if IsExpired m (currentTime s) then queueStopMessageForDeletion m s else s)"

named_theorems sender_defs \<open>the operations that only change fields of the sender\<close>

lemmas sender_field_defs [sender_defs] =
  record_start_def record_stop_def queueStartMessageForDeletion_def queueStopMessageForDeletion_def
  markStartMessageSent_def markStopMessageSent_def Let_def

lemma send_start_cases:
  "fst (send_start ex m (s, w)) = ideal_start m s \<or> fst (send_start ex m (s, w)) = s\<lparr>didSucceed := False\<rparr>"
  by (auto simp: send_start_def ideal_start_def sendStartMessageHttp_def record_start_def Let_def
      split: option.splits sum.splits prod.splits if_splits)

lemma send_stop_cases:
  "fst (send_stop ex m (s, w)) = ideal_stop m s \<or> fst (send_stop ex m (s, w)) = s\<lparr>didSucceed := False\<rparr>"
  by (auto simp: send_stop_def ideal_stop_def sendStopMessageHttp_def record_stop_def Let_def
      split: option.splits sum.splits prod.splits if_splits)

lemma ideal_didSucceed [simp]:
  "didSucceed (ideal_start m s) = didSucceed s" "didSucceed (ideal_stop x s) = didSucceed s"
  by (simp_all add: ideal_start_def ideal_stop_def sender_defs)

text \<open>A property that the ideal step and the failure both keep is kept by every run.\<close>

lemma fold_starts_keep:
  assumes "\<And>m s. m \<in> set ms \<Longrightarrow> P s \<Longrightarrow> P (ideal_start m s)" and "\<And>s. P s \<Longrightarrow> P (s\<lparr>didSucceed := False\<rparr>)"
  shows "P (fst sw) \<Longrightarrow> P (fst (fold (send_start ex) ms sw))"
  using assms(1)
proof (induction ms arbitrary: sw)
  case (Cons m ms)
  have "P (fst (send_start ex m sw))"
    using send_start_cases [of ex m "fst sw" "snd sw"] Cons.prems assms(2) by auto
  then show ?case using Cons by simp
qed simp

lemma fold_stops_keep:
  assumes "\<And>m s. m \<in> set ms \<Longrightarrow> P s \<Longrightarrow> P (ideal_stop m s)" and "\<And>s. P s \<Longrightarrow> P (s\<lparr>didSucceed := False\<rparr>)"
  shows "P (fst sw) \<Longrightarrow> P (fst (fold (send_stop ex) ms sw))"
  using assms(1)
proof (induction ms arbitrary: sw)
  case (Cons m ms)
  have "P (fst (send_stop ex m sw))"
    using send_stop_cases [of ex m "fst sw" "snd sw"] Cons.prems assms(2) by auto
  then show ?case using Cons by simp
qed simp

lemma failed_stays:
  "\<not> didSucceed (fst sw) \<Longrightarrow> \<not> didSucceed (fst (fold (send_start ex) ms sw))"
  "\<not> didSucceed (fst sw) \<Longrightarrow> \<not> didSucceed (fst (fold (send_stop ex) xs sw))"
  by (rule fold_starts_keep [where P = "\<lambda>s. \<not> didSucceed s"]; simp)
    (rule fold_stops_keep [where P = "\<lambda>s. \<not> didSucceed s"]; simp)

lemma successful_starts:
  "didSucceed (fst (fold (send_start ex) ms sw)) \<Longrightarrow>
   fst (fold (send_start ex) ms sw) = fold ideal_start ms (fst sw)"
proof (induction ms arbitrary: sw)
  case (Cons m ms)
  have "didSucceed (fst (send_start ex m sw))"
    using Cons.prems failed_stays(1) [of "send_start ex m sw" ex ms] by auto
  then have step: "fst (send_start ex m sw) = ideal_start m (fst sw)"
    using send_start_cases [of ex m "fst sw" "snd sw"] by auto
  have "fst (fold (send_start ex) ms (send_start ex m sw)) = fold ideal_start ms (fst (send_start ex m sw))"
    using Cons.prems by (intro Cons.IH) simp
  then show ?case by (simp add: step)
qed simp

lemma successful_stops:
  "didSucceed (fst (fold (send_stop ex) ms sw)) \<Longrightarrow>
   fst (fold (send_stop ex) ms sw) = fold ideal_stop ms (fst sw)"
proof (induction ms arbitrary: sw)
  case (Cons m ms)
  have "didSucceed (fst (send_stop ex m sw))"
    using Cons.prems failed_stays(2) [of "send_stop ex m sw" ex ms] by auto
  then have step: "fst (send_stop ex m sw) = ideal_stop m (fst sw)"
    using send_stop_cases [of ex m "fst sw" "snd sw"] by auto
  have "fst (fold (send_stop ex) ms (send_stop ex m sw)) = fold ideal_stop ms (fst (send_stop ex m sw))"
    using Cons.prems by (intro Cons.IH) simp
  then show ?case by (simp add: step)
qed simp

subsection \<open>What a successful run collects\<close>

definition start_due :: "(string, App) gomap \<Rightarrow> time \<Rightarrow> PendingStartMessage \<Rightarrow> bool" where
  "start_due apps now m \<longleftrightarrow> IsTimeToSend m now \<and>
     (SkipVerification m
      \<or> (case map_of apps (AppKey (AppGuid m) (AppVersion m)) of
            None \<Rightarrow> False
          | Some app \<Rightarrow> IsDesired app \<and> IsIndexDesired app (IndexToStart m)
              \<and> \<not> HasStartingOrRunningInstanceAtIndex app (IndexToStart m)))"

text \<open>A message that is due but pointless, or was sent and is not kept any longer.\<close>

definition start_obsolete :: "(string, App) gomap \<Rightarrow> time \<Rightarrow> PendingStartMessage \<Rightarrow> bool" where
  "start_obsolete apps now m \<longleftrightarrow> (IsTimeToSend m now \<and> \<not> start_due apps now m) \<or> IsExpired m now"

lemma start_due_iff:
  "start_due (se_apps s) now m \<longleftrightarrow> IsTimeToSend m now \<and> startMessageToSend s m \<noteq> None"
  by (auto simp: start_due_def startMessageToSend_def Let_def split: option.splits)

lemma ideal_start_iff:
  "ideal_start m s =
     (if start_due (se_apps s) (currentTime s) m
      then (if numberOfStartMessagesSent s < SenderMessageLimit (se_conf s) then record_start m s else s)
      else if start_obsolete (se_apps s) (currentTime s) m then queueStartMessageForDeletion m s else s)"
  using due_not_expired [of m] by (auto simp: ideal_start_def start_due_iff start_obsolete_def)

lemma ideal_start_frame [simp]:
  "se_conf (ideal_start m s) = se_conf s" "se_apps (ideal_start m s) = se_apps s"
  "currentTime (ideal_start m s) = currentTime s"
  "sentStopMessages (ideal_start m s) = sentStopMessages s"
  "stopMessagesToSave (ideal_start m s) = stopMessagesToSave s"
  "stopMessagesToDelete (ideal_start m s) = stopMessagesToDelete s"
  by (simp_all add: ideal_start_def sender_defs)

lemma ideal_stop_frame [simp]:
  "se_conf (ideal_stop m s) = se_conf s" "se_apps (ideal_stop m s) = se_apps s"
  "currentTime (ideal_stop m s) = currentTime s"
  "numberOfStartMessagesSent (ideal_stop m s) = numberOfStartMessagesSent s"
  "sentStartMessages (ideal_stop m s) = sentStartMessages s"
  "startMessagesToSave (ideal_stop m s) = startMessagesToSave s"
  "startMessagesToDelete (ideal_stop m s) = startMessagesToDelete s"
  by (simp_all add: ideal_stop_def sender_defs)

lemma fold_ideal_frame [simp]:
  "se_conf (fold ideal_start ms s) = se_conf s" "se_apps (fold ideal_start ms s) = se_apps s"
  "currentTime (fold ideal_start ms s) = currentTime s"
  "didSucceed (fold ideal_start ms s) = didSucceed s"
  "sentStopMessages (fold ideal_start ms s) = sentStopMessages s"
  "stopMessagesToSave (fold ideal_start ms s) = stopMessagesToSave s"
  "stopMessagesToDelete (fold ideal_start ms s) = stopMessagesToDelete s"
  by (induction ms arbitrary: s) simp_all

lemma fold_ideal_stop_frame [simp]:
  "se_conf (fold ideal_stop xs s) = se_conf s" "se_apps (fold ideal_stop xs s) = se_apps s"
  "currentTime (fold ideal_stop xs s) = currentTime s"
  "didSucceed (fold ideal_stop xs s) = didSucceed s"
  "numberOfStartMessagesSent (fold ideal_stop xs s) = numberOfStartMessagesSent s"
  "sentStartMessages (fold ideal_stop xs s) = sentStartMessages s"
  "startMessagesToSave (fold ideal_stop xs s) = startMessagesToSave s"
  "startMessagesToDelete (fold ideal_stop xs s) = startMessagesToDelete s"
  by (induction xs arbitrary: s) simp_all

text \<open>The messages that are sent: the due ones in the order of the list, up to the limit.\<close>

definition starts_sent :: "Config \<Rightarrow> (string, App) gomap \<Rightarrow> time \<Rightarrow> int \<Rightarrow> PendingStartMessage list
    \<Rightarrow> PendingStartMessage list" where
  "starts_sent conf apps now n ms =
     take (nat (SenderMessageLimit conf - n)) (filter (start_due apps now) ms)"

abbreviation mark :: "time \<Rightarrow> ('a) PendingMessage_scheme \<Rightarrow> ('a) PendingMessage_scheme" where
  "mark now m \<equiv> m\<lparr>SentOn := Unix now\<rparr>"

definition kept :: "('a) PendingMessage_scheme \<Rightarrow> bool" where "kept m \<longleftrightarrow> KeepAlive m \<noteq> 0"

lemma starts_sent_Cons:
  "starts_sent conf apps now n (m # ms) =
     (if start_due apps now m
      then (if n < SenderMessageLimit conf then m # starts_sent conf apps now (n + 1) ms else [])
      else starts_sent conf apps now n ms)"
proof (cases "n < SenderMessageLimit conf")
  case True
  then have "nat (SenderMessageLimit conf - n) = Suc (nat (SenderMessageLimit conf - (n + 1)))" by simp
  then show ?thesis using True by (simp add: starts_sent_def)
qed (simp add: starts_sent_def)

lemma record_start_simps [simp]:
  "se_conf (record_start m s) = se_conf s" "se_apps (record_start m s) = se_apps s"
  "currentTime (record_start m s) = currentTime s"
  "sentStartMessages (record_start m s) = sentStartMessages s @ [m]"
  "numberOfStartMessagesSent (record_start m s) = wrap64 (numberOfStartMessagesSent s + 1)"
  "startMessagesToSave (record_start m s) =
     startMessagesToSave s @ (if kept m then [mark (currentTime s) m] else [])"
  "startMessagesToDelete (record_start m s) = startMessagesToDelete s @ (if kept m then [] else [m])"
  by (simp_all add: sender_defs kept_def)

lemma queue_start_simps [simp]:
  "se_conf (queueStartMessageForDeletion m s) = se_conf s"
  "se_apps (queueStartMessageForDeletion m s) = se_apps s"
  "currentTime (queueStartMessageForDeletion m s) = currentTime s"
  "sentStartMessages (queueStartMessageForDeletion m s) = sentStartMessages s"
  "numberOfStartMessagesSent (queueStartMessageForDeletion m s) = numberOfStartMessagesSent s"
  "startMessagesToSave (queueStartMessageForDeletion m s) = startMessagesToSave s"
  "startMessagesToDelete (queueStartMessageForDeletion m s) = startMessagesToDelete s @ [m]"
  by (simp_all add: sender_defs)

lemma successful_step: "0 \<le> n \<Longrightarrow> n < L \<Longrightarrow> L < 2 ^ 63 \<Longrightarrow> wrap64 (n + 1) = n + 1"
  by (rule wrap64_id) (simp add: in_int64_def)

abbreviation sent_from :: "sender \<Rightarrow> PendingStartMessage list \<Rightarrow> PendingStartMessage list" where
  "sent_from s ms \<equiv>
     starts_sent (se_conf s) (se_apps s) (currentTime s) (numberOfStartMessagesSent s) ms"

lemma starts_sent_full: "\<not> n < SenderMessageLimit conf \<Longrightarrow> starts_sent conf apps now n xs = []"
  by (simp add: starts_sent_def)

lemma due_not_obsolete: "start_due apps now m \<Longrightarrow> \<not> start_obsolete apps now m"
  using due_not_expired by (auto simp: start_obsolete_def start_due_def)

lemma fold_ideal_start:
  assumes "0 \<le> numberOfStartMessagesSent s" and "SenderMessageLimit (se_conf s) < 2 ^ 63"
  shows "sentStartMessages (fold ideal_start ms s) = sentStartMessages s @ sent_from s ms
    \<and> startMessagesToSave (fold ideal_start ms s) =
        startMessagesToSave s @ map (mark (currentTime s)) (filter kept (sent_from s ms))
    \<and> set (startMessagesToDelete (fold ideal_start ms s)) = set (startMessagesToDelete s)
        \<union> {m \<in> set ms. start_obsolete (se_apps s) (currentTime s) m} \<union> {m \<in> set (sent_from s ms). \<not> kept m}"
  using assms
proof (induction ms arbitrary: s)
  case Nil
  then show ?case by (simp add: starts_sent_def)
next
  case (Cons m ms)
  have num: "wrap64 (numberOfStartMessagesSent s + 1) = numberOfStartMessagesSent s + 1"
    if "numberOfStartMessagesSent s < SenderMessageLimit (se_conf s)"
    using that Cons.prems by (intro successful_step)
  have n0: "0 \<le> numberOfStartMessagesSent (ideal_start m s)"
    using Cons.prems num by (auto simp: ideal_start_iff)
  have limit: "SenderMessageLimit (se_conf (ideal_start m s)) < 2 ^ 63" using Cons.prems by simp
  show ?case
    using Cons.IH [OF n0 limit] num due_not_obsolete [of "se_apps s" "currentTime s" m]
    by (auto simp: starts_sent_Cons starts_sent_full ideal_start_iff)
qed

subsection \<open>What any run collects\<close>

text \<open>A message fails only when it was due.\<close>

lemma send_start_due_cases:
  "fst (send_start ex m (s, w)) = ideal_start m s
   \<or> (start_due (se_apps s) (currentTime s) m \<and> fst (send_start ex m (s, w)) = s\<lparr>didSucceed := False\<rparr>)"
  by (auto simp: send_start_def ideal_start_def sendStartMessageHttp_def record_start_def Let_def start_due_iff
      split: option.splits sum.splits prod.splits if_splits)

text \<open>
  \<open>starts_run s ms sent s'\<close>: a run over \<open>ms\<close> leads from \<open>s\<close> to \<open>s'\<close> and has the messages \<open>sent\<close>
  accepted.
\<close>

definition starts_run :: "sender \<Rightarrow> PendingStartMessage list \<Rightarrow> PendingStartMessage list \<Rightarrow> sender \<Rightarrow> bool" where
  "starts_run s ms sent s' \<longleftrightarrow>
     subseq sent (filter (start_due (se_apps s) (currentTime s)) ms)
   \<and> int (length sent) \<le> max 0 (SenderMessageLimit (se_conf s) - numberOfStartMessagesSent s)
   \<and> sentStartMessages s' = sentStartMessages s @ sent
   \<and> startMessagesToSave s' = startMessagesToSave s @ map (mark (currentTime s)) (filter kept sent)
   \<and> set (startMessagesToDelete s') = set (startMessagesToDelete s)
       \<union> {m \<in> set ms. start_obsolete (se_apps s) (currentTime s) m} \<union> {m \<in> set sent. \<not> kept m}"

lemma starts_run_skip:
  assumes "starts_run (s\<lparr>didSucceed := b\<rparr>) ms sent s'" and "start_due (se_apps s) (currentTime s) m"
  shows "starts_run s (m # ms) sent s'"
  using assms due_not_obsolete [OF assms(2)] by (auto simp: starts_run_def)

lemma starts_run_step:
  assumes "starts_run (ideal_start m s) ms sent s'" and "0 \<le> numberOfStartMessagesSent s"
    and "SenderMessageLimit (se_conf s) < 2 ^ 63"
  shows "\<exists>sent. starts_run s (m # ms) sent s'"
proof (cases "start_due (se_apps s) (currentTime s) m \<and> numberOfStartMessagesSent s < SenderMessageLimit (se_conf s)")
  case True
  then have "wrap64 (numberOfStartMessagesSent s + 1) = numberOfStartMessagesSent s + 1"
    using assms by (intro successful_step) auto
  then have "starts_run s (m # ms) (m # sent) s'"
    using assms(1) True due_not_obsolete [of "se_apps s" "currentTime s" m]
    by (auto simp: starts_run_def ideal_start_iff)
  then show ?thesis ..
next
  case False
  then have "starts_run s (m # ms) sent s'"
    using assms(1) due_not_obsolete [of "se_apps s" "currentTime s" m]
    by (auto simp: starts_run_def ideal_start_iff split: if_splits)
  then show ?thesis ..
qed

lemma ideal_start_count:
  assumes "0 \<le> numberOfStartMessagesSent s" and "SenderMessageLimit (se_conf s) < 2 ^ 63"
  shows "0 \<le> numberOfStartMessagesSent (ideal_start m s)"
  using assms successful_step [of "numberOfStartMessagesSent s" "SenderMessageLimit (se_conf s)"]
  by (auto simp: ideal_start_iff)

lemma fold_starts_run:
  assumes "0 \<le> numberOfStartMessagesSent (fst sw)" and "SenderMessageLimit (se_conf (fst sw)) < 2 ^ 63"
  shows "\<exists>sent. starts_run (fst sw) ms sent (fst (fold (send_start ex) ms sw))"
  using assms
proof (induction ms arbitrary: sw)
  case Nil
  have "starts_run (fst sw) [] [] (fst sw)" by (simp add: starts_run_def)
  then show ?case by auto
next
  case (Cons m ms)
  obtain s w where sw: "sw = (s, w)" by fastforce
  define sw' where "sw' = send_start ex m sw"
  consider "fst sw' = ideal_start m s"
    | "start_due (se_apps s) (currentTime s) m" "fst sw' = s\<lparr>didSucceed := False\<rparr>"
    using send_start_due_cases [of ex m s w] by (auto simp: sw'_def sw)
  then show ?case
  proof cases
    case 1
    then show ?thesis
      using Cons.IH [of sw'] Cons.prems ideal_start_count [of s m] starts_run_step [of m s ms]
      by (auto simp: sw sw'_def)
  next
    case 2
    then show ?thesis
      using Cons.IH [of sw'] Cons.prems starts_run_skip [of False s ms _ _ m]
      by (auto simp: sw sw'_def)
  qed
qed

subsection \<open>Stop messages\<close>

definition stop_due :: "(string, App) gomap \<Rightarrow> time \<Rightarrow> PendingStopMessage \<Rightarrow> bool" where
  "stop_due apps now m \<longleftrightarrow> IsTimeToSend m now \<and>
     (case map_of apps (AppKey (AppGuid m) (AppVersion m)) of
        None \<Rightarrow> False
      | Some app \<Rightarrow>
          (let h = InstanceWithGuid app (InstanceGuid m)
           in \<not> IsDesired app \<or> \<not> IsIndexDesired app (hb_InstanceIndex h)
            \<or> hb_State h = InstanceStateEvacuating
            \<or> 1 < length (StartingOrRunningInstancesAtIndex app (hb_InstanceIndex h))))"

definition stop_obsolete :: "(string, App) gomap \<Rightarrow> time \<Rightarrow> PendingStopMessage \<Rightarrow> bool" where
  "stop_obsolete apps now m \<longleftrightarrow> (IsTimeToSend m now \<and> \<not> stop_due apps now m) \<or> IsExpired m now"

lemma stop_due_iff:
  "stop_due (se_apps s) now m \<longleftrightarrow> IsTimeToSend m now \<and> stopMessageToSend s m \<noteq> None"
  by (auto simp: stop_due_def stopMessageToSend_def Let_def split: option.splits)

lemma stop_due_not_obsolete: "stop_due apps now m \<Longrightarrow> \<not> stop_obsolete apps now m"
  using due_not_expired by (auto simp: stop_obsolete_def stop_due_def)

lemma ideal_stop_iff:
  "ideal_stop m s =
     (if stop_due (se_apps s) (currentTime s) m then record_stop m s
      else if stop_obsolete (se_apps s) (currentTime s) m then queueStopMessageForDeletion m s else s)"
  using due_not_expired [of m] by (auto simp: ideal_stop_def stop_due_iff stop_obsolete_def)

lemma record_stop_simps [simp]:
  "sentStopMessages (record_stop m s) = sentStopMessages s @ [m]"
  "stopMessagesToSave (record_stop m s) =
     stopMessagesToSave s @ (if kept m then [mark (currentTime s) m] else [])"
  "stopMessagesToDelete (record_stop m s) = stopMessagesToDelete s @ (if kept m then [] else [m])"
  by (simp_all add: sender_defs kept_def)

lemma queue_stop_simps [simp]:
  "sentStopMessages (queueStopMessageForDeletion m s) = sentStopMessages s"
  "stopMessagesToSave (queueStopMessageForDeletion m s) = stopMessagesToSave s"
  "stopMessagesToDelete (queueStopMessageForDeletion m s) = stopMessagesToDelete s @ [m]"
  by (simp_all add: sender_defs)

lemma send_stop_due_cases:
  "fst (send_stop ex m (s, w)) = ideal_stop m s
   \<or> (stop_due (se_apps s) (currentTime s) m \<and> fst (send_stop ex m (s, w)) = s\<lparr>didSucceed := False\<rparr>)"
  by (auto simp: send_stop_def ideal_stop_def sendStopMessageHttp_def record_stop_def Let_def stop_due_iff
      split: option.splits sum.splits prod.splits if_splits)

definition stops_run :: "sender \<Rightarrow> PendingStopMessage list \<Rightarrow> PendingStopMessage list \<Rightarrow> sender \<Rightarrow> bool" where
  "stops_run s ms sent s' \<longleftrightarrow>
     subseq sent (filter (stop_due (se_apps s) (currentTime s)) ms)
   \<and> (didSucceed s' \<longrightarrow> sent = filter (stop_due (se_apps s) (currentTime s)) ms)
   \<and> sentStopMessages s' = sentStopMessages s @ sent
   \<and> stopMessagesToSave s' = stopMessagesToSave s @ map (mark (currentTime s)) (filter kept sent)
   \<and> set (stopMessagesToDelete s') = set (stopMessagesToDelete s)
       \<union> {m \<in> set ms. stop_obsolete (se_apps s) (currentTime s) m} \<union> {m \<in> set sent. \<not> kept m}"

lemma fold_stops_run: "\<exists>sent. stops_run (fst sw) ms sent (fst (fold (send_stop ex) ms sw))"
proof (induction ms arbitrary: sw)
  case Nil
  have "stops_run (fst sw) [] [] (fst sw)" by (simp add: stops_run_def)
  then show ?case by auto
next
  case (Cons m ms)
  obtain s w where sw: "sw = (s, w)" by fastforce
  define sw' where "sw' = send_stop ex m sw"
  obtain sent where run: "stops_run (fst sw') ms sent (fst (fold (send_stop ex) ms sw'))"
    using Cons.IH by blast
  consider "fst sw' = ideal_stop m s"
    | "stop_due (se_apps s) (currentTime s) m" "fst sw' = s\<lparr>didSucceed := False\<rparr>"
    using send_stop_due_cases [of ex m s w] by (auto simp: sw'_def sw)
  then show ?case
  proof cases
    case 1
    then have "stops_run s (m # ms) (if stop_due (se_apps s) (currentTime s) m then m # sent else sent)
        (fst (fold (send_stop ex) ms sw'))"
      using run stop_due_not_obsolete [of "se_apps s" "currentTime s" m]
      by (auto simp: stops_run_def ideal_stop_iff sender_defs kept_def split: if_splits)
    then show ?thesis by (auto simp: sw sw'_def)
  next
    case 2
    have "\<not> didSucceed (fst (fold (send_stop ex) ms sw'))"
      using failed_stays(2) [of sw' ex ms] 2 by simp
    then have "stops_run s (m # ms) sent (fst (fold (send_stop ex) ms sw'))"
      using run 2 stop_due_not_obsolete [OF 2(1)] by (auto simp: stops_run_def)
    then show ?thesis by (auto simp: sw sw'_def)
  qed
qed

subsection \<open>A whole call\<close>

lemma try_write_frame:
  "\<exists>b. fst (try_write f sw) = (fst sw)\<lparr>didSucceed := b\<rparr>" "didSucceed (fst (try_write f sw)) \<Longrightarrow> didSucceed (fst sw)"
  by (cases "f (snd sw)"; auto simp: try_write_def split: prod.splits option.splits intro: exI [of _ "didSucceed (fst sw)"])+

lemma write_messages_frame:
  "\<exists>b. fst (write_messages ex ch store sw) = (fst sw)\<lparr>didSucceed := b\<rparr>"
  "didSucceed (fst (write_messages ex ch store sw)) \<Longrightarrow> didSucceed (fst sw)"
proof -
  have step: "\<exists>b. fst (try_write f sw') = (fst sw)\<lparr>didSucceed := b\<rparr>"
    if "\<exists>b. fst sw' = (fst sw)\<lparr>didSucceed := b\<rparr>" for f and sw' :: "sender \<times> 'a"
    using that try_write_frame(1) [of f sw'] by auto
  show "\<exists>b. fst (write_messages ex ch store sw) = (fst sw)\<lparr>didSucceed := b\<rparr>"
    unfolding write_messages_def case_prod_beta
    by (intro step) (cases sw; auto intro: exI [of _ "didSucceed (fst sw)"])
  show "didSucceed (fst (write_messages ex ch store sw)) \<Longrightarrow> didSucceed (fst sw)"
    unfolding write_messages_def case_prod_beta prod.collapse
    by (drule try_write_frame(2))+
qed

lemma starts_run_frame:
  "se_conf (fst (fold (send_start ex) ms sw)) = se_conf (fst sw)
   \<and> se_apps (fst (fold (send_start ex) ms sw)) = se_apps (fst sw)
   \<and> currentTime (fst (fold (send_start ex) ms sw)) = currentTime (fst sw)
   \<and> sentStopMessages (fst (fold (send_start ex) ms sw)) = sentStopMessages (fst sw)
   \<and> stopMessagesToSave (fst (fold (send_start ex) ms sw)) = stopMessagesToSave (fst sw)
   \<and> stopMessagesToDelete (fst (fold (send_start ex) ms sw)) = stopMessagesToDelete (fst sw)"
  by (rule fold_starts_keep [where P = "\<lambda>s. se_conf s = se_conf (fst sw)
      \<and> se_apps s = se_apps (fst sw)
      \<and> currentTime s = currentTime (fst sw)
      \<and> sentStopMessages s = sentStopMessages (fst sw)
      \<and> stopMessagesToSave s = stopMessagesToSave (fst sw)
      \<and> stopMessagesToDelete s = stopMessagesToDelete (fst sw)"]) simp_all

lemma stops_run_frame:
  "sentStartMessages (fst (fold (send_stop ex) ms sw)) = sentStartMessages (fst sw)
   \<and> startMessagesToSave (fst (fold (send_stop ex) ms sw)) = startMessagesToSave (fst sw)
   \<and> startMessagesToDelete (fst (fold (send_stop ex) ms sw)) = startMessagesToDelete (fst sw)
   \<and> numberOfStartMessagesSent (fst (fold (send_stop ex) ms sw)) = numberOfStartMessagesSent (fst sw)"
  by (rule fold_stops_keep [where P = "\<lambda>s. sentStartMessages s = sentStartMessages (fst sw)
      \<and> startMessagesToSave s = startMessagesToSave (fst sw)
      \<and> startMessagesToDelete s = startMessagesToDelete (fst sw)
      \<and> numberOfStartMessagesSent s = numberOfStartMessagesSent (fst sw)"]) simp_all

text \<open>The starts that are sent, when all of them are accepted.\<close>

lemma fold_starts_sent:
  assumes "0 \<le> numberOfStartMessagesSent (fst sw)" and "SenderMessageLimit (se_conf (fst sw)) < 2 ^ 63"
    and "didSucceed (fst (fold (send_start ex) ms sw))"
  shows "sentStartMessages (fst (fold (send_start ex) ms sw)) =
     sentStartMessages (fst sw) @ sent_from (fst sw) ms"
  using fold_ideal_start [OF assms(1,2)] successful_starts [OF assms(3)] by simp

text \<open>
  What one call with a new sender does: \<open>sent\<close> and \<open>stopped\<close> are the messages that the cloud
  controller accepted.
\<close>

lemma Send_new:
  assumes "Send ex ch chm store now apps starts stops (new_sender conf) w = (r, s', w')"
    and "VerifyFreshness ex store now w = (None, w1)" and "SenderMessageLimit conf < 2 ^ 63"
  obtains sent stopped where
    "subseq sent (filter (start_due apps now) (SortStartMessagesByPriority ch starts))"
    "int (length sent) \<le> max 0 (SenderMessageLimit conf)"
    "r = None \<Longrightarrow> sent = starts_sent conf apps now 0 (SortStartMessagesByPriority ch starts)"
    "sentStartMessages s' = sent" "startMessagesToSave s' = map (mark now) (filter kept sent)"
    "set (startMessagesToDelete s') = {m \<in> set starts. start_obsolete apps now m} \<union> {m \<in> set sent. \<not> kept m}"
    "subseq stopped (filter (stop_due apps now) stops)"
    "r = None \<Longrightarrow> stopped = filter (stop_due apps now) stops"
    "sentStopMessages s' = stopped" "stopMessagesToSave s' = map (mark now) (filter kept stopped)"
    "set (stopMessagesToDelete s') = {m \<in> set stops. stop_obsolete apps now m} \<union> {m \<in> set stopped. \<not> kept m}"
    "r = None \<longleftrightarrow> didSucceed s'"
proof -
  define s0 where "s0 = new_sender conf\<lparr>currentTime := now, se_apps := apps\<rparr>"
  define sw1 where "sw1 = fold (send_start ex) (SortStartMessagesByPriority ch starts) (s0, w1)"
  define sw2 where "sw2 = fold (send_stop ex) stops sw1"
  have s0: "se_conf s0 = conf" "se_apps s0 = apps" "currentTime s0 = now" "numberOfStartMessagesSent s0 = 0"
    "sentStartMessages s0 = []" "startMessagesToSave s0 = []" "startMessagesToDelete s0 = []"
    "sentStopMessages s0 = []" "stopMessagesToSave s0 = []" "stopMessagesToDelete s0 = []"
    by (simp_all add: s0_def new_sender_def)
  have frame: "se_apps (fst sw1) = apps" "currentTime (fst sw1) = now" "sentStopMessages (fst sw1) = []"
    "stopMessagesToSave (fst sw1) = []" "stopMessagesToDelete (fst sw1) = []"
    using s0 by (simp_all add: sw1_def starts_run_frame)
  have frame2: "sentStartMessages (fst sw2) = sentStartMessages (fst sw1)"
    "startMessagesToSave (fst sw2) = startMessagesToSave (fst sw1)"
    "startMessagesToDelete (fst sw2) = startMessagesToDelete (fst sw1)"
    by (simp_all add: sw2_def stops_run_frame)
  have send: "Send ex ch chm store now apps starts stops (new_sender conf) w =
      (let (s', w') = write_messages ex chm store sw2
       in (if \<not> didSucceed s' then Some SenderFailed else None, s', w'))"
    using assms(2) by (simp add: Send_def sw1_def sw2_def s0_def sendStartMessages_def sendStopMessages_def)
  then have r: "r = (if \<not> didSucceed s' then Some SenderFailed else None)"
    and s': "s' = fst (write_messages ex chm store sw2)"
    using assms(1) by (auto simp: Let_def split: prod.splits)
  obtain b where b: "s' = (fst sw2)\<lparr>didSucceed := b\<rparr>" using write_messages_frame(1) s' by blast
  have ok2: "didSucceed (fst sw2)" if "r = None"
    using that r write_messages_frame(2) [of ex chm store sw2] s' by (auto split: if_splits)
  have ok1: "didSucceed (fst sw1)" if "r = None"
    using ok2 [OF that] failed_stays(2) [of sw1 ex stops] by (auto simp: sw2_def)
  obtain sent where sent: "starts_run s0 (SortStartMessagesByPriority ch starts) sent (fst sw1)"
    using fold_starts_run [of "(s0, w1)" "SortStartMessagesByPriority ch starts" ex] assms(3) s0
    by (auto simp: sw1_def)
  obtain stopped where stopped: "stops_run (fst sw1) stops stopped (fst sw2)"
    using fold_stops_run sw2_def by blast
  have all: "sent = starts_sent conf apps now 0 (SortStartMessagesByPriority ch starts)" if "r = None"
    using fold_starts_sent [of "(s0, w1)" ex "SortStartMessagesByPriority ch starts"] ok1 [OF that]
      assms(3) s0 sent by (auto simp: sw1_def starts_run_def)
  show thesis
  proof (rule that [of sent stopped])
    show "stopped = filter (stop_due apps now) stops" if "r = None"
      using stopped ok2 [OF that] frame by (simp add: stops_run_def)
  qed (use sent stopped all r b frame frame2 s0 in \<open>simp_all add: starts_run_def stops_run_def
      set_SortStartMessagesByPriority\<close>)
qed

text \<open>A property that every ideal step and every success flag keeps is kept by a whole call.\<close>

lemma Send_keeps:
  assumes run: "Send ex ch chm store now apps starts stops s w = (r, s', w')"
    and start: "P (s\<lparr>currentTime := now, se_apps := apps\<rparr>)"
    and step: "\<And>m s. P s \<Longrightarrow> P (ideal_start m s)" "\<And>m s. P s \<Longrightarrow> P (ideal_stop m s)"
    and flag: "\<And>s b. P s \<Longrightarrow> P (s\<lparr>didSucceed := b\<rparr>)"
  shows "P s'"
proof (cases "VerifyFreshness ex store now w")
  case (Pair v w1)
  define s0 where "s0 = s\<lparr>currentTime := now, se_apps := apps\<rparr>"
  define sw1 where "sw1 = sendStartMessages ex ch starts (s0, w1)"
  define sw where "sw = sendStopMessages ex stops sw1"
  have "P (fst sw1)"
    unfolding sw1_def sendStartMessages_def by (rule fold_starts_keep [where P = P]) (use start step flag s0_def in auto)
  then have "P (fst sw)"
    unfolding sw_def sendStopMessages_def by (rule fold_stops_keep [where P = P, rotated 2]) (use step flag in auto)
  then have "P (fst (write_messages ex chm store sw))"
    using write_messages_frame(1) [of ex chm store sw] flag by auto
  then show ?thesis
    using run start Pair by (auto simp: Send_def sw_def sw1_def s0_def Let_def split: option.splits prod.splits)
qed

text \<open>A call that succeeds, whatever the sender has sent before.\<close>

lemma Send_sent_starts:
  assumes "Send ex ch chm store now apps starts stops s w = (None, s', w')"
    and "0 \<le> numberOfStartMessagesSent s" and "SenderMessageLimit (se_conf s) < 2 ^ 63"
  shows "sentStartMessages s' = sentStartMessages s @ starts_sent (se_conf s) apps now
     (numberOfStartMessagesSent s) (SortStartMessagesByPriority ch starts)"
proof -
  define s0 where "s0 = s\<lparr>currentTime := now, se_apps := apps\<rparr>"
  obtain w1 where fresh: "VerifyFreshness ex store now w = (None, w1)"
    using assms(1) by (cases "VerifyFreshness ex store now w") (auto simp: Send_def Let_def split: option.splits)
  define sw1 where "sw1 = fold (send_start ex) (SortStartMessagesByPriority ch starts) (s0, w1)"
  define sw2 where "sw2 = fold (send_stop ex) stops sw1"
  have "didSucceed s'" and s': "s' = fst (write_messages ex chm store sw2)"
    using assms(1) fresh
    by (auto simp: Send_def sendStartMessages_def sendStopMessages_def sw1_def sw2_def s0_def Let_def
        split: prod.splits if_splits)
  then have "didSucceed (fst sw2)" using write_messages_frame(2) by blast
  then have "didSucceed (fst sw1)" using failed_stays(2) [of sw1 ex stops] by (auto simp: sw2_def)
  then have "sentStartMessages (fst sw1) = sentStartMessages s @ starts_sent (se_conf s) apps now
      (numberOfStartMessagesSent s) (SortStartMessagesByPriority ch starts)"
    using fold_starts_sent [of "(s0, w1)" ex "SortStartMessagesByPriority ch starts"] assms(2,3)
    by (simp add: sw1_def s0_def)
  moreover have "sentStartMessages s' = sentStartMessages (fst sw1)"
    using write_messages_frame(1) [of ex chm store sw2] s' by (auto simp: sw2_def stops_run_frame)
  ultimately show ?thesis by simp
qed

end
