(* ===== verification/Sender_Store.thy ===== *)
theory Sender_Store imports Sender_Facts begin

text \<open>
  The sender over the store: what a call of \<open>Send\<close> leaves of the pending messages. The locale
  \<open>quiet_externals\<close> adds to the contract of the adapter that the cloud controller and the metrics
  client do not touch the store.
\<close>

text \<open>Calls of the metrics client and requests for pages keep what every single one of them keeps.\<close>

locale service_calls =
  fixes ex :: "'w externals" and keeps :: "'w \<Rightarrow> bool"
  assumes counter_keeps: "keeps w \<Longrightarrow> metrics_AddToCounter ex name n w = (e, w') \<Longrightarrow> keeps w'"
    and page_keeps: "keeps w \<Longrightarrow> http_get ex url auth w = (p, w') \<Longrightarrow> keeps w'"
    and value_keeps: "keeps w \<Longrightarrow> metrics_SendValue ex name v w = (e, w') \<Longrightarrow> keeps w'"
begin

lemma send_values_keep: "keeps w \<Longrightarrow> keeps (send_values ex counts w)"
proof (induction counts arbitrary: w)
  case (Cons c counts)
  have "keeps (snd (metrics_SendValue ex key v w))" if "keeps w" for key v w
    using value_keeps [OF that surjective_pairing] .
  then show ?case using Cons by (simp add: send_values_def case_prod_beta)
qed (simp add: send_values_def)

lemma SendMetrics_keep: "keeps w \<Longrightarrow> keeps (SendMetrics ex ch_apps ch apps err w)"
  by (simp add: SendMetrics_def send_values_keep split: option.split)

lemma add_to_counters_keep: "keeps w \<Longrightarrow> add_to_counters ex cs w = (e, w') \<Longrightarrow> keeps w'"
proof (induction cs arbitrary: w)
  case (Cons c cs)
  obtain name n r w1 where c: "c = (name, n)" and count: "metrics_AddToCounter ex name n w = (r, w1)"
    by (cases c) fastforce
  have "keeps w1" by (rule counter_keeps [OF Cons.prems(1) count])
  then show ?case using Cons c count by (auto split: option.splits)
qed simp

lemma metrics_keep: "keeps w \<Longrightarrow> IncrementSentMessageMetrics ex ch starts stops w = (e, w') \<Longrightarrow> keeps w'"
  by (auto simp: IncrementSentMessageMetrics_def dest: add_to_counters_keep)

end

text \<open>The same with the messages that are posted.\<close>

locale outside_calls = service_calls ex keeps
  for ex :: "'w externals" and keeps :: "'w \<Rightarrow> bool" +
  assumes post_keeps: "keeps w \<Longrightarrow> http_post ex url auth body w = (r, w') \<Longrightarrow> keeps w'"
begin

lemma send_start_keep: "keeps (snd sw) \<Longrightarrow> keeps (snd (send_start ex m sw))"
  by (cases sw) (auto simp: send_start_def sendStartMessageHttp_def post_message_def Let_def dest: post_keeps
      split: option.splits sum.splits prod.splits)

lemma send_stop_keep: "keeps (snd sw) \<Longrightarrow> keeps (snd (send_stop ex m sw))"
  by (cases sw) (auto simp: send_stop_def sendStopMessageHttp_def post_message_def Let_def dest: post_keeps
      split: option.splits sum.splits prod.splits)

lemma fold_send_keep:
  "keeps (snd sw) \<Longrightarrow> keeps (snd (fold (send_start ex) ms sw))"
  "keeps (snd sw) \<Longrightarrow> keeps (snd (fold (send_stop ex) xs sw))"
  by (induction ms arbitrary: sw, simp_all add: send_start_keep)
    (induction xs arbitrary: sw, simp_all add: send_stop_keep)

end

locale quiet_externals = kv_adapter ex entries
  for ex :: "'w externals" and entries :: "'w \<Rightarrow> string \<Rightarrow> entry option" +
  assumes post_quiet: "http_post ex url auth body w = (r, w') \<Longrightarrow> entries w' = entries w"
    and counter_quiet: "metrics_AddToCounter ex name n w = (e, w') \<Longrightarrow> entries w' = entries w"
    and page_quiet: "http_get ex url auth w = (p, w') \<Longrightarrow> entries w' = entries w"
    and value_quiet: "metrics_SendValue ex name v w = (e, w') \<Longrightarrow> entries w' = entries w"

sublocale quiet_externals \<subseteq> quiet: outside_calls ex "\<lambda>w. entries w = es" for es
  by unfold_locales (auto dest: post_quiet counter_quiet page_quiet value_quiet)

context quiet_externals begin

lemmas outside = quiet.outside_calls_axioms

lemma fold_send_quiet:
  "entries (snd (fold (send_start ex) ms sw)) = entries (snd sw)"
  "entries (snd (fold (send_stop ex) xs sw)) = entries (snd sw)"
  by (rule quiet.fold_send_keep [OF refl])+

lemma SendMetrics_quiet: "entries (SendMetrics ex ch_apps ch apps err w) = entries w"
  by (rule quiet.SendMetrics_keep [OF refl])

lemma metrics_quiet: "IncrementSentMessageMetrics ex ch starts stops w = (e, w') \<Longrightarrow> entries w' = entries w"
  by (rule quiet.metrics_keep [OF refl])

text \<open>A stale state: nothing happens.\<close>

lemma VerifyFreshness_same: "VerifyFreshness ex store now w = (r, w') \<Longrightarrow> w' = w"
  by (auto simp: VerifyFreshness_def IsActualStateFresh_def dest!: get_pure
      split: sum.splits prod.splits store_error.splits option.splits if_splits)

lemma stale_Send:
  assumes "Send ex ch chm store now apps starts stops s w = (r, s', w')"
    and "VerifyFreshness ex store now w = (Some e, w1)"
  shows "r = Some e" and "w' = w" and "sentStartMessages s' = sentStartMessages s"
    and "sentStopMessages s' = sentStopMessages s"
  using assms VerifyFreshness_same [OF assms(2)] by (auto simp: Send_def)

end

interpretation quiet_memory: quiet_externals mem_externals mem_view
  by unfold_locales
    (auto simp: mem_externals_def mem_post_def mem_count_def mem_get_page_def mem_view_def fun_eq_iff
      split: list.splits)

subsection \<open>Two directories\<close>

definition start_dir :: "RealStore \<Rightarrow> string" where "start_dir store = SchemaRoot store @ ''/start''"
definition stop_dir :: "RealStore \<Rightarrow> string" where "stop_dir store = SchemaRoot store @ ''/stop''"

lemma dirs_proper [simp]: "proper_dir (start_dir store)" "proper_dir (stop_dir store)"
  by (simp_all add: start_dir_def stop_dir_def proper_dir_def)

lemma dirs_apart:
  "start_dir store @ ''/'' @ k \<noteq> stop_dir store @ ''/'' @ l"
  "\<not> below (start_dir store @ ''/'' @ k) (stop_dir store @ ''/'' @ l)"
  "\<not> below (stop_dir store @ ''/'' @ l) (start_dir store @ ''/'' @ k)"
  by (auto simp: start_dir_def stop_dir_def below_def prefix_def)

context message_store begin

text \<open>A write in one directory does not show in another.\<close>

lemma save_elsewhere:
  assumes "save ex store_key to_json ms dir ttl w = (None, w')"
    and "\<And>m. k \<noteq> dir @ ''/'' @ store_key m" and "\<And>m. \<not> below k (dir @ ''/'' @ store_key m)"
  shows "entries w' k = entries w k"
proof -
  let ?nodes = "map (\<lambda>m. leaf_node (dir @ ''/'' @ store_key m) (to_json m) ttl) ms"
  have set: "ad_SetMulti ex ?nodes w = (None, w')"
    using assms(1) by (simp add: save_def store_result_def split: prod.splits)
  show ?thesis
    by (rule set_multi_frame [OF set]) (use assms(2,3) in \<open>fastforce+\<close>)
qed

lemma delete_elsewhere:
  assumes "delete ex store_key ms dir w = (None, w')"
    and "\<And>m. k \<noteq> dir @ ''/'' @ store_key m" and "\<And>m. \<not> below (dir @ ''/'' @ store_key m) k"
  shows "entries w' k = entries w k"
proof -
  have "ad_Delete ex (map (\<lambda>m. dir @ ''/'' @ store_key m) ms) w = (None, w')"
    using assms(1) by (simp add: delete_def store_result_def split: prod.splits)
  then have "entries w' k = (if \<exists>d\<in>set (map (\<lambda>m. dir @ ''/'' @ store_key m) ms). k = d \<or> below d k
      then None else entries w k)" by (rule delete_ok)
  then show ?thesis using assms(2,3) by (fastforce split: if_splits)
qed

end

text \<open>Only the entries below a directory count for what is stored in it.\<close>

lemma stored_cong: "(\<And>k. es (dir @ ''/'' @ k) = es' (dir @ ''/'' @ k)) \<Longrightarrow> stored dec dir es = stored dec dir es'"
  by (rule ext) (simp add: stored_def)

lemma values_ok_cong: "(\<And>k. es (dir @ ''/'' @ k) = es' (dir @ ''/'' @ k)) \<Longrightarrow> values_ok key dec dir es = values_ok key dec dir es'"
  by (simp add: values_ok_def)

subsection \<open>The pending messages after a call\<close>

abbreviation pending_starts :: "RealStore \<Rightarrow> (string \<Rightarrow> entry option) \<Rightarrow> string \<Rightarrow> PendingStartMessage option" where
  "pending_starts store \<equiv> stored NewPendingStartMessageFromJSON (start_dir store)"

abbreviation pending_stops :: "RealStore \<Rightarrow> (string \<Rightarrow> entry option) \<Rightarrow> string \<Rightarrow> PendingStopMessage option" where
  "pending_stops store \<equiv> stored NewPendingStopMessageFromJSON (stop_dir store)"

lemma try_write_ok:
  "didSucceed (fst (try_write f sw)) \<Longrightarrow> f (snd sw) = (None, snd (try_write f sw))"
  by (cases sw; cases "f (snd sw)") (auto simp: try_write_def split: option.splits)

text \<open>The five writes of a call that succeeds, one after the other.\<close>

lemma write_messages_ok:
  assumes "didSucceed (fst (write_messages ex ch store (s, w)))"
  obtains w1 w2 w3 w4 where
    "IncrementSentMessageMetrics ex ch (sentStartMessages s) (sentStopMessages s) w = (None, w1)"
    "SavePendingStartMessages ex store (startMessagesToSave s) w1 = (None, w2)"
    "DeletePendingStartMessages ex store (startMessagesToDelete s) w2 = (None, w3)"
    "SavePendingStopMessages ex store (stopMessagesToSave s) w3 = (None, w4)"
    "DeletePendingStopMessages ex store (stopMessagesToDelete s) w4 =
       (None, snd (write_messages ex ch store (s, w)))"
proof -
  define a where "a = try_write (IncrementSentMessageMetrics ex ch (sentStartMessages s) (sentStopMessages s)) (s, w)"
  define b where "b = try_write (SavePendingStartMessages ex store (startMessagesToSave s)) a"
  define c where "c = try_write (DeletePendingStartMessages ex store (startMessagesToDelete s)) b"
  define d where "d = try_write (SavePendingStopMessages ex store (stopMessagesToSave s)) c"
  define e where "e = try_write (DeletePendingStopMessages ex store (stopMessagesToDelete s)) d"
  have e: "write_messages ex ch store (s, w) = e"
    by (simp add: write_messages_def a_def b_def c_def d_def e_def)
  have ok: "didSucceed (fst e)" using assms e by simp
  then have d: "didSucceed (fst d)" unfolding e_def by (rule try_write_frame(2))
  then have c: "didSucceed (fst c)" unfolding d_def by (rule try_write_frame(2))
  then have b: "didSucceed (fst b)" unfolding c_def by (rule try_write_frame(2))
  then have a: "didSucceed (fst a)" unfolding b_def by (rule try_write_frame(2))
  show thesis
    by (rule that [of "snd a" "snd b" "snd c" "snd d"])
      (use try_write_ok [OF ok [unfolded e_def]] try_write_ok [OF d [unfolded d_def]]
        try_write_ok [OF c [unfolded c_def]] try_write_ok [OF b [unfolded b_def]]
        try_write_ok [OF a [unfolded a_def]] e in \<open>simp_all add: a_def b_def c_def d_def e_def\<close>)
qed

text \<open>
  A message of the call is replaced by its marked copy when it was sent and is kept, and goes when
  it was sent and is not kept, or is obsolete; any other stays what it was.
\<close>

definition start_list_ok :: "PendingStartMessage list \<Rightarrow> bool" where
  "start_list_ok ms \<longleftrightarrow> (\<forall>m\<in>set ms. proper_key (PendingStartMessage_StoreKey m) \<and> start_message_ok m)
     \<and> distinct (map PendingStartMessage_StoreKey ms)"

definition stop_list_ok :: "PendingStopMessage list \<Rightarrow> bool" where
  "stop_list_ok ms \<longleftrightarrow> (\<forall>m\<in>set ms. proper_key (PendingStopMessage_StoreKey m) \<and> pending_ints_ok m)
     \<and> distinct (map PendingStopMessage_StoreKey ms)"

definition after_send :: "(('a) PendingMessage_scheme \<Rightarrow> string) \<Rightarrow> (('a) PendingMessage_scheme \<Rightarrow> bool) \<Rightarrow> time
    \<Rightarrow> ('a) PendingMessage_scheme list \<Rightarrow> ('a) PendingMessage_scheme list
    \<Rightarrow> (string \<Rightarrow> ('a) PendingMessage_scheme option) \<Rightarrow> string \<Rightarrow> ('a) PendingMessage_scheme option" where
  "after_send key obsolete now sent ms pending k =
     (case find (\<lambda>m. key m = k) ms of
        None \<Rightarrow> pending k
      | Some m \<Rightarrow> if m \<in> set sent then (if kept m then Some (mark now m) else None)
                  else if obsolete m then None else pending k)"

lemma find_distinct_key:
  "distinct (map key ms) \<Longrightarrow> find (\<lambda>m. key m = k) ms = Some m \<longleftrightarrow> m \<in> set ms \<and> key m = k"
  by (induction ms) (auto simp: image_iff)

lemma find_key_None: "find (\<lambda>m. key m = k) ms = None \<longleftrightarrow> k \<notin> key ` set ms"
  by (auto simp: find_None_iff)

lemma after_send_eq:
  fixes key :: "('a) PendingMessage_scheme \<Rightarrow> string"
  assumes "distinct (map key ms)" and "set sent \<subseteq> set ms" and "\<And>m. key (mark now m) = key m"
    and "\<And>m. m \<in> set sent \<Longrightarrow> \<not> obsolete m"
    and del: "set del = {m \<in> set ms. obsolete m} \<union> {m \<in> set sent. \<not> kept m}"
  shows "(pending ++ map_of (map (\<lambda>m. (key m, m)) (map (mark now) (filter kept sent)))) |` (- key ` set del) =
     after_send key obsolete now sent ms pending"
proof
  fix k
  let ?saved = "map (\<lambda>m. (key m, m)) (map (mark now) (filter kept sent))"
  have inj: "m = n" if "m \<in> set ms" "n \<in> set ms" "key m = key n" for m n
    using assms(1) that by (auto simp: distinct_map inj_on_def)
  show "((pending ++ map_of ?saved) |` (- key ` set del)) k = after_send key obsolete now sent ms pending k"
  proof (cases "find (\<lambda>m. key m = k) ms")
    case None
    then have "k \<notin> key ` set ms" by (simp add: find_key_None)
    then have "k \<notin> key ` set del" "k \<notin> fst ` set ?saved"
      using assms(2) by (auto simp: del assms(3))
    then have "map_of ?saved k = None" by (simp only: map_of_eq_None_iff not_False_eq_True)
    then show ?thesis using None \<open>k \<notin> key ` set del\<close> by (simp add: after_send_def map_add_def)
  next
    case (Some m)
    then have m: "m \<in> set ms" "key m = k" using find_distinct_key [OF assms(1)] by blast+
    have del_k: "k \<in> key ` set del \<longleftrightarrow> m \<in> set del" using m inj assms(2) by (auto simp: del)
    show ?thesis
    proof (cases "m \<in> set sent \<and> kept m")
      case True
      have "\<forall>p\<in>set ?saved. fst p = k \<longrightarrow> snd p = mark now m"
        using m inj assms(2,3) by auto
      moreover have "k \<in> fst ` set ?saved" using True m by (auto simp: image_image assms(3) intro!: image_eqI [of _ _ m])
      ultimately have "map_of ?saved k = Some (mark now m)"
        by (metis (no_types, lifting) eq_fst_iff imageE map_of_SomeD map_of_eq_None_iff not_None_eq snd_conv)
      then show ?thesis using True Some m del_k assms(4) by (auto simp: after_send_def del)
    next
      case False
      have "x = m" if "x \<in> set sent" "key x = k" for x
        using that m assms(2) by (intro inj) auto
      then have "k \<notin> fst ` set ?saved" using False by (auto simp: assms(3))
      then have "map_of ?saved k = None" by (simp only: map_of_eq_None_iff not_False_eq_True)
      then show ?thesis using False Some m del_k by (auto simp: after_send_def del map_add_def restrict_map_def)
    qed
  qed
qed

lemma mark_key [simp]:
  "PendingStartMessage_StoreKey (mark now m) = PendingStartMessage_StoreKey m"
  "PendingStopMessage_StoreKey (mark now x) = PendingStopMessage_StoreKey x"
  by (simp_all add: PendingStartMessage_StoreKey_def PendingStopMessage_StoreKey_def)

lemma start_dir_eq: "SchemaRoot store @ ''/start'' = start_dir store" "SchemaRoot store @ ''/stop'' = stop_dir store"
  by (simp_all add: start_dir_def stop_dir_def)

lemmas pending_op_defs = SavePendingStartMessages_def DeletePendingStartMessages_def
  SavePendingStopMessages_def DeletePendingStopMessages_def start_dir_eq

sublocale quiet_externals \<subseteq> starts: message_store ex entries PendingStartMessage_StoreKey
  PendingStartMessage_ToJSON NewPendingStartMessageFromJSON start_message_ok ..

sublocale quiet_externals \<subseteq> stops: message_store ex entries PendingStopMessage_StoreKey
  PendingStopMessage_ToJSON NewPendingStopMessageFromJSON pending_ints_ok ..

context quiet_externals begin

text \<open>The four writes of a successful call, per directory.\<close>

lemma write_messages_stored:
  assumes "didSucceed (fst (write_messages ex ch store (s, w)))"
    and "starts.message_keys_ok (startMessagesToSave s)" and "stops.message_keys_ok (stopMessagesToSave s)"
    and "\<forall>m\<in>set (startMessagesToDelete s). proper_key (PendingStartMessage_StoreKey m)"
    and "\<forall>m\<in>set (stopMessagesToDelete s). proper_key (PendingStopMessage_StoreKey m)"
  defines "w' \<equiv> snd (write_messages ex ch store (s, w))"
  shows "pending_starts store (entries w') =
      (pending_starts store (entries w) ++ map_of (map (\<lambda>m. (PendingStartMessage_StoreKey m, m)) (startMessagesToSave s)))
        |` (- PendingStartMessage_StoreKey ` set (startMessagesToDelete s))"
    and "pending_stops store (entries w') =
      (pending_stops store (entries w) ++ map_of (map (\<lambda>m. (PendingStopMessage_StoreKey m, m)) (stopMessagesToSave s)))
        |` (- PendingStopMessage_StoreKey ` set (stopMessagesToDelete s))"
proof -
  obtain w1 w2 w3 w4 where
    1: "IncrementSentMessageMetrics ex ch (sentStartMessages s) (sentStopMessages s) w = (None, w1)" and
    2: "SavePendingStartMessages ex store (startMessagesToSave s) w1 = (None, w2)" and
    3: "DeletePendingStartMessages ex store (startMessagesToDelete s) w2 = (None, w3)" and
    4: "SavePendingStopMessages ex store (stopMessagesToSave s) w3 = (None, w4)" and
    5: "DeletePendingStopMessages ex store (stopMessagesToDelete s) w4 = (None, w')"
    using write_messages_ok [OF assms(1)] unfolding w'_def by blast
  note ops = 2 [unfolded pending_op_defs] 3 [unfolded pending_op_defs] 4 [unfolded pending_op_defs]
    5 [unfolded pending_op_defs]
  have w1: "entries w1 = entries w" by (rule metrics_quiet [OF 1])
  have start_frame: "entries w' (start_dir store @ ''/'' @ k) = entries w3 (start_dir store @ ''/'' @ k)" for k
    by (rule trans [OF stops.delete_elsewhere [OF ops(4)] stops.save_elsewhere [OF ops(3)]])
      (simp_all only: dirs_apart not_False_eq_True)
  have stop_frame: "entries w3 (stop_dir store @ ''/'' @ k) = entries w (stop_dir store @ ''/'' @ k)" for k
    unfolding w1 [symmetric]
    by (rule trans [OF starts.delete_elsewhere [OF ops(2)] starts.save_elsewhere [OF ops(1)]])
      (simp_all only: dirs_apart dirs_apart(1) [symmetric] not_False_eq_True)
  have same: "pending_starts store (entries w') = pending_starts store (entries w3)"
    "pending_stops store (entries w3) = pending_stops store (entries w)"
    by (rule stored_cong, rule start_frame) (rule stored_cong, rule stop_frame)
  show "pending_starts store (entries w') =
      (pending_starts store (entries w) ++ map_of (map (\<lambda>m. (PendingStartMessage_StoreKey m, m)) (startMessagesToSave s)))
        |` (- PendingStartMessage_StoreKey ` set (startMessagesToDelete s))"
    by (simp only: same(1) starts.delete_stored [OF ops(2) assms(4)]
        starts.save_stored [OF ops(1) assms(2)] w1)
  show "pending_stops store (entries w') =
      (pending_stops store (entries w) ++ map_of (map (\<lambda>m. (PendingStopMessage_StoreKey m, m)) (stopMessagesToSave s)))
        |` (- PendingStopMessage_StoreKey ` set (stopMessagesToDelete s))"
    by (simp only: stops.delete_stored [OF ops(4) assms(5)] stops.save_stored [OF ops(3) assms(3)]
        same(2))
qed

end

lemma subseq_filter_set: "subseq xs (filter P ys) \<Longrightarrow> set xs \<subseteq> set ys \<inter> {x. P x}"
proof -
  assume "subseq xs (filter P ys)"
  then obtain N where "xs = nths (filter P ys) N" by (auto simp: subseq_conv_nths)
  then show ?thesis using set_nths_subset [of "filter P ys" N] by auto
qed

lemma subseq_distinct_map:
  assumes "subseq xs ys" and "distinct (map f ys)"
  shows "distinct (map f xs)"
  using subseq_map [OF assms(1), of f] assms(2) by (metis distinct_nthsI subseq_conv_nths)

lemma marked_ok [simp]:
  "in_int64 (Unix now) \<Longrightarrow> start_message_ok m \<Longrightarrow> start_message_ok (mark now m)"
  "in_int64 (Unix now) \<Longrightarrow> pending_ints_ok x \<Longrightarrow> pending_ints_ok (mark now x)"
  by (simp_all add: start_message_ok_def pending_ints_ok_def)

context quiet_externals begin

lemma marked_starts_ok:
  assumes "start_list_ok ms" and "in_int64 (Unix now)" and "set sent \<subseteq> set ms"
    and "distinct (map PendingStartMessage_StoreKey sent)"
  shows "starts.message_keys_ok (map (mark now) (filter kept sent))"
  using assms distinct_map_filter [OF assms(4)]
  by (auto simp: starts.message_keys_ok_def start_list_ok_def o_def)

lemma marked_stops_ok:
  assumes "stop_list_ok ms" and "in_int64 (Unix now)" and "set sent \<subseteq> set ms"
    and "distinct (map PendingStopMessage_StoreKey sent)"
  shows "stops.message_keys_ok (map (mark now) (filter kept sent))"
  using assms distinct_map_filter [OF assms(4)]
  by (auto simp: stops.message_keys_ok_def stop_list_ok_def o_def)

lemma distinct_sort:
  "distinct (map PendingStartMessage_StoreKey ms) \<Longrightarrow>
   distinct (map PendingStartMessage_StoreKey (SortStartMessagesByPriority ch ms))"
  by (metis mset_SortStartMessagesByPriority mset_eq_imp_distinct_iff mset_map)

lemma Send_stored:
  assumes send: "Send ex ch chm store now apps starts stops (new_sender conf) w = (None, s', w')"
    and limit: "SenderMessageLimit conf < 2 ^ 63" and now: "in_int64 (Unix now)"
    and ok: "start_list_ok starts" "stop_list_ok stops"
  shows "pending_starts store (entries w') =
      after_send PendingStartMessage_StoreKey (start_obsolete apps now) now (sentStartMessages s') starts
        (pending_starts store (entries w))"
    and "pending_stops store (entries w') =
      after_send PendingStopMessage_StoreKey (stop_obsolete apps now) now (sentStopMessages s') stops
        (pending_stops store (entries w))"
proof -
  obtain w1 where fresh: "VerifyFreshness ex store now w = (None, w1)"
    using send by (cases "VerifyFreshness ex store now w") (auto simp: Send_def Let_def split: option.splits)
  then have w1: "w1 = w" by (rule VerifyFreshness_same)
  obtain sent stopped where
    sent: "subseq sent (filter (start_due apps now) (SortStartMessagesByPriority ch starts))"
      "sentStartMessages s' = sent" "startMessagesToSave s' = map (mark now) (filter kept sent)"
      "set (startMessagesToDelete s') = {m \<in> set starts. start_obsolete apps now m} \<union> {m \<in> set sent. \<not> kept m}"
    and stopped: "subseq stopped (filter (stop_due apps now) stops)"
      "sentStopMessages s' = stopped" "stopMessagesToSave s' = map (mark now) (filter kept stopped)"
      "set (stopMessagesToDelete s') = {m \<in> set stops. stop_obsolete apps now m} \<union> {m \<in> set stopped. \<not> kept m}"
    and succeeded: "didSucceed s'"
    by (rule Send_new [OF send fresh limit]) (rule that; (assumption | blast))
  define s0 where "s0 = new_sender conf\<lparr>currentTime := now, se_apps := apps\<rparr>"
  define sw where "sw = sendStopMessages ex stops (sendStartMessages ex ch starts (s0, w1))"
  have run: "(s', w') = write_messages ex chm store sw"
    using send fresh by (auto simp: Send_def sw_def s0_def Let_def split: prod.splits)
  have quiet: "entries (snd sw) = entries w"
    by (simp add: sw_def sendStopMessages_def sendStartMessages_def fold_send_quiet w1)
  obtain b where "s' = (fst sw)\<lparr>didSucceed := b\<rparr>"
    using write_messages_frame(1) [of ex chm store sw] run by (metis fst_conv)
  then have fields: "startMessagesToSave (fst sw) = startMessagesToSave s'"
    "startMessagesToDelete (fst sw) = startMessagesToDelete s'"
    "stopMessagesToSave (fst sw) = stopMessagesToSave s'"
    "stopMessagesToDelete (fst sw) = stopMessagesToDelete s'" by simp_all
  have sub_starts: "set sent \<subseteq> set starts \<inter> {m. start_due apps now m}"
    using subseq_filter_set [OF sent(1)] by (simp only: set_SortStartMessagesByPriority)
  have sub_stops: "set stopped \<subseteq> set stops \<inter> {m. stop_due apps now m}"
    by (rule subseq_filter_set [OF stopped(1)])
  have sub: "set sent \<subseteq> set starts" "set stopped \<subseteq> set stops"
    "\<And>m. m \<in> set sent \<Longrightarrow> start_due apps now m" "\<And>x. x \<in> set stopped \<Longrightarrow> stop_due apps now x"
    using sub_starts sub_stops by blast+
  have dist: "distinct (map PendingStartMessage_StoreKey starts)" "distinct (map PendingStopMessage_StoreKey stops)"
    using ok by (simp_all add: start_list_ok_def stop_list_ok_def)
  have dist_sent: "distinct (map PendingStartMessage_StoreKey sent)" "distinct (map PendingStopMessage_StoreKey stopped)"
    using subseq_distinct_map [OF sent(1) distinct_map_filter [OF distinct_sort [OF dist(1)]]]
      subseq_distinct_map [OF stopped(1) distinct_map_filter [OF dist(2)]] by simp_all
  have keys: "starts.message_keys_ok (startMessagesToSave (fst sw))" "stops.message_keys_ok (stopMessagesToSave (fst sw))"
    "\<forall>m\<in>set (startMessagesToDelete (fst sw)). proper_key (PendingStartMessage_StoreKey m)"
    "\<forall>m\<in>set (stopMessagesToDelete (fst sw)). proper_key (PendingStopMessage_StoreKey m)"
    unfolding fields sent(3) stopped(3)
    by (rule marked_starts_ok [OF ok(1) now sub(1) dist_sent(1)],
        rule marked_stops_ok [OF ok(2) now sub(2) dist_sent(2)])
      (use ok sub(1,2) in \<open>auto simp: sent(4) stopped(4) start_list_ok_def stop_list_ok_def\<close>)
  have succ: "didSucceed (fst (write_messages ex chm store (fst sw, snd sw)))"
    using succeeded run by (metis fst_conv prod.collapse)
  have w': "w' = snd (write_messages ex chm store (fst sw, snd sw))" using run by (metis snd_conv prod.collapse)
  note written = write_messages_stored [OF succ keys, folded w', unfolded fields quiet sent(3) stopped(3)]
  show "pending_starts store (entries w') =
      after_send PendingStartMessage_StoreKey (start_obsolete apps now) now (sentStartMessages s') starts
        (pending_starts store (entries w))"
    unfolding written(1) sent(2)
    by (rule after_send_eq) (use dist sub sent(4) due_not_obsolete in \<open>auto\<close>)
  show "pending_stops store (entries w') =
      after_send PendingStopMessage_StoreKey (stop_obsolete apps now) now (sentStopMessages s') stops
        (pending_stops store (entries w))"
    unfolding written(2) stopped(2)
    by (rule after_send_eq) (use dist sub stopped(4) stop_due_not_obsolete in \<open>auto\<close>)
qed

end

end
