(* ===== verification/Desired_State_Manager.thy ===== *)
theory Desired_State_Manager imports Desired_State_Fetcher Analyzer_Facts Sender_Store begin

text \<open>
  \<open>hm/manage_desired_state.go\<close>: one round of the analyzer process, which fetches the desired state,
  analyses it and sends the messages.

  Fetching and analysing run side by side and meet only in the queue: the analyzer returns after the
  fetcher has closed it, and the fetcher stops early when the analyzer is done. The model runs the
  fetcher first, with an arbitrary verdict \<open>stopped\<close> at each page, and then the analyzer on the queue it
  leaves. What the two hand over goes through three channels, from which the loop of \<open>analyze\<close>
  receives in any order: the relation \<open>loop_step\<close>.
\<close>

subsection \<open>The three parts of a round\<close>

definition fetchDesiredState :: "'w externals \<Rightarrow> Config \<Rightarrow> (nat \<Rightarrow> bool) \<Rightarrow> (nat \<Rightarrow> choice) \<Rightarrow> AppQueue \<Rightarrow> 'w
    \<Rightarrow> (fetch_error option \<times> AppQueue \<times> 'w) option" where
  "fetchDesiredState ex conf stopped ch appQueue w =
     (case Fetch ex conf stopped ch appQueue w of
        None \<Rightarrow> None
      | Some (result, appQueue', w') \<Rightarrow>
          if fr_Success result then Some (None, SetFetchDesiredAppsSuccess True appQueue', w')
          else Some (fr_Error result, appQueue', w'))"

definition analyzeState :: "'w externals \<Rightarrow> analyze_env \<Rightarrow> choice \<Rightarrow> choice \<Rightarrow> time \<Rightarrow> AppQueue \<Rightarrow> RealStore \<Rightarrow> 'w
    \<Rightarrow> (hm_error + analysis_result) \<times> RealStore \<times> 'w" where
  "analyzeState ex env ch_apps ch now appQueue store w =
     (case Analyze ex env now appQueue store w of
        (Inl err, store', w') \<Rightarrow> (Inl err, store', SendMetrics ex ch_apps ch [] (Some err) w')
      | (Inr output, store', w') \<Rightarrow> (Inr output, store', SendMetrics ex ch_apps ch (fst output) None w'))"

definition send_output :: "'w externals \<Rightarrow> choice \<Rightarrow> choice \<Rightarrow> RealStore \<Rightarrow> time \<Rightarrow> analysis_result \<Rightarrow> 'w
    \<Rightarrow> hm_error option \<times> sender \<times> 'w" where
  "send_output ex ch ch_metrics store now output w =
     (case output of (apps, startMessages, stopMessages) \<Rightarrow>
        Send ex ch ch_metrics store now apps startMessages stopMessages (new_sender (st_config store)) w)"

subsection \<open>The loop over the channels\<close>

text \<open>
  Each channel carries one value and is closed after it, so that every later receive gives the zero
  value. The state says which values were received and holds the last output.
\<close>

datatype channel = FetchDesiredErr | AnalyzeStateErr | AnalyzeStateOutput

datatype loop_state =
    Waiting "channel set" "analysis_result option"
  | Failed "fetch_error + hm_error"
  | Finished analysis_result

definition received :: "channel set \<Rightarrow> channel \<Rightarrow> 'v option \<Rightarrow> 'v option" where
  "received seen c v = (if c \<in> seen then None else v)"

inductive loop_step :: "fetch_error option \<Rightarrow> hm_error + analysis_result \<Rightarrow> loop_state \<Rightarrow> loop_state \<Rightarrow> bool"
  for fetch :: "fetch_error option" and analysis :: "hm_error + analysis_result" where
  fetch_nil: "received seen FetchDesiredErr fetch = None \<Longrightarrow>
     loop_step fetch analysis (Waiting seen out) (Waiting (insert FetchDesiredErr seen) out)"
| fetch_err: "received seen FetchDesiredErr fetch = Some err \<Longrightarrow>
     loop_step fetch analysis (Waiting seen out) (Failed (Inl err))"
| analyze_nil: "received seen AnalyzeStateErr (case analysis of Inl e \<Rightarrow> Some e | Inr _ \<Rightarrow> None) = None \<Longrightarrow>
     loop_step fetch analysis (Waiting seen out) (Waiting (insert AnalyzeStateErr seen) out)"
| analyze_err: "received seen AnalyzeStateErr (case analysis of Inl e \<Rightarrow> Some e | Inr _ \<Rightarrow> None) = Some err \<Longrightarrow>
     loop_step fetch analysis (Waiting seen out) (Failed (Inr err))"
| output_nil: "received seen AnalyzeStateOutput (case analysis of Inl _ \<Rightarrow> None | Inr r \<Rightarrow> Some r) = None \<Longrightarrow>
     loop_step fetch analysis (Waiting seen out) (Waiting (insert AnalyzeStateOutput seen) None)"
| output_apps: "received seen AnalyzeStateOutput (case analysis of Inl _ \<Rightarrow> None | Inr r \<Rightarrow> Some r) = Some r \<Longrightarrow>
     loop_step fetch analysis (Waiting seen out) (Finished r)"

inductive_cases loop_stepE: "loop_step fetch analysis s s'"
inductive_simps loop_step_Waiting: "loop_step fetch analysis (Waiting seen out) s'"

abbreviation loop_start :: loop_state where "loop_start \<equiv> Waiting {} None"

definition loop_reaches :: "fetch_error option \<Rightarrow> hm_error + analysis_result \<Rightarrow> loop_state \<Rightarrow> bool" where
  "loop_reaches fetch analysis s \<longleftrightarrow> (loop_step fetch analysis)\<^sup>*\<^sup>* loop_start s"

subsection \<open>A round\<close>

record round_env =
  re_stopped :: "nat \<Rightarrow> bool"
  re_pages :: "nat \<Rightarrow> choice"
  re_analyze :: analyze_env
  re_now :: time
  re_metrics :: choice
  re_send_now :: time
  re_sort :: choice

text \<open>\<open>round ex env conf store w r w'\<close>: a round may end with the error \<open>r\<close> (or none) in the world \<open>w'\<close>.\<close>

inductive analyze_round :: "'w externals \<Rightarrow> round_env \<Rightarrow> RealStore \<Rightarrow> 'w
    \<Rightarrow> (fetch_error + hm_error) option \<Rightarrow> 'w \<Rightarrow> bool"
  for ex :: "'w externals" and env :: round_env and store :: RealStore where
  round_failed: "fetchDesiredState ex (st_config store) (re_stopped env) (re_pages env) NewAppQueue w =
       Some (fetch, q, w1) \<Longrightarrow>
     analyzeState ex (re_analyze env) (re_metrics env) (re_metrics env) (re_now env) q store w1 =
       (analysis, store', w2) \<Longrightarrow>
     loop_reaches fetch analysis (Failed err) \<Longrightarrow> analyze_round ex env store w (Some err) w2"
| round_sent: "fetchDesiredState ex (st_config store) (re_stopped env) (re_pages env) NewAppQueue w =
       Some (fetch, q, w1) \<Longrightarrow>
     analyzeState ex (re_analyze env) (re_metrics env) (re_metrics env) (re_now env) q store w1 =
       (analysis, store', w2) \<Longrightarrow>
     loop_reaches fetch analysis (Finished output) \<Longrightarrow>
     send_output ex (re_sort env) (re_metrics env) store' (re_send_now env) output w2 = (r, s, w') \<Longrightarrow>
     analyze_round ex env store w (map_option Inr r) w'"

inductive_cases analyze_roundE: "analyze_round ex env store w r w'"

subsection \<open>What the loop can return\<close>

text \<open>A receive that gave nothing leaves nothing to give; so the output is only ever set at the end.\<close>

definition loop_inv :: "fetch_error option \<Rightarrow> hm_error + analysis_result \<Rightarrow> loop_state \<Rightarrow> bool" where
  "loop_inv fetch analysis s \<longleftrightarrow>
     (case s of
        Waiting seen out \<Rightarrow> out = None \<and> (FetchDesiredErr \<in> seen \<longrightarrow> fetch = None)
          \<and> (AnalyzeStateErr \<in> seen \<longrightarrow> (\<exists>r. analysis = Inr r))
          \<and> (AnalyzeStateOutput \<in> seen \<longrightarrow> (\<exists>e. analysis = Inl e))
      | Failed (Inl e) \<Rightarrow> fetch = Some e
      | Failed (Inr e) \<Rightarrow> analysis = Inl e
      | Finished r \<Rightarrow> analysis = Inr r)"

lemma loop_inv_step: "loop_step fetch analysis s s' \<Longrightarrow> loop_inv fetch analysis s \<Longrightarrow> loop_inv fetch analysis s'"
  by (induction rule: loop_step.induct) (auto simp: loop_inv_def received_def split: sum.splits if_splits)

lemma loop_reaches_inv: "loop_reaches fetch analysis s \<Longrightarrow> loop_inv fetch analysis s"
  unfolding loop_reaches_def
  by (induction rule: rtranclp_induct) (simp_all add: loop_inv_step, simp add: loop_inv_def)

text \<open>From every state that still waits, one more receive can end the loop.\<close>

lemma loop_progress:
  assumes "loop_reaches fetch analysis (Waiting seen out)"
  shows "\<exists>s'. loop_step fetch analysis (Waiting seen out) s' \<and> (\<forall>seen out. s' \<noteq> Waiting seen out)"
proof (cases analysis)
  case (Inl e)
  then have "AnalyzeStateErr \<notin> seen" using loop_reaches_inv [OF assms] by (auto simp: loop_inv_def)
  then have "loop_step fetch analysis (Waiting seen out) (Failed (Inr e))"
    by (intro analyze_err) (simp add: received_def Inl)
  then show ?thesis by blast
next
  case (Inr r)
  then have "AnalyzeStateOutput \<notin> seen" using loop_reaches_inv [OF assms] by (auto simp: loop_inv_def)
  then have "loop_step fetch analysis (Waiting seen out) (Finished r)"
    by (intro output_apps) (simp add: received_def Inr)
  then show ?thesis by blast
qed

subsection \<open>What the fetcher leaves\<close>

definition queue_flag_kept :: "'w externals \<Rightarrow> Config \<Rightarrow> (nat \<Rightarrow> bool) \<Rightarrow> (nat \<Rightarrow> choice) \<Rightarrow> string \<Rightarrow> nat \<Rightarrow> string \<Rightarrow> int
    \<Rightarrow> AppQueue \<Rightarrow> 'w \<Rightarrow> DesiredStateFetcherResult \<times> AppQueue \<times> 'w \<Rightarrow> bool" where
  "queue_flag_kept ex conf stopped ch auth n token k q w y \<longleftrightarrow>
     fetchDesiredAppsSuccess (fst (snd y)) = fetchDesiredAppsSuccess q
   \<and> (\<not> fr_Success (fst y) \<longrightarrow> fr_Error (fst y) \<noteq> None)
   \<and> ((\<forall>b\<in>set (DesiredApps q). batch_ok b) \<longrightarrow> (\<forall>b\<in>set (DesiredApps (fst (snd y))). batch_ok b))"

lemma fetchBatch_flag:
  assumes "fetchBatch ex conf stopped ch auth n token k q w = Some y"
  shows "queue_flag_kept ex conf stopped ch auth n token k q w y"
proof (rule fetchBatch.raw_induct [OF _ assms, where P = queue_flag_kept], goal_cases)
  case (1 f ex conf stopped ch auth n token k q w y)
  have "queue_flag_kept ex conf stopped ch auth (Suc n) t k' q' w' y"
    if "f ex conf stopped ch auth (Suc n) t k' q' w' = Some y" for t k' q' w'
    using 1(1) [OF that] .
  then show ?case
    using 1(2) batch_of_ok
    by (fastforce simp: queue_flag_kept_def sendBatch_def failed_fetch_def
        split: prod.splits sum.splits if_splits http_error.splits option.splits)
qed

lemma fetchDesiredState_flag:
  assumes "fetchDesiredState ex conf stopped ch NewAppQueue w = Some (err, q, w')"
  shows "fetchDesiredAppsSuccess q \<longleftrightarrow> err = None" and "\<forall>b\<in>set (DesiredApps q). batch_ok b"
proof -
  obtain res q0 w0 where f: "Fetch ex conf stopped ch NewAppQueue w = Some (res, q0, w0)"
    using assms by (auto simp: fetchDesiredState_def split: option.splits)
  note flag = fetchBatch_flag [OF f [unfolded Fetch_def]]
  show "fetchDesiredAppsSuccess q \<longleftrightarrow> err = None" "\<forall>b\<in>set (DesiredApps q). batch_ok b"
    using assms f flag
    by (auto simp: fetchDesiredState_def queue_flag_kept_def NewAppQueue_def SetFetchDesiredAppsSuccess_def
        split: if_splits)
qed

lemma Analyze_success:
  assumes "Analyze ex env now q store w = (Inr out, store', w')"
  shows "fetchDesiredAppsSuccess q"
  using assms by (auto simp: Analyze_def Let_def split: option.splits sum.splits prod.splits if_splits)

context service_calls begin

lemma fetchBatch_keep:
  assumes "keeps w" and "fetchBatch ex conf stopped ch auth n token k q w = Some (res, q', w')"
  shows "keeps w'"
proof -
  have "ex = ex \<longrightarrow> keeps w \<longrightarrow> keeps (snd (snd (res, q', w')))"
  proof (rule fetchBatch.raw_induct [where
        P = "\<lambda>ex' conf stopped ch auth n token k q w y. ex' = ex \<longrightarrow> keeps w \<longrightarrow> keeps (snd (snd y))", OF _ assms(2)],
      goal_cases)
    case (1 f ex' conf stopped ch auth n token k q w y)
    show ?case
    proof (intro impI)
      assume ex: "ex' = ex" and w: "keeps w"
      obtain p w1 where p: "http_get ex (bulkURL conf (DesiredStateBatchSize conf) token) auth w = (p, w1)"
        by fastforce
      have w1: "keeps w1" by (rule page_keeps [OF w p])
      have rec: "keeps (snd (snd y))" if "f ex conf stopped ch auth (Suc n) t k' q' w1 = Some y" for t k' q'
        using 1(1) [OF that] w1 by simp
      show "keeps (snd (snd y))"
        using 1(2) p w1 rec unfolding ex
        by (auto split: prod.splits sum.splits if_splits http_error.splits option.splits)
    qed
  qed
  then show ?thesis using assms(1) by simp
qed

lemma fetchDesiredState_keep:
  "keeps w \<Longrightarrow> fetchDesiredState ex conf stopped ch q w = Some (e, q', w') \<Longrightarrow> keeps w'"
  by (auto simp: fetchDesiredState_def Fetch_def split: option.splits if_splits dest!: fetchBatch_keep [rotated])

end

lemma fetchDesiredState_quiet:
  assumes "quiet_externals ex entries" and "fetchDesiredState ex conf stopped ch q w = Some (e, q', w')"
  shows "entries w' = entries w"
  by (rule service_calls.fetchDesiredState_keep [OF outside_calls.axioms(1) [OF quiet_externals.outside [OF assms(1)]] refl assms(2)])

end
