(* ===== verification/Analysis_Properties.thy ===== *)
theory Analysis_Properties imports Analysis_Sound Desired_State_Manager Metrics Samples begin

text \<open>
  The properties of a whole analysis and of the round that fetches, analyses and sends: where the
  messages come from, what a failed fetch leaves, and that the loop over the channels can end.
\<close>

subsection \<open>Where the messages of an analysis come from\<close>

lemma build_apps_ok:
  assumes "map_of (build_apps ch hs cs) k = Some a"
  shows "app_ok a"
proof -
  obtain x where "built x = Some a"
    using fold_add_app [OF assms [unfolded build_apps_def]] by auto
  moreover have "gomap_ok (fold (\<lambda>c. mput (cc_InstanceIndex c) c) ds m)"
    if "gomap_ok m" for ds and m :: "(int, CrashCountRec) gomap"
    using that by (induction ds arbitrary: m) auto
  ultimately show ?thesis
    by (auto simp: built_def buildApp_def Let_def split: if_splits prod.splits intro!: app_ok_NewApp)
qed

lemma GetApps_ok:
  assumes "GetApps ex now ch store w = (Inr apps, store', w')"
  shows "\<forall>p\<in>set apps. app_ok (snd p)"
proof
  fix p assume p: "p \<in> set apps"
  obtain hs cs where apps: "apps = build_apps ch hs cs"
    using assms by (auto simp: GetApps_def split: sum.splits prod.splits)
  then have "map_of apps (fst p) = Some (snd p)"
    using p gomap_ok_build_apps [of ch hs cs] by (simp add: map_of_Some_iff)
  then show "app_ok (snd p)" using build_apps_ok apps by blast
qed

lemma GetApps_heartbeats:
  assumes "GetApps ex now ch store w = (Inr apps, store', w')"
  obtains hs store1 w1 where "GetInstanceHeartbeats ex now store w = (Inr hs, store1, w1)"
    "gomap_ok apps" "\<And>k a. map_of apps k = Some a \<Longrightarrow> undesired a"
    "\<forall>p\<in>set apps. app_ok (snd p) \<and> set (app_InstanceHeartbeats (snd p)) \<subseteq> set hs"
proof -
  obtain hs cs store1 w1 where hs: "GetInstanceHeartbeats ex now store w = (Inr hs, store1, w1)"
    and apps: "apps = build_apps ch hs cs"
    using assms by (auto simp: GetApps_def split: sum.splits prod.splits)
  have a: "undesired a \<and> set (app_InstanceHeartbeats a) \<subseteq> set hs" if "map_of apps k = Some a" for k a
  proof -
    have "map_of (fold add_app (go_range ch (representations hs cs)) []) k = Some a"
      using that by (simp add: apps build_apps_def)
    then obtain x where x: "x \<in> set (representations hs cs)" "built x = Some a"
      using fold_add_app by fastforce
    have "set (actualState (snd x)) \<subseteq> set hs"
      using representations_mem(1) [of "fst x" "snd x" hs cs] x(1) by auto
    then show ?thesis
      using x(2) by (auto simp: built_def buildApp_def NewApp_def undesired_def Let_def split: if_splits prod.splits)
  qed
  have ok: "gomap_ok apps" by (simp add: apps gomap_ok_build_apps)
  have "app_ok (snd p) \<and> set (app_InstanceHeartbeats (snd p)) \<subseteq> set hs" if "p \<in> set apps" for p
    using GetApps_ok [OF assms] a [of "fst p" "snd p"] that ok by (simp add: map_of_Some_iff)
  then show thesis using a by (intro that [OF hs ok]) blast+
qed

lemma GetApps_undesired:
  assumes "GetApps ex now ch store w = (Inr apps, store', w')" and "map_of apps k = Some app"
  shows "undesired app" and "app_ok app"
proof -
  show "undesired app" by (rule GetApps_heartbeats [OF assms(1)]) (use assms(2) in blast)
  show "app_ok app" using GetApps_ok [OF assms(1)] map_of_SomeD [OF assms(2)] by auto
qed

lemma Analyze_run:
  assumes "Analyze ex env now q store w = (Inr (apps, ss, xs), store', w')"
  obtains actual store2 w1 w2 starts w3 stops w4 s where
    "VerifyFreshness ex store now w = (None, w1)" "GetApps ex now (ev_apps env) store w1 = (Inr actual, store2, w2)"
    "GetPendingStartMessages ex store2 w2 = (Inr starts, w3)" "GetPendingStopMessages ex store2 w3 = (Inr stops, w4)"
    "s = analyze_removals env (st_config store) starts stops
       (analyze_batches env (st_config store) starts stops (DesiredApps q) actual)"
    "ss = map snd (go_range (ev_pendingStarts env) starts) @ al_newStartMessages s"
    "xs = map snd (go_range (ev_pendingStops env) stops) @ al_newStopMessages s" "store' = store2"
    "save_analysis ex store2 s w4 = (None, w')" "apps = al_actualApps s"
  using assms by (auto simp: Analyze_def Let_def split: option.splits sum.splits prod.splits if_splits)

lemma stored_key:
  assumes "values_ok key dec dir es" and "stored dec dir es k = Some m"
  shows "key m = k"
proof -
  have k: "proper_key k" using assms(2) by (simp add: stored_def split: if_splits)
  then obtain v where v: "es (dir @ ''/'' @ k) = Some (File v)" "dec v = Some m"
    using assms(2) by (simp add: stored_def split: option.splits entry.splits)
  show ?thesis using assms(1) k v unfolding values_ok_def by fastforce
qed

context kv_adapter begin

text \<open>Reading the apps does not touch the pending messages.\<close>

lemma GetApps_pending:
  assumes "GetApps ex now ch store w = (r, store', w')"
  shows "entries w' (SchemaRoot store @ ''/start/'' @ k) = entries w (SchemaRoot store @ ''/start/'' @ k)"
    and "entries w' (SchemaRoot store @ ''/stop/'' @ k) = entries w (SchemaRoot store @ ''/stop/'' @ k)"
    and "SchemaRoot store' = SchemaRoot store"
proof -
  have "\<not> below (actual_dir store) (SchemaRoot store @ ''/start/'' @ k)"
    "\<not> below (actual_dir store) (SchemaRoot store @ ''/stop/'' @ k)"
    by (auto simp: actual_dir_def below_def prefix_def)
  then show "entries w' (SchemaRoot store @ ''/start/'' @ k) = entries w (SchemaRoot store @ ''/start/'' @ k)"
    "entries w' (SchemaRoot store @ ''/stop/'' @ k) = entries w (SchemaRoot store @ ''/stop/'' @ k)"
    using GetApps_frame [OF assms] by blast+
  have "\<not> below (actual_dir store) []" by (auto simp: below_def actual_dir_def)
  then show "SchemaRoot store' = SchemaRoot store"
    using GetApps_frame [OF assms] SchemaRoot_config by blast
qed

lemma start_values_kept:
  assumes "GetApps ex now ch store w = (r, store', w')"
  shows "start_dir store' = start_dir store"
    and "values_ok key dec (start_dir store) (entries w') = values_ok key dec (start_dir store) (entries w)"
    and "stored dec' (start_dir store) (entries w') = stored dec' (start_dir store) (entries w)"
proof -
  note kept = GetApps_pending [OF assms]
  show "start_dir store' = start_dir store" by (simp add: start_dir_def kept(3))
  have "entries w' (start_dir store @ ''/'' @ k) = entries w (start_dir store @ ''/'' @ k)" for k
    using kept(1) [of k] by (simp add: start_dir_def)
  then show "values_ok key dec (start_dir store) (entries w') = values_ok key dec (start_dir store) (entries w)"
    "stored dec' (start_dir store) (entries w') = stored dec' (start_dir store) (entries w)"
    by (rule values_ok_cong, rule stored_cong)
qed

lemma read_starts:
  assumes "values_ok PendingStartMessage_StoreKey NewPendingStartMessageFromJSON (start_dir store) (entries w)"
    and "GetPendingStartMessages ex store w = (Inr starts, w')"
  shows "map_of starts = pending_starts store (entries w)" and "gomap_ok starts"
proof -
  note ms = start_message_store [OF kv_adapter_axioms]
  have get: "get ex PendingStartMessage_StoreKey NewPendingStartMessageFromJSON (start_dir store) w = (Inr starts, w')"
    using assms(2) by (simp add: GetPendingStartMessages_def start_dir_eq)
  show "map_of starts = pending_starts store (entries w)"
    using message_store.get_stored [OF ms assms(1) dirs_proper(1) get] by simp
  show "gomap_ok starts" by (rule get_gomap_ok [OF get])
qed

end

text \<open>
  C19. Whatever the store holds, every start that an analysis returns either was pending in the store
  already, or is for a desired app of the queue, at a desired index where no instance of the app as the
  run returns it starts or runs, under a key at which nothing was pending, unsent and to be verified
  again before it is sent.
\<close>

theorem Analyze_starts_sound:
  assumes "kv_adapter ex entries"
    and "values_ok PendingStartMessage_StoreKey NewPendingStartMessageFromJSON (start_dir store) (entries w)"
    and "Analyze ex env now q store w = (Inr (apps, ss, xs), store', w')" and "m \<in> set ss"
  shows "pending_starts store (entries w) (PendingStartMessage_StoreKey m) = Some m
    \<or> pending_starts store (entries w) (PendingStartMessage_StoreKey m) = None
      \<and> SentOn m = 0 \<and> \<not> SkipVerification m
      \<and> (\<exists>app. app_desired_as (desired_apps (DesiredApps q)) apps app \<and> AppGuid m = app_AppGuid app
          \<and> AppVersion m = app_AppVersion app \<and> IsIndexDesired app (IndexToStart m)
          \<and> \<not> HasStartingOrRunningInstanceAtIndex app (IndexToStart m))"
proof -
  obtain actual store2 w1 w2 starts w3 stops w4 s where run:
    "VerifyFreshness ex store now w = (None, w1)" "GetApps ex now (ev_apps env) store w1 = (Inr actual, store2, w2)"
    "GetPendingStartMessages ex store2 w2 = (Inr starts, w3)"
    "s = analyze_removals env (st_config store) starts stops
       (analyze_batches env (st_config store) starts stops (DesiredApps q) actual)"
    "ss = map snd (go_range (ev_pendingStarts env) starts) @ al_newStartMessages s" "apps = al_actualApps s"
    by (rule Analyze_run [OF assms(3)])
  note kept = kv_adapter.start_values_kept [OF assms(1) run(2)]
  have w1: "w1 = w" using kv_adapter.VerifyFreshness_pure [OF assms(1) run(1)] .
  have ok: "values_ok PendingStartMessage_StoreKey NewPendingStartMessageFromJSON (start_dir store2) (entries w2)"
    using assms(2) by (simp add: kept(1,2) w1)
  have starts: "map_of starts = pending_starts store (entries w)" "gomap_ok starts"
    using kv_adapter.read_starts [OF assms(1) ok run(3)] by (simp_all add: kept(1,3) w1)
  show ?thesis
  proof (cases "m \<in> snd ` set starts")
    case True
    then obtain k where "(k, m) \<in> set starts" by auto
    then have "map_of starts k = Some m" using map_of_Some_iff [OF starts(2)] by blast
    then have k: "pending_starts store (entries w) k = Some m" unfolding starts(1) .
    show ?thesis using stored_key [OF assms(2) k] k by simp
  next
    case False
    then have "m \<in> set (al_newStartMessages s)" using assms(4) run(5) by auto
    moreover obtain hs where "analyze_inv starts stops (desired_apps (DesiredApps q)) (set hs)
        (analyze_batches env (st_config store) starts stops (DesiredApps q) actual)"
      by (rule GetApps_heartbeats [OF run(2)]) (blast intro: analyze_inv_batches)
    ultimately obtain app where "app_desired_as (desired_apps (DesiredApps q)) apps app" "sound_start starts app m"
      by (auto simp: run(4,6) removals_apps analyze_inv_def)
    then show ?thesis unfolding sound_start_def starts(1) by blast
  qed
qed

definition plain_env :: analyze_env where
  "plain_env = \<lparr>ev_clock = (\<lambda>_. time_Unix 1000), ev_apps = (\<lambda>_. 0), ev_pendingStarts = (\<lambda>_. 0),
     ev_pendingStops = (\<lambda>_. 0), ev_batch = (\<lambda>_ _. 0), ev_removal = (\<lambda>_. 0),
     ev_runtime = (\<lambda>_. \<lparr>rt_Guid = (\<lambda>_. ''id''), rt_range = (\<lambda>_. 0), rt_unrep = 0\<rparr>),
     ev_starts = (\<lambda>_ _. 0), ev_stops = (\<lambda>_ _. 0)\<rparr>"

definition two_queue :: AppQueue where
  "two_queue = \<lparr>DesiredApps = [[(''app,v1'', sample_desired 2)]], fetchDesiredAppsSuccess = True\<rparr>"

definition two_analysis :: "(hm_error + analysis_result) \<times> RealStore \<times> memory" where
  "two_analysis = Analyze mem_externals plain_env (time_Unix 1000) two_queue sample_store app_memory"

lemma no_entry_below:
  assumes "list_all (\<lambda>k. \<not> below d k) (map fst (mem_entries w))"
  shows "mem_view w (d @ ''/'' @ k) = None"
proof -
  have "d @ ''/'' @ k \<notin> set (map fst (mem_entries w))"
    using assms by (force simp: list_all_iff)
  then show ?thesis by (simp add: mem_view_def map_of_eq_None_iff)
qed

theorem Analyze_starts_sound_witness:
  "\<exists>app. app_Desired app = sample_desired 2 \<and> IsIndexDesired app 1 \<and> \<not> HasStartingOrRunningInstanceAtIndex app 1"
proof -
  have "(case fst two_analysis of Inr (apps, ss, xs) \<Rightarrow> map IndexToStart ss | Inl e \<Rightarrow> []) = [1]" by code_simp
  then obtain apps ss xs m where result: "fst two_analysis = Inr (apps, ss, xs)" and m: "m \<in> set ss" "IndexToStart m = 1"
    by (cases "fst two_analysis") (auto split: prod.splits)
  have run: "Analyze mem_externals plain_env (time_Unix 1000) two_queue sample_store app_memory =
      (Inr (apps, ss, xs), fst (snd two_analysis), snd (snd two_analysis))"
    by (simp add: result [symmetric] two_analysis_def)
  have "list_all (\<lambda>k. \<not> below (start_dir sample_store) k) (map fst (mem_entries app_memory))" by code_simp
  note empty = no_entry_below [OF this]
  have ok: "values_ok PendingStartMessage_StoreKey NewPendingStartMessageFromJSON (start_dir sample_store) (mem_view app_memory)"
    unfolding values_ok_def empty by simp
  have "pending_starts sample_store (mem_view app_memory) k = None" for k
    unfolding stored_def empty by simp
  moreover have "app_Desired app = sample_desired 2" if "app_desired_as (desired_apps (DesiredApps two_queue)) apps app" for app
    using that by (auto simp: app_desired_as_def two_queue_def desired_apps_def)
  ultimately show ?thesis
    using Analyze_starts_sound [OF memory.kv_adapter_axioms ok run m(1)] m(2) by auto
qed

subsection \<open>Fetching\<close>

text \<open>
  C34. A fetch succeeds exactly when the server hands out a run of pages, each asked for with the
  token of the one before, up to an empty one, and the analyzer has not stopped before the last of
  them; then the queue has got the relevant apps of every page in order, and the result counts all
  entries of the pages.
\<close>

abbreviation fetch_auth :: "Config \<Rightarrow> string" where
  "fetch_auth conf \<equiv> BasicAuthInfo_Encode \<lparr>User = CCAuthUser conf, Password = CCAuthPassword conf\<rparr>"


definition sample_page :: "(string \<times> json) list \<Rightarrow> int \<Rightarrow> bytes" where
  "sample_page results token = Doc (JObj [(''results'', JObj results), (''bulk_token'', JObj [(''id'', JInt token)])])"

definition paged_memory :: memory where
  "paged_memory = fresh_memory\<lparr>mem_pages :=
     [(200, sample_page [(''app'', DesiredAppState_json (sample_desired 2))] 5), (200, sample_page [] 5)]\<rparr>"


text \<open>
  When every non-empty page brings the server closer to its end, as a bulk API over finitely many
  apps does, fetching terminates, whatever the pages hold and whenever the analyzer stops.
\<close>

theorem Fetch_terminates:
  fixes rank :: "'w \<Rightarrow> nat"
  assumes "\<And>token w r w'. page_at ex conf (fetch_auth conf) token w = Some (r, w') \<Longrightarrow> rs_Results r \<noteq> [] \<Longrightarrow> rank w' < rank w"
  shows "\<exists>res q' w'. Fetch ex conf stopped ch q w = Some (res, q', w')"
proof -
  have "\<exists>y. fetchBatch ex conf stopped ch (fetch_auth conf) 0 initialBulkToken 0 q w = Some y"
    by (rule fetchBatch_returns [where rank = rank]) (rule assms)
  then show ?thesis by (auto simp: Fetch_def)
qed

theorem Fetch_terminates_witness:
  "\<exists>res q' w'. Fetch mem_externals defaults (\<lambda>_. False) (\<lambda>_ _. 0) NewAppQueue paged_memory = Some (res, q', w')"
proof (rule Fetch_terminates [where rank = "\<lambda>w. length (mem_pages w)"])
  fix token w r w'
  assume "page_at mem_externals defaults (fetch_auth defaults) token w = Some (r, w')"
  then show "length (mem_pages w') < length (mem_pages w)"
    by (auto simp: page_at_def mem_externals_def mem_get_page_def split: list.splits prod.splits if_splits sum.splits)
qed

subsection \<open>A round\<close>

text \<open>
  C29. A round whose fetch fails ends with an error and has written nothing: outside the directory of
  the actual state, from which reading the apps removes expired heartbeats, every entry of the store
  is what it was. In particular no message is queued, sent or deleted.
\<close>

theorem failed_fetch_writes_nothing:
  assumes "quiet_externals ex entries" and "analyze_round ex env store w r w'"
    and "fetchDesiredState ex (st_config store) (re_stopped env) (re_pages env) NewAppQueue w = Some (Some err, q, w1)"
    and "\<not> below (actual_dir store) k"
  shows "r \<noteq> None \<and> entries w' k = entries w k"
proof -
  note kv = quiet_externals.axioms(1) [OF assms(1)]
  have flag: "\<not> fetchDesiredAppsSuccess q" using fetchDesiredState_flag(1) [OF assms(3)] by simp
  have w1: "entries w1 = entries w" by (rule fetchDesiredState_quiet [OF assms(1,3)])
  obtain a store' w2 where a: "Analyze ex (re_analyze env) (re_now env) q store w1 = (a, store', w2)"
    by (metis prod_cases3)
  obtain e where e: "a = Inl e" and w2: "entries w2 k = entries w1 k"
    using kv_adapter.Analyze_unsuccessful [OF kv flag a, of k] assms(4) by blast
  have state: "analyzeState ex (re_analyze env) (re_metrics env) (re_metrics env) (re_now env) q store w1 =
      (Inl e, store', SendMetrics ex (re_metrics env) (re_metrics env) [] (Some e) w2)"
    using a e by (simp add: analyzeState_def)
  have never: "\<not> loop_reaches fetch (Inl e) (Finished out)" for fetch out
    using loop_reaches_inv by (fastforce simp: loop_inv_def)
  show ?thesis
    by (rule analyze_roundE [OF assms(2)])
      (use assms(3) state w1 w2 never in \<open>auto simp: quiet_externals.SendMetrics_quiet [OF assms(1)]\<close>)
qed

text \<open>
  The loop over the three channels: in every order of receives, an error that it returns is the
  one the fetcher or the analyzer sent and an output is the one the analyzer sent; and from every
  state that still waits, one more receive can end it, although closed channels give zero values
  for ever.
\<close>

theorem loop_ends_with_what_was_sent:
  assumes "loop_reaches fetch analysis s"
  shows "case s of
      Waiting seen out \<Rightarrow> \<exists>s'. loop_step fetch analysis s s' \<and> (\<nexists>seen out. s' = Waiting seen out)
    | Failed e \<Rightarrow> (case e of Inl err \<Rightarrow> fetch = Some err | Inr err \<Rightarrow> analysis = Inl err)
    | Finished output \<Rightarrow> analysis = Inr output"
proof (cases s)
  case (Waiting seen out)
  then show ?thesis using loop_progress [of fetch analysis seen out] assms by auto
qed (use loop_reaches_inv [OF assms] in \<open>simp_all add: loop_inv_def\<close>)

theorem loop_ends_with_what_was_sent_witness:
  "\<exists>s'. loop_step None (Inr ([], [], [])) (Waiting {FetchDesiredErr} None) s' \<and> (\<nexists>seen out. s' = Waiting seen out)"
proof -
  have "loop_step None (Inr ([], [], [])) (Waiting {} None) (Waiting {FetchDesiredErr} None)"
    using fetch_nil [of "{}" None "Inr ([], [], [])" None] by (simp add: received_def)
  then have "loop_reaches None (Inr ([], [], [])) (Waiting {FetchDesiredErr} None)"
    unfolding loop_reaches_def by (rule r_into_rtranclp)
  from loop_ends_with_what_was_sent [OF this] show ?thesis by simp
qed

definition plain_round :: round_env where
  "plain_round = \<lparr>re_stopped = (\<lambda>_. False), re_pages = (\<lambda>_ _. 0), re_analyze = plain_env, re_now = time_Unix 1000,
     re_metrics = (\<lambda>_. 0), re_send_now = time_Unix 1000, re_sort = (\<lambda>_. 0)\<rparr>"

lemma no_page_fetch:
  "fetchDesiredState mem_externals (st_config sample_store) (re_stopped plain_round) (re_pages plain_round) NewAppQueue
     app_memory = Some (Some (NoAnswer ''timeout''), NewAppQueue, app_memory)"
proof -
  have "mem_pages app_memory = []" by code_simp
  then have "http_get mem_externals url auth app_memory = (Inl (RequestFailed ''timeout''), app_memory)" for url auth
    by (simp add: mem_externals_def mem_get_page_def)
  then show ?thesis
    unfolding fetchDesiredState_def Fetch_def by (subst fetchBatch.simps) (simp add: failed_fetch_def)
qed

theorem failed_fetch_writes_nothing_witness:
  "\<exists>r w'. analyze_round mem_externals plain_round sample_store app_memory r w' \<and> r \<noteq> None
     \<and> mem_view w' ''/hm/v0/actual-fresh'' = mem_view app_memory ''/hm/v0/actual-fresh''"
proof -
  obtain analysis store' w2 where analysis: "analyzeState mem_externals (re_analyze plain_round) (re_metrics plain_round)
      (re_metrics plain_round) (re_now plain_round) NewAppQueue sample_store app_memory = (analysis, store', w2)"
    by (metis prod_cases3)
  have "loop_step (Some (NoAnswer ''timeout'')) analysis loop_start (Failed (Inl (NoAnswer ''timeout'')))"
    by (rule fetch_err) (simp add: received_def)
  then have "loop_reaches (Some (NoAnswer ''timeout'')) analysis (Failed (Inl (NoAnswer ''timeout'')))"
    unfolding loop_reaches_def by (rule r_into_rtranclp)
  note round = round_failed [OF no_page_fetch analysis this]
  have "\<not> below (actual_dir sample_store) ''/hm/v0/actual-fresh''" by code_simp
  from failed_fetch_writes_nothing [OF quiet_memory.quiet_externals_axioms round no_page_fetch this] round
  show ?thesis by blast
qed

subsection \<open>Metrics and the order of the starts\<close>

lemma count_fold:
  assumes "\<And>app c. count_at c k = wrap64 (count_at c k) \<Longrightarrow>
      count_at (count_app app c) k = wrap64 (count_at c k + inc app)"
    and "count_at c k = wrap64 (count_at c k)"
  shows "count_at (fold count_app apps c) k = wrap64 (count_at c k + sum_list (map inc apps))"
  using assms(2)
proof (induction apps arbitrary: c)
  case (Cons app apps)
  note step = assms(1) [OF Cons.prems]
  have "count_at (count_app app c) k = wrap64 (count_at (count_app app c) k)"
    unfolding step using wrap64_add [of "count_at c k + inc app" 0] by simp
  from Cons.IH [OF this] show ?case by (simp add: step wrap64_add add.assoc)
qed simp

definition counts_as_desired :: "App \<Rightarrow> int" where
  "counts_as_desired app =
     (if IsDesired app \<and> ds_PackageState (app_Desired app) \<noteq> AppPackageStatePending then 1 else 0)"

text \<open>
  The gauges of an analysis are totals over its apps, in 64 bits: the running instances, the
  crashed instances, and the desired apps that are not waiting to be staged; the latter are exactly
  those with all and those with some instances reporting.
\<close>

theorem gauges_are_totals:
  "count_at (app_counts apps) ''NumberOfRunningInstances'' = wrap64 (sum_list (map NumberOfStartingOrRunningInstances apps))
   \<and> count_at (app_counts apps) ''NumberOfCrashedInstances'' = wrap64 (sum_list (map NumberOfCrashedInstances apps))
   \<and> count_at (app_counts apps) ''NumberOfDesiredApps'' = wrap64 (sum_list (map counts_as_desired apps))
   \<and> count_at (app_counts apps) ''NumberOfDesiredApps'' = wrap64 (count_at (app_counts apps) ''NumberOfAppsWithAllInstancesReporting''
       + count_at (app_counts apps) ''NumberOfAppsWithMissingInstances'')"
proof -
  have zero: "count_at zero_counts k = 0" for k
    by (simp add: count_at_def zero_counts_def)
  have total: "count_at (app_counts apps) k = wrap64 (sum_list (map inc apps))"
    if "\<And>app c. count_at c k = wrap64 (count_at c k) \<Longrightarrow>
      count_at (count_app app c) k = wrap64 (count_at c k + inc app)" for k inc
    unfolding app_counts_def using count_fold [of k inc zero_counts apps, OF that] by (simp add: zero wrap64_def)
  have running: "count_at (app_counts apps) ''NumberOfRunningInstances'' = wrap64 (sum_list (map NumberOfStartingOrRunningInstances apps))"
    by (rule total) (simp add: count_app_def count_desired_def Let_def count_at_add)
  have crashed: "count_at (app_counts apps) ''NumberOfCrashedInstances'' = wrap64 (sum_list (map NumberOfCrashedInstances apps))"
    by (rule total) (simp add: count_app_def count_desired_def Let_def count_at_add)
  have "count_at (app_counts apps) ''NumberOfDesiredApps'' = wrap64 (sum_list (map counts_as_desired apps))"
    by (rule total) (simp add: count_app_def count_desired_def counts_as_desired_def Let_def count_at_add)
  then show ?thesis using running crashed gauges_app_counts [of apps] by (simp only: gauges_ok_def simp_thms)
qed

text \<open>
  Sorting by priority yields a permutation of the messages, for every order of the map, in which
  no message comes after one that is due later, or due at the same time with a lower priority.
\<close>

theorem starts_are_sorted:
  assumes "\<forall>m\<in>set ms. sort_ok m"
  shows "mset (SortStartMessagesByPriority ch ms) = mset ms
    \<and> sorted_wrt (\<lambda>a b. \<not> before b a) (SortStartMessagesByPriority ch ms)"
  using SortStartMessagesByPriority_sorted [OF assms] by simp

theorem starts_are_sorted_witness:
  "sorted_wrt (\<lambda>a b. \<not> before b a) (SortStartMessagesByPriority (\<lambda>_. 0) [sample_start 1 60, sample_start 0 60])"
proof -
  have "\<forall>m\<in>set [sample_start 1 60, sample_start 0 60]. sort_ok m"
    by (simp add: sort_ok_def sample_start_def) code_simp
  from starts_are_sorted [OF this] show ?thesis by blast
qed

end
