(* ===== verification/Store_Compact.thy ===== *)
theory Store_Compact imports Store_Core begin

text \<open>
  \<open>store/compact.go\<close>: removal of the data of older schema versions, of unversioned data and of
  empty directories.
\<close>

subsection \<open>Old and unversioned data\<close>

text \<open>\<open>FindStringSubmatch\<close> of the expression \<open>^/hm/v(\d+)$\<close>.\<close>

definition match_version :: "string \<Rightarrow> string option" where
  "match_version key =
     (let digits = drop (length ''/hm/v'') key in
      if prefix ''/hm/v'' key \<and> digits \<noteq> [] \<and> list_all is_digit digits then Some digits else None)"

definition is_obsolete :: "RealStore \<Rightarrow> string \<Rightarrow> bool" where
  "is_obsolete store key =
     (if prefix ''/hm/locks'' key then False
      else case match_version key of
             Some digits \<Rightarrow>
               (case atoi digits of
                  None \<Rightarrow> True
                | Some schemaVersion \<Rightarrow> schemaVersion < StoreSchemaVersion (st_config store))
           | None \<Rightarrow> True)"

definition deleteOldSchemaVersionsAndUnversionedData ::
    "'w externals \<Rightarrow> RealStore \<Rightarrow> 'w \<Rightarrow> hm_error option \<times> 'w" where
  "deleteOldSchemaVersionsAndUnversionedData ex store w =
     (case ad_ListRecursively ex ''/hm'' w of
        (Inl err, w') \<Rightarrow> (Some (StoreError err), w')
      | (Inr everything, w') \<Rightarrow> store_result (ad_Delete ex
          (filter (is_obsolete store) (map sn_Key (sn_ChildNodes everything))) w'))"

subsection \<open>Empty directories\<close>

text \<open>Every child is visited, whatever the others answer; errors of \<open>Delete\<close> are ignored.\<close>

fun deleteEmptyDirectoriesUnder :: "'w externals \<Rightarrow> store_node \<Rightarrow> 'w \<Rightarrow> bool \<times> 'w"
  and delete_children :: "'w externals \<Rightarrow> store_node list \<Rightarrow> bool \<Rightarrow> 'w \<Rightarrow> bool \<times> 'w" where
  "deleteEmptyDirectoriesUnder ex (StoreNode key v ttl dir children) w =
     (if dir
      then (if length children = 0 then (True, snd (ad_Delete ex [key] w))
            else let (deletedAll, w') = delete_children ex children True w
                 in if deletedAll then (True, snd (ad_Delete ex [key] w')) else (False, w'))
      else (False, w))"
| "delete_children ex [] deletedAll w = (deletedAll, w)"
| "delete_children ex (child # children) deletedAll w =
     (let (deleted, w') = deleteEmptyDirectoriesUnder ex child w
      in delete_children ex children (deleted \<and> deletedAll) w')"

definition deleteEmptyDirectories :: "'w externals \<Rightarrow> RealStore \<Rightarrow> 'w \<Rightarrow> hm_error option \<times> 'w" where
  "deleteEmptyDirectories ex store w =
     (case ad_ListRecursively ex (SchemaRoot store @ ''/'') w of
        (Inl err, w') \<Rightarrow> (Some (StoreError err), w')
      | (Inr node, w') \<Rightarrow> (None, snd (deleteEmptyDirectoriesUnder ex node w')))"

definition Compact :: "'w externals \<Rightarrow> RealStore \<Rightarrow> 'w \<Rightarrow> hm_error option \<times> 'w" where
  "Compact ex store w =
     (case deleteOldSchemaVersionsAndUnversionedData ex store w of
        (Some err, w1) \<Rightarrow> (Some err, w1)
      | (None, w1) \<Rightarrow> deleteEmptyDirectories ex store w1)"

subsection \<open>No file of the current schema is lost\<close>

fun no_files :: "store_node \<Rightarrow> bool" where
  "no_files (StoreNode key v ttl dir children) \<longleftrightarrow> dir \<and> (\<forall>c\<in>set children. no_files c)"

fun subnodes :: "store_node \<Rightarrow> store_node list" where
  "subnodes (StoreNode key v ttl dir children) =
     StoreNode key v ttl dir children # concat (map subnodes children)"

text \<open>In a tree every entry lies in directories.\<close>

definition tree_ok :: "(string \<Rightarrow> entry option) \<Rightarrow> bool" where
  "tree_ok es \<longleftrightarrow> (\<forall>d k. d \<noteq> [] \<longrightarrow> below d k \<longrightarrow> es k \<noteq> None \<longrightarrow> es d = Some Directory)"

lemma delete_empty_result:
  "fst (deleteEmptyDirectoriesUnder ex n w) = no_files n"
  "fst (delete_children ex ns b w) = ((\<forall>n\<in>set ns. no_files n) \<and> b)"
  by (induction ex n w and ex ns b w rule: deleteEmptyDirectoriesUnder_delete_children.induct)
    (auto simp: Let_def split: prod.splits)

lemma first_component:
  assumes "below d k"
  obtains c where "child_of d c" and "k = c \<or> below c k"
proof -
  obtain x where x: "k = d @ ''/'' @ x" using assms by (auto simp: below_def prefix_def)
  show thesis
  proof (cases "CHR ''/'' \<in> set x")
    case False
    then have "child_of d k" by (simp add: x proper_key_def)
    with that show thesis by blast
  next
    case True
    then obtain c y where c: "x = c @ CHR ''/'' # y" "CHR ''/'' \<notin> set c" by (meson split_list_first)
    then have k: "k = (d @ CHR ''/'' # c) @ CHR ''/'' # y" and child: "child_of d (d @ CHR ''/'' # c)"
      by (simp_all add: x proper_key_def)
    have "below (d @ CHR ''/'' # c) k" unfolding k by (rule below_simps)
    with child show thesis by (intro that [of "d @ CHR ''/'' # c"]) simp_all
  qed
qed

lemma no_files_below:
  assumes "tree_ok es" and "sn_Key n \<noteq> []"
  shows "listing_ok es n \<Longrightarrow> no_files n \<Longrightarrow> k = sn_Key n \<or> below (sn_Key n) k \<Longrightarrow> es k \<noteq> Some (File v)"
  using assms(2)
proof (induction n)
  case (StoreNode key val ttl dir children)
  then have dir: dir and here: "es key = Some Directory" by (auto split: if_splits)
  have kids: "sn_Key ` set children = {k'. child_of key k' \<and> es k' \<noteq> None}"
    "\<forall>c\<in>set children. listing_ok es c" using StoreNode.prems(1) dir by simp_all
  show ?case
  proof
    assume is_file: "es k = Some (File v)"
    then have "below key k" using StoreNode.prems(3) here by auto
    then obtain c where c: "child_of key c" "k = c \<or> below c k" by (rule first_component)
    then have "c \<noteq> []" by (auto simp: child_of_def below_def)
    then have "es c \<noteq> None"
      using c(2) is_file assms(1) [unfolded tree_ok_def, rule_format, of c k] by auto
    then have "c \<in> sn_Key ` set children" unfolding kids(1) using c(1) by simp
    then obtain m where m: "m \<in> set children" "sn_Key m = c" by (metis imageE)
    have "es k \<noteq> Some (File v)"
      using StoreNode.IH [OF m(1)] kids(2) m c(2) StoreNode.prems(2) \<open>c \<noteq> []\<close> by simp
    then show False using is_file by simp
  qed
qed

context kv_adapter begin

lemma delete_shrinks:
  assumes "ad_Delete ex ks w = (r, w')"
  shows "entries w' k = entries w k \<or> (entries w' k = None \<and> (\<exists>d\<in>set ks. k = d \<or> below d k))"
  using assms delete_ok [of ks w w' k] delete_error [of ks w _ w' k] by (cases r) (auto split: if_splits)

text \<open>Deleting empty directories touches only entries at or below a directory without files.\<close>

lemma delete_empty_frame:
  "(\<forall>m\<in>set (subnodes n). no_files m \<longrightarrow> k \<noteq> sn_Key m \<and> \<not> below (sn_Key m) k) \<Longrightarrow>
     entries (snd (deleteEmptyDirectoriesUnder ex n w)) k = entries w k"
proof (induction n arbitrary: w)
  case (StoreNode key v ttl dir children)
  let ?n = "StoreNode key v ttl dir children"
  have untouched: "entries (snd (ad_Delete ex [key] u)) k = entries u k" if "no_files ?n" for u
    using that StoreNode.prems
      delete_shrinks [of "[key]" u "fst (ad_Delete ex [key] u)" "snd (ad_Delete ex [key] u)" k]
    by auto
  have kids: "entries (snd (delete_children ex cs b u)) k = entries u k" if "set cs \<subseteq> set children" for cs b u
    using that
  proof (induction cs arbitrary: b u)
    case (Cons c cs)
    have "entries (snd (deleteEmptyDirectoriesUnder ex c u)) k = entries u k"
      using Cons.prems StoreNode.prems by (intro StoreNode.IH) auto
    then show ?case using Cons by (simp add: split_beta)
  qed simp
  show ?case
    using untouched kids [of children] delete_empty_result(2) [of ex children True w]
    by (auto simp: split_beta Let_def split: if_splits)
qed

end

lemma listing_subnode:
  "listing_ok es n \<Longrightarrow> m \<in> set (subnodes n) \<Longrightarrow>
     listing_ok es m \<and> (sn_Key m = sn_Key n \<or> below (sn_Key n) (sn_Key m))"
proof (induction n)
  case (StoreNode key v ttl dir children)
  show ?case
  proof (cases "m = StoreNode key v ttl dir children")
    case False
    then obtain c where c: "c \<in> set children" "m \<in> set (subnodes c)" using StoreNode.prems(2) by auto
    then have dir: dir using StoreNode.prems(1) by (auto split: if_splits)
    then have "sn_Key c \<in> {k'. child_of key k' \<and> es k' \<noteq> None}" "listing_ok es c"
      using StoreNode.prems(1) c(1) by (auto simp del: mem_Collect_eq)
    then show ?thesis
      using StoreNode.IH [OF c(1) _ c(2)] by (auto simp: child_of_def dest: below_trans)
  qed (use StoreNode.prems in simp)
qed

context kv_adapter begin

lemma deleteEmptyDirectories_files:
  assumes "tree_ok (entries w)" and "deleteEmptyDirectories ex store w = (r, w')"
    and "entries w k = Some (File v)"
  shows "entries w' k = Some (File v)"
proof (cases "ad_ListRecursively ex (SchemaRoot store @ ''/'') w")
  case (Pair res w1)
  then have w1: "w1 = w" by (rule list_pure)
  show ?thesis
  proof (cases res)
    case (Inl e)
    then show ?thesis using assms Pair w1 by (simp add: deleteEmptyDirectories_def)
  next
    case (Inr n)
    have n: "sn_Key n = SchemaRoot store" "listing_ok (entries w) n"
      using list_ok [OF Pair [unfolded Inr]] by simp_all
    have "entries (snd (deleteEmptyDirectoriesUnder ex n w)) k = entries w k"
    proof (rule delete_empty_frame, intro ballI impI)
      fix m assume m: "m \<in> set (subnodes n)" "no_files m"
      have "sn_Key m \<noteq> []"
        using listing_subnode [OF n(2) m(1)] n(1) by (auto simp: SchemaRoot_def below_def prefix_def)
      then show "k \<noteq> sn_Key m \<and> \<not> below (sn_Key m) k"
        using no_files_below [OF assms(1), of m k v] listing_subnode [OF n(2) m(1)] m(2) assms(3) by blast
    qed
    then show ?thesis using assms(2,3) Pair Inr w1 by (auto simp: deleteEmptyDirectories_def)
  qed
qed

end

subsection \<open>Exactly the obsolete data goes\<close>

text \<open>The obsolete children of \<open>/hm\<close> with everything below them.\<close>

definition obsolete_at :: "RealStore \<Rightarrow> string \<Rightarrow> bool" where
  "obsolete_at store k \<longleftrightarrow> (\<exists>d. child_of ''/hm'' d \<and> is_obsolete store d \<and> (k = d \<or> below d k))"

lemma obsolete_at_below: "obsolete_at store d \<Longrightarrow> below d k \<Longrightarrow> obsolete_at store k"
  unfolding obsolete_at_def using below_trans by blast

lemma tree_ok_without_obsolete:
  "tree_ok es \<Longrightarrow> tree_ok (\<lambda>k. if obsolete_at store k then None else es k)"
  unfolding tree_ok_def using obsolete_at_below by metis

lemma SchemaRoot_current:
  assumes "0 \<le> StoreSchemaVersion (st_config store)" and "in_int64 (StoreSchemaVersion (st_config store))"
  shows "\<not> is_obsolete store (SchemaRoot store)"
proof -
  have digits: "itoa (StoreSchemaVersion (st_config store)) \<noteq> []"
      "list_all is_digit (itoa (StoreSchemaVersion (st_config store)))"
    using assms(1) by (auto simp: itoa_def list_all_iff dest: digits_of_digits)
  then have "match_version (SchemaRoot store) = Some (itoa (StoreSchemaVersion (st_config store)))"
    by (simp add: match_version_def SchemaRoot_def Let_def)
  then show ?thesis using assms(2) by (simp add: is_obsolete_def SchemaRoot_def)
qed

context kv_adapter begin

lemma deleteOld_entries:
  assumes "tree_ok (entries w)" and "deleteOldSchemaVersionsAndUnversionedData ex store w = (None, w')"
  shows "entries w' = (\<lambda>k. if obsolete_at store k then None else entries w k)"
proof (cases "ad_ListRecursively ex ''/hm'' w")
  case (Pair res w1)
  then have w1: "w1 = w" by (rule list_pure)
  obtain n where res: "res = Inr n"
    using assms(2) Pair by (cases res) (auto simp: deleteOldSchemaVersionsAndUnversionedData_def)
  let ?ks = "filter (is_obsolete store) (map sn_Key (sn_ChildNodes n))"
  have n: "sn_Key n = ''/hm''" "sn_Dir n" "listing_ok (entries w) n"
    using list_ok [OF Pair [unfolded res]] by (simp_all add: clean_key_def)
  have del: "ad_Delete ex ?ks w = (None, w')"
    using assms(2) Pair res w1 by (auto simp: deleteOldSchemaVersionsAndUnversionedData_def)
  have ks: "set ?ks = {d. child_of ''/hm'' d \<and> entries w d \<noteq> None \<and> is_obsolete store d}"
    using listing_children(2) [OF n(3,2)] n(1) by auto
  show ?thesis
  proof
    fix k
    have "entries w k = None" if obs: "obsolete_at store k" and out: "\<not> (\<exists>d\<in>set ?ks. k = d \<or> below d k)"
    proof (rule ccontr)
      assume k: "entries w k \<noteq> None"
      obtain d where d: "child_of ''/hm'' d" "is_obsolete store d" "k = d \<or> below d k"
        using obs unfolding obsolete_at_def by blast
      then have "d \<noteq> []" by (auto simp: child_of_iff)
      then have "entries w d \<noteq> None"
        using d(3) k assms(1) [unfolded tree_ok_def, rule_format, of d k] by auto
      then show False using out d unfolding ks by blast
    qed
    moreover have "obsolete_at store k" if "\<exists>d\<in>set ?ks. k = d \<or> below d k"
      using that unfolding ks obsolete_at_def by blast
    ultimately show "entries w' k = (if obsolete_at store k then None else entries w k)"
      using delete_ok [OF del, of k] by auto
  qed
qed

lemma delete_empty_shrinks:
  "entries w k = None \<Longrightarrow> entries (snd (deleteEmptyDirectoriesUnder ex n w)) k = None"
proof (induction n arbitrary: w)
  case (StoreNode key v ttl dir children)
  have del: "entries (snd (ad_Delete ex [key] u)) k = None" if "entries u k = None" for u
    using that delete_shrinks [of "[key]" u "fst (ad_Delete ex [key] u)" "snd (ad_Delete ex [key] u)" k]
    by auto
  have kids: "entries (snd (delete_children ex cs b u)) k = None"
    if "set cs \<subseteq> set children" "entries u k = None" for cs b u
    using that
  proof (induction cs arbitrary: b u)
    case (Cons c cs)
    have "entries (snd (deleteEmptyDirectoriesUnder ex c u)) k = None"
      using Cons.prems by (intro StoreNode.IH) auto
    then show ?case using Cons by (simp add: split_beta)
  qed simp
  show ?case using StoreNode.prems del kids [of children] by (auto simp: split_beta Let_def)
qed

lemma Compact_entries:
  assumes "tree_ok (entries w)" and "Compact ex store w = (None, w')"
  shows "obsolete_at store k \<Longrightarrow> entries w' k = None"
    and "entries w k = Some (File v) \<Longrightarrow> \<not> obsolete_at store k \<Longrightarrow> entries w' k = Some (File v)"
proof -
  obtain w1 where w1: "deleteOldSchemaVersionsAndUnversionedData ex store w = (None, w1)"
      "deleteEmptyDirectories ex store w1 = (None, w')"
    using assms(2) by (auto simp: Compact_def split: prod.splits option.splits)
  note e1 = deleteOld_entries [OF assms(1) w1(1)]
  have tree: "tree_ok (entries w1)" unfolding e1 by (rule tree_ok_without_obsolete [OF assms(1)])
  show "entries w' k = None" if "obsolete_at store k"
  proof (cases "ad_ListRecursively ex (SchemaRoot store @ ''/'') w1")
    case (Pair res w2)
    then have "w2 = w1" by (rule list_pure)
    moreover have "entries w1 k = None" using that e1 by simp
    ultimately show ?thesis
      using w1(2) Pair delete_empty_shrinks [of w1 k]
      by (auto simp: deleteEmptyDirectories_def split: sum.splits)
  qed
  show "entries w' k = Some (File v)" if "entries w k = Some (File v)" "\<not> obsolete_at store k"
    using deleteEmptyDirectories_files [OF tree w1(2)] that e1 by simp
qed

end

end
