(* ===== verification/Store_Properties.thy ===== *)
theory Store_Properties imports Store_Actual_Facts Store_Apps Store_Freshness Store_Compact Samples begin

text \<open>
  The properties of the store client: round trips of the pending messages, the freshness of the
  actual state, the synchronisation of heartbeats, the apps put together from them, and what a
  compaction removes.
\<close>

subsection \<open>Pending messages\<close>

definition sample_saved :: memory where
  "sample_saved = snd (SavePendingStartMessages mem_externals sample_store [sample_start 0 60] empty_memory)"

lemma start_dir_proper: "proper_dir (SchemaRoot store @ ''/start'')"
  by (simp add: proper_dir_def)

text \<open>
  Over any adapter that meets its contract: after start messages with proper keys were saved
  without an error, reading them back fails only if the adapter does, changes nothing, and otherwise
  gives exactly what was there before, overridden by the saved messages.
\<close>

theorem saved_starts_are_read:
  assumes "kv_adapter ex entries"
    and "values_ok PendingStartMessage_StoreKey NewPendingStartMessageFromJSON (SchemaRoot store @ ''/start'') (entries w)"
    and "\<forall>m\<in>set ms. proper_key (PendingStartMessage_StoreKey m) \<and> start_message_ok m"
    and "distinct (map PendingStartMessage_StoreKey ms)"
    and "SavePendingStartMessages ex store ms w = (None, w1)"
    and "GetPendingStartMessages ex store w1 = (r, w2)"
  shows "w2 = w1 \<and> (case r of
      Inl e \<Rightarrow> \<exists>se. e = StoreError se
    | Inr m \<Rightarrow> map_of m = stored NewPendingStartMessageFromJSON (SchemaRoot store @ ''/start'') (entries w)
                 ++ map_of (map (\<lambda>m. (PendingStartMessage_StoreKey m, m)) ms))"
proof -
  note ms = start_message_store [OF assms(1)]
  have keys: "message_store.message_keys_ok PendingStartMessage_StoreKey start_message_ok ms"
    using assms(3,4) by (simp add: message_store.message_keys_ok_def [OF ms])
  note saved = assms(5) [unfolded SavePendingStartMessages_def]
  show ?thesis
    using message_store.get_stored [OF ms message_store.save_values_ok [OF ms saved keys assms(2)] start_dir_proper
        assms(6) [unfolded GetPendingStartMessages_def]]
      message_store.save_stored [OF ms saved keys] by (simp split: sum.split_asm sum.split)
qed

theorem saved_starts_are_read_witness:
  "case fst (GetPendingStartMessages mem_externals sample_store sample_saved) of
     Inl e \<Rightarrow> \<exists>se. e = StoreError se
   | Inr m \<Rightarrow> map_of m ''app-v1-0'' = Some (sample_start 0 60)"
proof -
  have "fst (SavePendingStartMessages mem_externals sample_store [sample_start 0 60] empty_memory) = None"
    by code_simp
  then have save: "SavePendingStartMessages mem_externals sample_store [sample_start 0 60] empty_memory = (None, sample_saved)"
    by (simp add: sample_saved_def prod_eq_iff)
  have empty: "mem_view empty_memory = (\<lambda>_. None)" by (simp add: mem_view_def empty_memory_def fun_eq_iff)
  have "values_ok PendingStartMessage_StoreKey NewPendingStartMessageFromJSON
      (SchemaRoot sample_store @ ''/start'') (mem_view empty_memory)"
    by (simp add: values_ok_def empty)
  from saved_starts_are_read [OF memory.kv_adapter_axioms this _ _ save surjective_pairing]
  show ?thesis by (simp add: sample_messages_ok proper_key_def split: sum.split_asm sum.split)
qed

subsection \<open>Freshness\<close>

text \<open>
  The actual state is fresh from \<open>ActualFreshnessTTL\<close> seconds after the first bump on: as long
  as the key does not expire, later bumps do not move that time.
\<close>

theorem fresh_since_first_bump:
  assumes "kv_adapter ex entries" and "config_sane (st_config store)"
    and "entries w (freshness_key store) = None" and "BumpActualFreshness ex store t w = (None, w1)"
    and "(bump_again ex store)\<^sup>*\<^sup>* w1 w2" and "in_int64 (Unix t)"
    and "IsActualStateFresh ex store now w2 = (Inr b, w3)"
  shows "b \<longleftrightarrow> uint (ActualFreshnessTTLInHeartbeats (st_config store)) * uint (HeartbeatPeriod (st_config store))
       \<le> Unix now - Unix t"
proof -
  have "entries w2 (freshness_key store) = Some (File (FreshnessTimestamp_ToJSON \<lparr>Timestamp = Unix t\<rparr>))"
    using kv_adapter.bumps_keep [OF assms(1,5)] kv_adapter.bump_first [OF assms(1,4,3)] by simp
  from kv_adapter.fresh_answer [OF assms(1) this assms(6,7)] show ?thesis
    by (simp add: fresh_seconds [OF assms(2)])
qed

definition bumped_twice :: memory where
  "bumped_twice = snd (BumpActualFreshness mem_externals sample_store (time_Unix 20) fresh_memory)"

theorem fresh_since_first_bump_witness:
  "IsActualStateFresh mem_externals sample_store (time_Unix 29) bumped_twice = (Inr False, bumped_twice)"
proof -
  have first: "BumpActualFreshness mem_externals sample_store 0 empty_memory = (None, fresh_memory)"
    by (simp add: fresh_memory_def prod_eq_iff) code_simp
  have get: "ad_Get mem_externals (freshness_key sample_store) fresh_memory =
      (Inr (leaf_node (freshness_key sample_store) (FreshnessTimestamp_ToJSON \<lparr>Timestamp = 0\<rparr>) 0), fresh_memory)"
    by code_simp
  have second: "BumpActualFreshness mem_externals sample_store (time_Unix 20) fresh_memory = (None, bumped_twice)"
    by (simp add: bumped_twice_def prod_eq_iff) code_simp
  have again: "(bump_again mem_externals sample_store)\<^sup>*\<^sup>* fresh_memory bumped_twice"
    by (rule r_into_rtranclp, rule bump_again.intros [OF get second])
  obtain b w3 where answer: "IsActualStateFresh mem_externals sample_store (time_Unix 29) bumped_twice = (Inr b, w3)"
      "w3 = bumped_twice"
  proof -
    have "IsActualStateFresh mem_externals sample_store (time_Unix 29) bumped_twice = (Inr False, bumped_twice)"
      by code_simp
    then show thesis using that by blast
  qed
  have "b \<longleftrightarrow> uint (ActualFreshnessTTLInHeartbeats (st_config sample_store)) * uint (HeartbeatPeriod (st_config sample_store))
       \<le> Unix (time_Unix 29) - Unix 0"
  proof (rule fresh_since_first_bump [OF memory.kv_adapter_axioms _ _ first again _ answer(1)])
    show "config_sane (st_config sample_store)" by (simp add: sample_store_def NewStore_def defaults_sane)
    show "mem_view empty_memory (freshness_key sample_store) = None" by (simp add: mem_view_def empty_memory_def)
  qed (simp add: in_int64_def Unix_def second_def)
  then have "\<not> b" by (simp add: sample_store_def NewStore_def defaults_def Unix_def second_def time_Unix_def)
  then show ?thesis using answer by simp
qed

text \<open>
  Once the freshness was revoked without an error, no reading of the store calls the actual
  state fresh.
\<close>

theorem revoked_is_not_fresh:
  assumes "kv_adapter ex entries" and "RevokeActualFreshness ex store w = (None, w1)"
    and "VerifyFreshness ex store now w1 = (r, w2)"
  shows "r \<noteq> None \<and> w2 = w1"
proof -
  obtain f w3 where f: "IsActualStateFresh ex store now w1 = (f, w3)" by fastforce
  have "w3 = w1"
    using kv_adapter.get_pure [OF assms(1)] f
    by (auto simp: IsActualStateFresh_def split: sum.splits prod.splits store_error.splits option.splits)
  moreover have "\<not> b" if "f = Inr b" for b
    using kv_adapter.revoked_not_fresh [OF assms(1,2) f [unfolded that]] .
  ultimately show ?thesis
    using assms(3) f by (cases f) (auto simp: VerifyFreshness_def)
qed

theorem revoked_is_not_fresh_witness:
  "fst (VerifyFreshness mem_externals sample_store (time_Unix 1000)
     (snd (RevokeActualFreshness mem_externals sample_store fresh_memory))) \<noteq> None"
proof -
  have "fst (RevokeActualFreshness mem_externals sample_store fresh_memory) = None" by code_simp
  then have "RevokeActualFreshness mem_externals sample_store fresh_memory =
      (None, snd (RevokeActualFreshness mem_externals sample_store fresh_memory))" by (metis prod.collapse)
  from revoked_is_not_fresh [OF memory.kv_adapter_axioms this surjective_pairing] show ?thesis by simp
qed

subsection \<open>Heartbeats\<close>

lemma reports_ok_perm: "mset hbs = mset hbs' \<Longrightarrow> reports_ok c hbs = reports_ok c hbs'"
proof -
  assume perm: "mset hbs = mset hbs'"
  then have set: "set hbs = set hbs'" by (rule mset_eq_setD)
  have "mset (map DeaGuid hbs) = mset (map DeaGuid hbs')" using perm by simp
  then have dist: "distinct (map DeaGuid hbs) = distinct (map DeaGuid hbs')" by (rule mset_eq_imp_distinct_iff)
  have "mset (concat (map report_guids hbs)) = mset (concat (map report_guids hbs'))"
    using perm by (simp only: mset_concat mset_map sum_mset_sum_list [symmetric] multiset.map_comp map_map)
  then have "distinct (concat (map report_guids hbs)) = distinct (concat (map report_guids hbs'))"
    by (rule mset_eq_imp_distinct_iff)
  then show ?thesis using set dist by (simp add: reports_ok_def)
qed

definition latest :: "Heartbeat list \<Rightarrow> Heartbeat list" where
  "latest incoming = map snd (latestHeartbeats incoming)"

lemma processed_latest:
  "set (processed ch incoming) = set (latest incoming)"
  "reports_ok c (processed ch incoming) = reports_ok c (latest incoming)"
  by (simp add: processed_def latest_def)
    (rule reports_ok_perm, simp only: processed_def latest_def mset_map_go_range)

lemma processed_deas: "DeaGuid ` set (processed ch incoming) = DeaGuid ` set incoming"
proof -
  have "gomap_ok (fold (\<lambda>h. mput (DeaGuid h) h) hs m)" if "gomap_ok m" for hs :: "Heartbeat list" and m
    using that by (induction hs arbitrary: m) auto
  then have ok: "gomap_ok (latestHeartbeats incoming)" by (simp add: latestHeartbeats_def)
  have "DeaGuid (snd p) = fst p" if "p \<in> set (latestHeartbeats incoming)" for p
    using latestHeartbeats_mem [of incoming "fst p" "snd p"] ok that by (simp add: gomap_ok_def)
  then have "DeaGuid ` set (processed ch incoming) = fst ` set (latestHeartbeats incoming)"
    by (force simp: processed_def)
  then show ?thesis by (simp add: latestHeartbeats_keys)
qed

text \<open>The caches after a call, whatever the store answers.\<close>

lemma SyncHeartbeats_state:
  assumes "loadCache ex now store w = (None, store1, w1)"
    and "SyncHeartbeats ex now ch incoming store w = (r, store', w')"
  shows "store' = sy_store (fold (sync_heartbeat ch) (processed ch incoming) (start_sync store1))"
  using assms
  by (auto simp: SyncHeartbeats_def sync_caches_processed start_sync_def Let_def
      split: prod.splits option.splits store_error.splits)

text \<open>
  C13. Syncing brings the cache in line with the reports, whatever order the map is visited in and
  whatever the store answers: an instance that its DEA's latest heartbeat reports is cached as
  reported, unless it was already cached in the same state; an instance that is not reported is
  forgotten if its DEA sent a heartbeat and kept otherwise. The two caches stay consistent.
\<close>

theorem SyncHeartbeats_cache:
  assumes "loadCache ex now store w = (None, store1, w1)" and "cache_ok store1"
    and "reports_ok (cached store1) (latest incoming)"
    and "SyncHeartbeats ex now ch incoming store w = (r, store', w')"
  shows "cache_ok store'
    \<and> (\<forall>hb\<in>set (latest incoming). \<forall>i\<in>set (InstanceHeartbeats hb). cached store' (hb_InstanceGuid i) =
         (if same_state (cached store1) i then cached store1 (hb_InstanceGuid i) else Some i))
    \<and> (\<forall>g. (\<forall>hb\<in>set (latest incoming). g \<notin> set (report_guids hb)) \<longrightarrow> cached store' g =
         (case cached store1 g of None \<Rightarrow> None
          | Some h \<Rightarrow> if hb_DeaGuid h \<in> DeaGuid ` set incoming then None else Some h))"
proof -
  let ?hbs = "processed ch incoming"
  have ok: "reports_ok (cached store1) ?hbs" using assms(3) by (simp add: processed_latest)
  note state = SyncHeartbeats_state [OF assms(1,4)]
  note cache = fold_sync_cached [of "start_sync store1" ?hbs ch, unfolded start_sync_simps, OF assms(2) ok,
      folded state]
  have "cached store' (hb_InstanceGuid i) =
      (if same_state (cached store1) i then cached store1 (hb_InstanceGuid i) else Some i)"
    if "hb \<in> set ?hbs" "i \<in> set (InstanceHeartbeats hb)" for hb i
  proof -
    have "reported hb (hb_InstanceGuid i) = Some i"
      using ok that by (intro reported_unique) (auto simp: reports_ok_def)
    then show ?thesis using fold_report_in [OF ok that(1)] cache by simp
  qed
  moreover have "cached store' g = (case cached store1 g of None \<Rightarrow> None
      | Some h \<Rightarrow> if hb_DeaGuid h \<in> DeaGuid ` set incoming then None else Some h)"
    if "\<forall>hb\<in>set ?hbs. g \<notin> set (report_guids hb)" for g
    using fold_report_out [of ?hbs g "cached store1"] that cache
    by (simp add: not_reported processed_deas split: option.split)
  ultimately show ?thesis using cache by (simp add: processed_latest)
qed

definition sample_report :: Heartbeat where
  "sample_report = \<lparr>DeaGuid = ''dea'', InstanceHeartbeats = [sample_heartbeat ''a'' 0 InstanceStateRunning]\<rparr>"

definition loaded_store :: RealStore where
  "loaded_store = sample_store\<lparr>instanceHeartbeatCacheTimestamp := time_Unix 1000\<rparr>"

definition sample_sync :: "memory \<Rightarrow> (InstanceHeartbeat list \<times> hm_error option) \<times> RealStore \<times> memory" where
  "sample_sync w = SyncHeartbeats mem_externals (time_Unix 1000) (\<lambda>_. 0) [sample_report] sample_store w"

lemma sample_sync_facts:
  "loadCache mem_externals (time_Unix 1000) sample_store empty_memory = (None, loaded_store, empty_memory)"
  "cache_ok loaded_store" "reports_ok (cached loaded_store) (latest [sample_report])"
  "latest [sample_report] = [sample_report]" "mirrors loaded_store es"
proof -
  show "latest [sample_report] = [sample_report]"
    by (simp add: latest_def latestHeartbeats_def mput_def)
  then show "reports_ok (cached loaded_store) (latest [sample_report])"
    by (simp add: reports_ok_def report_ok_def report_guids_def sample_report_def sample_heartbeat_def
        loaded_store_def sample_store_def NewStore_def)
  show "cache_ok loaded_store" "mirrors loaded_store es"
    by (simp_all add: cache_ok_def mirrors_def loaded_store_def sample_store_def NewStore_def dea_instances_def)
  show "loadCache mem_externals (time_Unix 1000) sample_store empty_memory = (None, loaded_store, empty_memory)"
    by (simp add: loadCache_def GetInstanceHeartbeats_def mem_externals_def mem_list_def empty_memory_def
        loaded_store_def sample_store_def NewStore_def zero_time_def time_Unix_def second_def time_Sub_def
        StoreHeartbeatCacheRefreshInterval_def defaults_def dur_mult_def wrap64_def millisecond_def)
qed

lemma sample_sync_run:
  "SyncHeartbeats mem_externals (time_Unix 1000) (\<lambda>_. 0) [sample_report] sample_store w =
     (fst (sample_sync w), fst (snd (sample_sync w)), snd (snd (sample_sync w)))"
  by (simp add: sample_sync_def)

theorem SyncHeartbeats_cache_witness:
  "cached (fst (snd (sample_sync empty_memory))) ''a'' = Some (sample_heartbeat ''a'' 0 InstanceStateRunning)"
proof -
  have "\<not> same_state (cached loaded_store) (sample_heartbeat ''a'' 0 InstanceStateRunning)"
    by (simp add: same_state_def loaded_store_def sample_store_def NewStore_def)
  then show ?thesis
    using SyncHeartbeats_cache [OF sample_sync_facts(1-3) sample_sync_run] unfolding sample_sync_facts(4)
    by (auto simp: sample_report_def sample_heartbeat_def)
qed

text \<open>
  C12. While the store mirrors the cache, a call that reports no error makes it mirror the new cache:
  every cached instance has its CSV line under its key, also the ones that did not change.
\<close>

theorem SyncHeartbeats_mirrors:
  assumes "kv_adapter ex entries" and "loadCache ex now store w = (None, store1, w1)" and "cache_ok store1"
    and "reports_ok (cached store1) (latest incoming)"
    and "\<forall>hb\<in>set (latest incoming). \<forall>i\<in>set (InstanceHeartbeats hb). proper_heartbeat i"
    and "mirrors store1 (entries w1)"
    and "SyncHeartbeats ex now ch incoming store w = ((evac, None), store', w')"
  shows "mirrors store' (entries w')"
proof -
  let ?s = "fold (sync_heartbeat ch) (processed ch incoming) (start_sync store1)"
  obtain w2 r where set: "ad_SetMulti ex (sy_nodes ?s) w1 = (None, w2)"
    and del: "ad_Delete ex (sy_keys ?s) w2 = (r, w')"
    using assms(2,7)
    by (auto simp: SyncHeartbeats_def sync_caches_processed start_sync_def Let_def
        split: prod.splits option.splits store_error.splits)
  show ?thesis
    unfolding SyncHeartbeats_state [OF assms(2,7)]
    by (rule kv_adapter.sync_mirrors [OF assms(1,3) _ assms(6) _ refl set del])
      (use assms(4,5) in \<open>simp_all add: processed_latest\<close>)
qed

theorem SyncHeartbeats_mirrors_witness:
  "mem_view (snd (snd (sample_sync empty_memory))) ''/hm/v0/apps/actual/app,v1/a'' =
     Some (File (Raw (InstanceHeartbeat_ToCSV (sample_heartbeat ''a'' 0 InstanceStateRunning))))"
proof -
  have "snd (fst (sample_sync empty_memory)) = None" by code_simp
  then have run: "SyncHeartbeats mem_externals (time_Unix 1000) (\<lambda>_. 0) [sample_report] sample_store empty_memory =
      ((fst (fst (sample_sync empty_memory)), None), fst (snd (sample_sync empty_memory)), snd (snd (sample_sync empty_memory)))"
    by (simp add: sample_sync_def prod_eq_iff)
  have cached: "cached (fst (snd (sample_sync empty_memory))) ''a'' = Some (sample_heartbeat ''a'' 0 InstanceStateRunning)"
    by code_simp
  have key: "heartbeat_key (fst (snd (sample_sync empty_memory))) (sample_heartbeat ''a'' 0 InstanceStateRunning) =
      ''/hm/v0/apps/actual/app,v1/a''" by code_simp
  have "mirrors (fst (snd (sample_sync empty_memory))) (mem_view (snd (snd (sample_sync empty_memory))))"
    by (rule SyncHeartbeats_mirrors [OF memory.kv_adapter_axioms sample_sync_facts(1-3) _ sample_sync_facts(5) run])
      (simp add: sample_sync_facts(4), simp add: sample_report_def sample_heartbeat_def proper_heartbeat_def proper_key_def)
  then show ?thesis unfolding key [symmetric] using cached unfolding mirrors_def by blast
qed

text \<open>
  C28. When the write of a call fails, the caches have already taken the reports in: calling it again
  with the same reports finds every instance unchanged and writes nothing but the presence of the
  DEAs, so the heartbeats whose write failed stay out of the store until the cache is loaded anew.
\<close>

theorem failed_write_is_not_repeated:
  assumes "loadCache ex now store w = (None, store1, w1)" and "cache_ok store1"
    and "reports_ok (cached store1) (latest incoming)"
    and "SyncHeartbeats ex now ch incoming store w = ((evac, Some err), store', w')"
    and "reports_ok (cached store') (latest incoming)"
  shows "set (sy_nodes (sync_caches ch incoming store')) = (\<lambda>hb. deaPresenceNode store' (DeaGuid hb)) ` set (latest incoming)"
proof -
  let ?hbs = "processed ch incoming"
  have ok: "reports_ok (cached store1) ?hbs" "reports_ok (cached store') ?hbs"
    using assms(3,5) by (simp_all add: processed_latest)
  note cache = fold_sync_cached [of "start_sync store1" ?hbs ch, unfolded start_sync_simps, OF assms(2) ok(1),
      folded SyncHeartbeats_state [OF assms(1,4)]]
  have "same_state (cached store') i" if "hb \<in> set ?hbs" "i \<in> set (InstanceHeartbeats hb)" for hb i
  proof -
    have "reported hb (hb_InstanceGuid i) = Some i"
      using ok(1) that by (intro reported_unique) (auto simp: reports_ok_def)
    then have "cached store' (hb_InstanceGuid i) =
        (if same_state (cached store1) i then cached store1 (hb_InstanceGuid i) else Some i)"
      using fold_report_in [OF ok(1) that(1)] cache by simp
    then show ?thesis by (auto simp: same_state_def split: if_splits)
  qed
  then have "changed (cached store') ?hbs = {}" by (auto simp: changed_def)
  then show ?thesis
    using fold_sync_nodes [of "start_sync store'" ?hbs ch, unfolded start_sync_simps] cache ok(2)
    by (simp add: sync_caches_processed start_sync_def processed_latest)
qed

text \<open>A memory in which the presence key is a directory, so that it cannot be written.\<close>

definition blocked_memory :: memory where
  "blocked_memory = empty_memory\<lparr>mem_entries := [(''/hm/v0/dea-presence/dea'', Directory)]\<rparr>"

theorem failed_write_is_not_repeated_witness:
  "sn_Key ` set (sy_nodes (sync_caches (\<lambda>_. 0) [sample_report] (fst (snd (sample_sync blocked_memory))))) =
     {''/hm/v0/dea-presence/dea''}"
proof -
  obtain err where "snd (fst (sample_sync blocked_memory)) = Some err"
  proof -
    have "snd (fst (sample_sync blocked_memory)) = Some (StoreError (ErrorOther ''directory''))" by code_simp
    then show thesis using that by blast
  qed
  then have run: "SyncHeartbeats mem_externals (time_Unix 1000) (\<lambda>_. 0) [sample_report] sample_store blocked_memory =
      ((fst (fst (sample_sync blocked_memory)), Some err), fst (snd (sample_sync blocked_memory)), snd (snd (sample_sync blocked_memory)))"
    by (simp add: sample_sync_def prod_eq_iff)
  have cached: "map_of (instanceHeartbeatCache (fst (snd (sample_sync blocked_memory)))) ''a'' =
      Some (sample_heartbeat ''a'' 0 InstanceStateRunning)" by code_simp
  have key: "sn_Key (deaPresenceNode (fst (snd (sample_sync blocked_memory))) ''dea'') = ''/hm/v0/dea-presence/dea''"
    by code_simp
  have load: "loadCache mem_externals (time_Unix 1000) sample_store blocked_memory = (None, loaded_store, blocked_memory)"
    by code_simp
  have "reports_ok (cached (fst (snd (sample_sync blocked_memory)))) (latest [sample_report])"
    using cached unfolding sample_sync_facts(4)
    by (simp add: reports_ok_def report_ok_def report_guids_def sample_report_def sample_heartbeat_def)
  from failed_write_is_not_repeated [OF load sample_sync_facts(2,3) run this] show ?thesis
    unfolding sample_sync_facts(4) using key by (simp add: sample_report_def)
qed

subsection \<open>Apps\<close>

text \<open>
  C22. \<open>GetApps\<close> returns exactly one app for every guid and version that some heartbeat names, with
  all heartbeats and crash counts of that guid and version and nothing desired yet; an empty guid or
  version names no app. This holds as long as no two of them share a representation id or a key.
\<close>

theorem GetApps_collects:
  assumes "GetInstanceHeartbeats ex now store w = (Inr hs, store1, w1)"
    and "getCrashCounts ex store1 w1 = (Inr cs, w2)"
    and "ids_distinct (hb_app ` set hs \<union> cc_app ` set cs)"
  shows "\<exists>apps. GetApps ex now ch store w = (Inr apps, store1, w2)
    \<and> (\<forall>h\<in>set hs. hb_AppGuid h \<noteq> [] \<longrightarrow> hb_AppVersion h \<noteq> [] \<longrightarrow>
         map_of apps (AppKey (hb_AppGuid h) (hb_AppVersion h)) = Some (app_of hs cs (hb_AppGuid h) (hb_AppVersion h)))
    \<and> (\<forall>K a. map_of apps K = Some a \<longrightarrow> (\<exists>h\<in>set hs. hb_AppGuid h \<noteq> [] \<and> hb_AppVersion h \<noteq> []
         \<and> K = AppKey (hb_AppGuid h) (hb_AppVersion h) \<and> a = app_of hs cs (hb_AppGuid h) (hb_AppVersion h)))"
  using assms build_apps_app_of [OF assms(3)] build_apps_Some [OF assms(3)] by (simp add: GetApps_def)

definition synced_memory :: memory where "synced_memory = snd (snd (sample_sync empty_memory))"

theorem GetApps_collects_witness:
  "\<exists>apps store1 w2. GetApps mem_externals (time_Unix 1001) (\<lambda>_. 0) sample_store synced_memory = (Inr apps, store1, w2)
     \<and> map_of apps ''app,v1'' \<noteq> None"
proof -
  have "fst (GetInstanceHeartbeats mem_externals (time_Unix 1001) sample_store synced_memory) =
      Inr [sample_heartbeat ''a'' 0 InstanceStateRunning]"
    by code_simp
  then obtain store1 w1 where hs: "GetInstanceHeartbeats mem_externals (time_Unix 1001) sample_store synced_memory =
      (Inr [sample_heartbeat ''a'' 0 InstanceStateRunning], store1, w1)"
    by (metis prod.collapse)
  have "w1 = synced_memory \<and> st_config store1 = st_config sample_store"
  proof -
    have "snd (GetInstanceHeartbeats mem_externals (time_Unix 1001) sample_store synced_memory) =
        (fst (snd (GetInstanceHeartbeats mem_externals (time_Unix 1001) sample_store synced_memory)), synced_memory)"
      by code_simp
    moreover have "st_config (fst (snd (GetInstanceHeartbeats mem_externals (time_Unix 1001) sample_store synced_memory))) =
        st_config sample_store" by code_simp
    ultimately show ?thesis using hs by simp
  qed
  then have cs: "getCrashCounts mem_externals store1 w1 = (Inr [], synced_memory)"
  proof -
    have "getCrashCounts mem_externals sample_store synced_memory = (Inr [], synced_memory)" by code_simp
    moreover have "getCrashCounts mem_externals store1 = getCrashCounts mem_externals sample_store"
      if "st_config store1 = st_config sample_store"
      using that by (simp add: getCrashCounts_def SchemaRoot_def fun_eq_iff)
    ultimately show ?thesis using \<open>w1 = synced_memory \<and> _\<close> by simp
  qed
  have "ids_distinct (hb_app ` set [sample_heartbeat ''a'' 0 InstanceStateRunning] \<union> cc_app ` set [])"
    by (simp add: ids_distinct_def)
  from GetApps_collects [OF hs cs this, of "\<lambda>_. 0"] show ?thesis
    by (auto simp: sample_heartbeat_def AppKey_def)
qed

subsection \<open>Compaction\<close>


text \<open>Both predicates of this theorem, as tests over the ancestors of a key.\<close>

lemma tree_ok_ancestors:
  assumes "list_all (\<lambda>(k, e). list_all (\<lambda>d. d = [] \<or> map_of es d = Some Directory) (ancestors k)) es"
  shows "tree_ok (map_of es)"
  using assms map_of_SomeD unfolding tree_ok_def list_all_iff by fastforce

lemma obsolete_at_ancestors:
  "obsolete_at store k \<longleftrightarrow> list_ex (\<lambda>d. child_of ''/hm'' d \<and> is_obsolete store d) (k # ancestors k)"
  by (auto simp: obsolete_at_def list_ex_iff)

definition old_memory :: memory where
  "old_memory = empty_memory\<lparr>mem_entries :=
     [(''/hm'', Directory), (''/hm/v0'', Directory), (''/hm/v1'', Directory), (''/hm/v1/a'', File (Raw ''x'')),
      (''/hm/v1/b'', Directory), (''/hm/v0/a'', File (Raw ''y''))]\<rparr>"

definition store_v1 :: RealStore where "store_v1 = NewStore (defaults\<lparr>StoreSchemaVersion := 1\<rparr>)"


subsection \<open>Unreadable heartbeats\<close>

lemma heartbeats_loop_Inl:
  "(\<exists>err. heartbeats_loop store nodes results keys = Inl err \<and> (\<exists>c\<in>set nodes. parse_heartbeat_node c = Inl err))
   \<or> (\<forall>c\<in>set nodes. \<exists>h. parse_heartbeat_node c = Inr h) \<and> (\<exists>r. heartbeats_loop store nodes results keys = Inr r)"
proof (induction store nodes results keys rule: heartbeats_loop.induct)
  case (2 store node nodes results keys)
  then show ?case by (cases "parse_heartbeat_node node") (auto split: if_splits)
qed simp

lemma all_heartbeats_loop_Inl:
  assumes "n \<in> set nodes" and "c \<in> set (sn_ChildNodes n)" and "parse_heartbeat_node c = Inl e"
  shows "\<exists>err n' c'. all_heartbeats_loop store deas nodes results keys = Inl err
    \<and> n' \<in> set nodes \<and> c' \<in> set (sn_ChildNodes n') \<and> parse_heartbeat_node c' = Inl err"
  using assms
proof (induction store deas nodes results keys rule: all_heartbeats_loop.induct)
  case (2 store deas m nodes results keys)
  show ?case
  proof (cases "heartbeatsForNode store m deas")
    case (Inl err)
    then show ?thesis
      using heartbeats_loop_Inl [of store "sn_ChildNodes m" "[]" "[]"] by (fastforce simp: heartbeatsForNode_def)
  next
    case (Inr r)
    then have "m \<noteq> n"
      using heartbeats_loop_Inl [of store "sn_ChildNodes m" "[]" "[]"] "2.prems"(2,3) by (fastforce simp: heartbeatsForNode_def)
    then have "n \<in> set nodes" using "2.prems"(1) by simp
    then show ?thesis
      using "2.IH" [OF Inr] "2.prems"(2,3) Inr by (cases r) fastforce
  qed
qed simp

text \<open>
  C26. One heartbeat in the store that cannot be parsed hides all of them: \<open>GetInstanceHeartbeats\<close>
  answers with the empty list and no error, whatever else is stored, so that to its callers no
  instance of any app runs.
\<close>

theorem unreadable_heartbeat_hides_all:
  assumes "ad_ListRecursively ex (SchemaRoot store @ ''/apps/actual'') w = (Inr node, w1)"
    and "GetDeaCache ex now store w1 = (Inr deas, store2, w2)"
    and "n \<in> set (sn_ChildNodes node)" and "c \<in> set (sn_ChildNodes n)" and "parse_heartbeat_node c = Inl e"
    and "\<forall>n'\<in>set (sn_ChildNodes node). \<forall>c'\<in>set (sn_ChildNodes n'). parse_heartbeat_node c' \<noteq> Inl IndexPanic"
  shows "GetInstanceHeartbeats ex now store w = (Inr [], store2, w2)"
proof -
  obtain err where "all_heartbeats_loop store2 deas (sn_ChildNodes node) [] [] = Inl err" "err \<noteq> IndexPanic"
    using all_heartbeats_loop_Inl [OF assms(3-5)] assms(6) by metis
  then show ?thesis using assms(1,2) by (cases err) (simp_all add: GetInstanceHeartbeats_def)
qed

definition damaged_memory :: memory where
  "damaged_memory = snd (mem_set [leaf_node ''/hm/v0/apps/actual/app,v1/b'' (Raw ''junk'') 0] app_memory)"

theorem unreadable_heartbeat_hides_all_witness:
  "fst (GetInstanceHeartbeats mem_externals (time_Unix 1000) sample_store damaged_memory) = Inr []"
proof -
  let ?a = "leaf_node ''/hm/v0/apps/actual/app,v1/a'' (Raw ''0,RUNNING,0.0,dea'') 0"
  let ?b = "leaf_node ''/hm/v0/apps/actual/app,v1/b'' (Raw ''junk'') 0"
  let ?n = "StoreNode ''/hm/v0/apps/actual/app,v1'' (Raw []) 0 True [?a, ?b]"
  let ?node = "StoreNode ''/hm/v0/apps/actual'' (Raw []) 0 True [?n]"
  have listed: "ad_ListRecursively mem_externals (SchemaRoot sample_store @ ''/apps/actual'') damaged_memory =
      (Inr ?node, damaged_memory)" by code_simp
  have "case fst (GetDeaCache mem_externals (time_Unix 1000) sample_store damaged_memory) of Inl e \<Rightarrow> False | Inr deas \<Rightarrow> True"
    by code_simp
  then obtain deas store2 w2 where deas:
    "GetDeaCache mem_externals (time_Unix 1000) sample_store damaged_memory = (Inr deas, store2, w2)"
    by (cases "GetDeaCache mem_externals (time_Unix 1000) sample_store damaged_memory") (auto split: sum.splits)
  have "case parse_heartbeat_node ?b of Inl (CsvError e) \<Rightarrow> True | _ \<Rightarrow> False" by code_simp
  then obtain e where b: "parse_heartbeat_node ?b = Inl (CsvError e)" by (auto split: sum.splits hm_error.splits)
  have a: "\<exists>h. parse_heartbeat_node ?a = Inr h"
  proof -
    have "case parse_heartbeat_node ?a of Inr h \<Rightarrow> True | _ \<Rightarrow> False" by code_simp
    then show ?thesis by (auto split: sum.splits)
  qed
  show ?thesis
    using unreadable_heartbeat_hides_all [OF listed deas, of ?n ?b "CsvError e"] a b by auto
qed

end
