(* ===== verification/Sender_Properties.thy ===== *)
theory Sender_Properties imports Sender_Store Samples begin

text \<open>
  The properties of \<open>sender/sender.go\<close>: which messages one call of \<open>Send\<close> sends, how many, what it
  keeps and deletes, and what it leaves in the store.
\<close>

subsection \<open>Samples\<close>

text \<open>Index 0 of two runs, so only the start of index 1 makes sense; instance b is a duplicate.\<close>

definition sample_apps :: "(string, App) gomap" where
  "sample_apps = [(''app,v1'', sample_app 2
     [sample_heartbeat ''a'' 0 InstanceStateRunning, sample_heartbeat ''b'' 0 InstanceStateRunning])]"

definition sample_starts :: "PendingStartMessage list" where
  "sample_starts = [sample_start 0 60, sample_start 1 60]"

definition pending_memory :: memory where
  "pending_memory =
     snd (SavePendingStopMessages mem_externals sample_store [sample_stop ''b'']
       (snd (SavePendingStartMessages mem_externals sample_store sample_starts fresh_memory)))"

definition sample_send :: "int \<Rightarrow> nat \<Rightarrow> hm_error option \<times> sender \<times> memory" where
  "sample_send limit status = Send mem_externals (\<lambda>_. 0) (\<lambda>_. 0) sample_store (time_Unix 1000) sample_apps
     sample_starts [sample_stop ''b''] (new_sender (defaults\<lparr>SenderMessageLimit := limit\<rparr>))
     (pending_memory\<lparr>mem_status := status\<rparr>)"

lemma sample_send_ok:
  "fst (sample_send 1 200) = None" "fst (sample_send 60 500) = Some SenderFailed"
  by code_simp+

definition sample_sender :: "int \<Rightarrow> nat \<Rightarrow> sender" where
  "sample_sender limit status = fst (snd (sample_send limit status))"

lemma sample_run:
  "Send mem_externals (\<lambda>_. 0) (\<lambda>_. 0) sample_store (time_Unix 1000) sample_apps sample_starts [sample_stop ''b'']
     (new_sender (defaults\<lparr>SenderMessageLimit := limit\<rparr>)) (pending_memory\<lparr>mem_status := status\<rparr>) =
   (fst (sample_send limit status), sample_sender limit status, snd (snd (sample_send limit status)))"
  by (simp add: sample_send_def sample_sender_def)

lemma pending_memory_fresh:
  "VerifyFreshness mem_externals sample_store (time_Unix 1000) (pending_memory\<lparr>mem_status := 500\<rparr>) =
     (None, pending_memory\<lparr>mem_status := 500\<rparr>)"
  by code_simp

text \<open>One instance is wanted and runs alone.\<close>

definition lone_app :: App where "lone_app = sample_app 1 [sample_heartbeat ''a'' 0 InstanceStateRunning]"

definition lone_send :: "hm_error option \<times> sender \<times> memory" where
  "lone_send = Send mem_externals (\<lambda>_. 0) (\<lambda>_. 0) sample_store (time_Unix 1000) [(''app,v1'', lone_app)] []
     [sample_stop ''a''] (new_sender defaults) fresh_memory"

lemma lone_run:
  "Send mem_externals (\<lambda>_. 0) (\<lambda>_. 0) sample_store (time_Unix 1000) [(''app,v1'', lone_app)] []
     [sample_stop ''a''] (new_sender defaults) fresh_memory = (fst lone_send, fst (snd lone_send), snd (snd lone_send))"
  by (simp add: lone_send_def)

lemma Send_due:
  assumes "Send ex ch chm store now apps starts stops (new_sender conf) w = (r, s', w')"
    and "SenderMessageLimit conf < 2 ^ 63"
  shows Send_starts_due: "set (sentStartMessages s') \<subseteq> {m \<in> set starts. start_due apps now m}"
    and Send_stops_due: "set (sentStopMessages s') \<subseteq> {m \<in> set stops. stop_due apps now m}"
proof -
  have "set (sentStartMessages s') \<subseteq> {m \<in> set starts. start_due apps now m}
     \<and> set (sentStopMessages s') \<subseteq> {m \<in> set stops. stop_due apps now m}"
  proof (cases "fst (VerifyFreshness ex store now w)")
    case None
    then obtain w1 where fresh: "VerifyFreshness ex store now w = (None, w1)" by (metis prod.collapse)
    show ?thesis
    proof (rule Send_new [OF assms(1) fresh assms(2)], goal_cases)
      case (1 sent stopped)
      then show ?case using subseq_filter_set [OF 1(1)] subseq_filter_set [OF 1(7)] by (simp add: Int_def)
    qed
  next
    case (Some e)
    then show ?thesis
      using assms(1) by (auto simp: Send_def Let_def new_sender_def split: prod.splits)
  qed
  then show "set (sentStartMessages s') \<subseteq> {m \<in> set starts. start_due apps now m}"
    "set (sentStopMessages s') \<subseteq> {m \<in> set stops. stop_due apps now m}" by simp_all
qed

lemma Send_sent_all:
  assumes "Send ex ch chm store now apps starts stops (new_sender conf) w = (None, s', w')"
    and "SenderMessageLimit conf < 2 ^ 63"
  shows "sentStartMessages s' =
      take (nat (SenderMessageLimit conf)) (filter (start_due apps now) (SortStartMessagesByPriority ch starts))
    \<and> sentStopMessages s' = filter (stop_due apps now) stops"
proof -
  obtain w1 where fresh: "VerifyFreshness ex store now w = (None, w1)"
    using assms(1) by (cases "VerifyFreshness ex store now w") (auto simp: Send_def Let_def split: option.splits)
  show ?thesis by (rule Send_new [OF assms(1) fresh assms(2)]) (simp add: starts_sent_def)
qed

subsection \<open>Properties\<close>

text \<open>
  C9. When \<open>Send\<close> with a new sender reports no error, it has sent exactly the due start messages
  that still make sense, in the order of \<open>SortStartMessagesByPriority\<close> and at most
  \<open>SenderMessageLimit\<close> of them, and all due stop messages that still make sense, in their order.
\<close>

theorem Send_selects:
  assumes "Send ex ch chm store now apps starts stops (new_sender conf) w = (None, s', w')"
    and "SenderMessageLimit conf < 2 ^ 63"
  shows "sentStartMessages s' =
      take (nat (SenderMessageLimit conf)) (filter (start_due apps now) (SortStartMessagesByPriority ch starts))
    \<and> sentStopMessages s' = filter (stop_due apps now) stops"
  by (rule Send_sent_all [OF assms])

theorem Send_selects_witness:
  "sentStartMessages (sample_sender 1 200) = [sample_start 1 60]
   \<and> sentStopMessages (sample_sender 1 200) = [sample_stop ''b'']"
proof -
  have "take (nat 1) (filter (start_due sample_apps (time_Unix 1000))
      (SortStartMessagesByPriority (\<lambda>_. 0) sample_starts)) = [sample_start 1 60]"
    "filter (stop_due sample_apps (time_Unix 1000)) [sample_stop ''b''] = [sample_stop ''b'']"
    by code_simp+
  then show ?thesis using Send_selects [OF sample_run [of 1 200, unfolded sample_send_ok(1)]] by simp
qed

text \<open>
  C24. Whatever the cloud controller and the store answer: a new sender sends only due messages, keeps
  a copy of exactly those it sent that have a keep-alive, marked with the time, and deletes exactly
  the obsolete messages (due but pointless, or expired) and the sent ones without a keep-alive. A
  message that was not accepted, or is over the limit, is neither kept anew nor deleted.
\<close>

theorem Send_accounts:
  assumes "Send ex ch chm store now apps starts stops (new_sender conf) w = (r, s', w')"
    and "VerifyFreshness ex store now w = (None, w1)" and "SenderMessageLimit conf < 2 ^ 63"
  shows "set (sentStartMessages s') \<subseteq> {m \<in> set starts. start_due apps now m}
    \<and> startMessagesToSave s' = map (mark now) (filter kept (sentStartMessages s'))
    \<and> set (startMessagesToDelete s') =
        {m \<in> set starts. start_obsolete apps now m} \<union> {m \<in> set (sentStartMessages s'). \<not> kept m}
    \<and> set (sentStopMessages s') \<subseteq> {m \<in> set stops. stop_due apps now m}
    \<and> stopMessagesToSave s' = map (mark now) (filter kept (sentStopMessages s'))
    \<and> set (stopMessagesToDelete s') =
        {m \<in> set stops. stop_obsolete apps now m} \<union> {m \<in> set (sentStopMessages s'). \<not> kept m}"
proof (rule Send_new [OF assms], goal_cases)
  case (1 sent stopped)
  show ?case
    using subseq_filter_set [OF 1(1)] subseq_filter_set [OF 1(7)] 1
    by (simp add: set_SortStartMessagesByPriority Int_def)
qed

theorem Send_accounts_witness:
  "set (startMessagesToDelete (sample_sender 60 500)) = {sample_start 0 60}
   \<and> startMessagesToSave (sample_sender 60 500) = []"
proof -
  have none: "sentStartMessages (sample_sender 60 500) = []" by code_simp
  have "{m \<in> set sample_starts. start_obsolete sample_apps (time_Unix 1000) m} = {sample_start 0 60}"
    unfolding set_filter [symmetric] by code_simp
  then show ?thesis
    using Send_accounts [OF sample_run [of 60 500] pending_memory_fresh] none by (simp add: defaults_def)
qed

text \<open>
  One call sends at most \<open>SenderMessageLimit\<close> start messages, and none when the limit is
  not positive.
\<close>

theorem Send_respects_limit:
  assumes "Send ex ch chm store now apps starts stops (new_sender conf) w = (r, s', w')"
    and "SenderMessageLimit conf < 2 ^ 63"
  shows "int (length (sentStartMessages s')) \<le> max 0 (SenderMessageLimit conf)"
proof (cases "fst (VerifyFreshness ex store now w)")
  case None
  then obtain w1 where fresh: "VerifyFreshness ex store now w = (None, w1)" by (metis prod.collapse)
  show ?thesis by (rule Send_new [OF assms(1) fresh assms(2)]) simp
next
  case (Some e)
  then show ?thesis
    using assms(1) by (auto simp: Send_def Let_def new_sender_def split: prod.splits)
qed

theorem Send_respects_limit_witness: "sentStartMessages (sample_sender 0 200) = []"
  using Send_respects_limit [OF sample_run [of 0 200]] by simp



lemma sample_lists_ok:
  "start_list_ok sample_starts" "stop_list_ok [sample_stop ''b'']" "in_int64 (Unix (time_Unix 1000))"
  by (simp_all add: start_list_ok_def stop_list_ok_def sample_starts_def proper_key_def sample_messages_ok in_int64_def)

text \<open>
  C11. Over any adapter that meets its contract, a call with a new sender that reports no error turns
  the pending messages in the store into this: a message of the call that was sent is replaced by its
  copy marked as sent if it has a keep-alive and is gone otherwise, an obsolete message is gone, and
  every other entry is as before.
\<close>

theorem Send_updates_store:
  assumes "quiet_externals ex entries"
    and "Send ex ch chm store now apps starts stops (new_sender conf) w = (None, s', w')"
    and "SenderMessageLimit conf < 2 ^ 63" and "in_int64 (Unix now)"
    and "start_list_ok starts" and "stop_list_ok stops"
  shows "pending_starts store (entries w') =
      after_send PendingStartMessage_StoreKey (start_obsolete apps now) now (sentStartMessages s') starts
        (pending_starts store (entries w))
    \<and> pending_stops store (entries w') =
      after_send PendingStopMessage_StoreKey (stop_obsolete apps now) now (sentStopMessages s') stops
        (pending_stops store (entries w))"
  using quiet_externals.Send_stored [OF assms] by simp

theorem Send_updates_store_witness:
  "pending_starts sample_store (mem_view (snd (snd (sample_send 1 200)))) ''app-v1-1'' =
     Some (mark (time_Unix 1000) (sample_start 1 60))
   \<and> pending_starts sample_store (mem_view (snd (snd (sample_send 1 200)))) ''app-v1-0'' = None"
proof -
  have evaluated: "after_send PendingStartMessage_StoreKey (start_obsolete sample_apps (time_Unix 1000)) (time_Unix 1000)
      (sentStartMessages (sample_sender 1 200)) sample_starts
      (pending_starts sample_store (mem_view (pending_memory\<lparr>mem_status := 200\<rparr>))) ''app-v1-1'' =
        Some (mark (time_Unix 1000) (sample_start 1 60))"
    "after_send PendingStartMessage_StoreKey (start_obsolete sample_apps (time_Unix 1000)) (time_Unix 1000)
      (sentStartMessages (sample_sender 1 200)) sample_starts
      (pending_starts sample_store (mem_view (pending_memory\<lparr>mem_status := 200\<rparr>))) ''app-v1-0'' = None"
    by code_simp+
  show ?thesis
    using Send_updates_store [OF quiet_memory.quiet_externals_axioms
        sample_run [of 1 200, unfolded sample_send_ok(1)] _ sample_lists_ok(3,1,2)] evaluated
    by simp
qed

text \<open>
  C25. A start message that was sent is not sent again: after a successful call at a time other than
  the epoch, what the store holds under the key of a sent start message is never due.
\<close>

theorem Send_not_again:
  assumes "quiet_externals ex entries"
    and "Send ex ch chm store now apps starts stops (new_sender conf) w = (None, s', w')"
    and "SenderMessageLimit conf < 2 ^ 63" and "in_int64 (Unix now)"
    and "start_list_ok starts" and "stop_list_ok stops" and "Unix now \<noteq> 0"
    and "m \<in> set (sentStartMessages s')"
    and "pending_starts store (entries w') (PendingStartMessage_StoreKey m) = Some m'"
  shows "\<not> IsTimeToSend m' t"
proof -
  have "m \<in> set starts"
    using Send_starts_due [OF assms(2,3)] assms(8) by blast
  then have "find (\<lambda>n. PendingStartMessage_StoreKey n = PendingStartMessage_StoreKey m) starts = Some m"
    using assms(5) find_distinct_key by (fastforce simp: start_list_ok_def)
  then have "m' = mark now m"
    using assms(8,9) quiet_externals.Send_stored(1) [OF assms(1-6)]
    by (simp add: after_send_def split: if_splits)
  then show ?thesis using assms(7) by (simp add: IsTimeToSend_def HasBeenSent_def)
qed

theorem Send_not_again_witness:
  "\<not> IsTimeToSend (mark (time_Unix 1000) (sample_start 1 60)) (time_Unix 2000)"
proof (rule Send_not_again [OF quiet_memory.quiet_externals_axioms
      sample_run [of 1 200, unfolded sample_send_ok(1)] _ sample_lists_ok(3,1,2),
      where m = "sample_start 1 60"])
  have "sentStartMessages (sample_sender 1 200) = [sample_start 1 60]" by code_simp
  then show "sample_start 1 60 \<in> set (sentStartMessages (sample_sender 1 200))" by simp
  show "pending_starts sample_store (mem_view (snd (snd (sample_send 1 200))))
      (PendingStartMessage_StoreKey (sample_start 1 60)) = Some (mark (time_Unix 1000) (sample_start 1 60))"
    by code_simp
qed simp_all

text \<open>
  C27. A sender that failed once reports a failure from then on, whatever it is given: \<open>didSucceed\<close> is
  never set again, so a sender that is reused, as the listener does, never recovers.
\<close>

theorem Send_failure_sticks:
  assumes "Send ex ch chm store now apps starts stops s w = (r, s', w')" and "\<not> didSucceed s"
  shows "r \<noteq> None \<and> \<not> didSucceed s'"
proof (cases "VerifyFreshness ex store now w")
  case (Pair v w1)
  define s0 where "s0 = s\<lparr>currentTime := now, se_apps := apps\<rparr>"
  define sw where "sw = sendStopMessages ex stops (sendStartMessages ex ch starts (s0, w1))"
  have "\<not> didSucceed (fst sw)"
    using assms(2) by (simp add: sw_def s0_def sendStopMessages_def sendStartMessages_def failed_stays)
  then have "\<not> didSucceed (fst (write_messages ex chm store sw))" using write_messages_frame(2) by blast
  then show ?thesis
    using assms Pair by (auto simp: Send_def sw_def s0_def Let_def split: option.splits prod.splits)
qed

theorem Send_failure_sticks_witness:
  "fst (Send mem_externals (\<lambda>_. 0) (\<lambda>_. 0) sample_store (time_Unix 1000) sample_apps [] []
     (sample_sender 60 500) pending_memory) \<noteq> None"
proof -
  have "\<not> didSucceed (sample_sender 60 500)" by code_simp
  then show ?thesis
    using Send_failure_sticks [of mem_externals "\<lambda>_. 0" "\<lambda>_. 0" sample_store "time_Unix 1000" sample_apps "[]" "[]"
        "sample_sender 60 500" pending_memory] by (metis prod.collapse)
qed

text \<open>
  While the actual state is not fresh nothing is sent and nothing in the store changes: \<open>Send\<close>
  returns the error of \<open>VerifyFreshness\<close>.
\<close>

theorem Send_stale:
  assumes "quiet_externals ex entries" and "VerifyFreshness ex store now w = (Some e, w1)"
  shows "\<exists>s'. Send ex ch chm store now apps starts stops s w = (Some e, s', w)
     \<and> sentStartMessages s' = sentStartMessages s \<and> sentStopMessages s' = sentStopMessages s"
  using quiet_externals.VerifyFreshness_same [OF assms] assms(2) by (simp add: Send_def Let_def)

theorem Send_stale_witness:
  "\<exists>s'. Send mem_externals (\<lambda>_. 0) (\<lambda>_. 0) sample_store (time_Unix 1000) sample_apps sample_starts [] (new_sender defaults)
     empty_memory = (Some ActualIsNotFreshError, s', empty_memory) \<and> sentStartMessages s' = []"
proof -
  have "VerifyFreshness mem_externals sample_store (time_Unix 1000) empty_memory = (Some ActualIsNotFreshError, empty_memory)"
    by code_simp
  from Send_stale [OF quiet_memory.quiet_externals_axioms this, of "\<lambda>_. 0" "\<lambda>_. 0" sample_apps sample_starts "[]" "new_sender defaults"]
  show ?thesis by (auto simp: new_sender_def)
qed

end
