(* ===== verification/Store_Evacuation.thy ===== *)
theory Store_Evacuation imports Store_Actual_Facts begin

text \<open>
  The instances that \<open>SyncHeartbeats\<close> asks to be started elsewhere: those whose state turns to
  evacuating with this report, unless they are known to have crashed.
\<close>

definition evacuates :: "(string \<Rightarrow> InstanceHeartbeat option) \<Rightarrow> InstanceHeartbeat \<Rightarrow> bool" where
  "evacuates c i \<longleftrightarrow> hb_State i = InstanceStateEvacuating \<and>
     (case c (hb_InstanceGuid i) of None \<Rightarrow> True
      | Some h \<Rightarrow> hb_State h \<noteq> InstanceStateEvacuating \<and> hb_State h \<noteq> InstanceStateCrashed)"

lemma evacuates_cong: "c (hb_InstanceGuid i) = d (hb_InstanceGuid i) \<Longrightarrow> evacuates c i = evacuates d i"
  by (simp add: evacuates_def)

lemma sync_instance_evacuates:
  "sy_evac (sync_instance dea i s) = sy_evac s @ (if evacuates (cached (sy_store s)) i then [i] else [])"
  by (auto simp: sync_instance_evac evacuates_def split: option.splits)

lemma fold_instances_evac:
  "distinct (map hb_InstanceGuid is) \<Longrightarrow>
   sy_evac (fold (sync_instance dea) is s) = sy_evac s @ filter (evacuates (cached (sy_store s))) is"
proof (induction "is" arbitrary: s)
  case (Cons i "is")
  have "evacuates (cached (sy_store (sync_instance dea i s))) j = evacuates (cached (sy_store s)) j"
    if "j \<in> set is" for j
  proof (rule evacuates_cong)
    have "hb_InstanceGuid j \<noteq> hb_InstanceGuid i" using that Cons.prems by (metis distinct.simps(2) image_eqI list.map(2) set_map)
    then show "cached (sy_store (sync_instance dea i s)) (hb_InstanceGuid j) = cached (sy_store s) (hb_InstanceGuid j)"
      by (simp add: sync_instance_simps(1))
  qed
  then have "filter (evacuates (cached (sy_store (sync_instance dea i s)))) is
      = filter (evacuates (cached (sy_store s))) is" by (rule filter_cong [OF refl])
  then show ?case using Cons by (simp add: sync_instance_evacuates)
qed simp

lemma sync_heartbeat_evac:
  assumes "report_ok (cached (sy_store s)) hb"
  shows "sy_evac (sync_heartbeat ch hb s) =
     sy_evac s @ filter (evacuates (cached (sy_store s))) (InstanceHeartbeats hb)"
proof -
  have "sy_evac (sync_vanished ch dea guids t) = sy_evac t" for dea guids t
    by (simp add: sync_vanished_def Let_def)
  moreover have "sy_evac (sync_start hb s) = sy_evac s" by (simp add: sync_start_def)
  moreover have "distinct (map hb_InstanceGuid (InstanceHeartbeats hb))"
    using assms by (simp add: report_ok_def)
  ultimately show ?thesis by (simp add: sync_heartbeat_start fold_instances_evac)
qed

definition evacuated :: "(string \<Rightarrow> InstanceHeartbeat option) \<Rightarrow> Heartbeat list \<Rightarrow> InstanceHeartbeat list" where
  "evacuated c hbs = concat (map (\<lambda>hb. filter (evacuates c) (InstanceHeartbeats hb)) hbs)"

lemma evacuated_cong:
  assumes "\<And>hb i. hb \<in> set hbs \<Longrightarrow> i \<in> set (InstanceHeartbeats hb) \<Longrightarrow> c (hb_InstanceGuid i) = d (hb_InstanceGuid i)"
  shows "evacuated c hbs = evacuated d hbs"
  unfolding evacuated_def
  by (intro arg_cong [where f = concat] map_cong filter_cong refl evacuates_cong) (use assms in blast)

lemma fold_sync_evac:
  assumes "cache_ok (sy_store s)" and "reports_ok (cached (sy_store s)) hbs"
  shows "sy_evac (fold (sync_heartbeat ch) hbs s) = sy_evac s @ evacuated (cached (sy_store s)) hbs"
  using assms
proof (induction hbs arbitrary: s)
  case (Cons hb hbs)
  note now = reports_ok_Cons [OF Cons.prems(2)]
  note step = sync_heartbeat_cached [OF Cons.prems(1) now(1), of ch]
  have "reported hb' (hb_InstanceGuid i) = Some i" if "hb' \<in> set hbs" "i \<in> set (InstanceHeartbeats hb')" for hb' i
    using that Cons.prems(2) by (intro reported_unique) (auto simp: reports_ok_def)
  then have "evacuated (report hb (cached (sy_store s))) hbs = evacuated (cached (sy_store s)) hbs"
    by (intro evacuated_cong) (use now(3) in blast)
  then show ?case
    using Cons.IH [OF step(2)] now(1,2) step(1) by (simp add: sync_heartbeat_evac evacuated_def)
qed (simp add: evacuated_def)

lemma SyncHeartbeats_evac:
  assumes "loadCache ex now store w = (None, store1, w1)" and "cache_ok store1"
    and "reports_ok (cached store1) (processed ch incoming)"
    and "SyncHeartbeats ex now ch incoming store w = ((evac, err), store', w')"
  shows "evac = evacuated (cached store1) (processed ch incoming)"
proof -
  have "evac = sy_evac (sync_caches ch incoming store1)"
    using assms(1,4)
    by (auto simp: SyncHeartbeats_def Let_def split: prod.splits option.splits store_error.splits)
  then show ?thesis
    using fold_sync_evac [of "start_sync store1", unfolded start_sync_simps, OF assms(2,3), of ch]
    by (simp add: sync_caches_processed start_sync_def)
qed

end
