(* ===== verification/Actual_State_Syncer.thy ===== *)
theory Actual_State_Syncer imports Sender_Store Store_Actual_Facts begin

text \<open>
  \<open>actualstatelisteners/\<close>: heartbeats arrive over NATS and HTTP, are collected by the syncer and
  written to the store once per tick, where the freshness of the actual state is bumped or revoked
  and the instances of evacuating DEAs are started elsewhere.

  One pass over the collected heartbeats is the function \<open>sync_pass\<close>. The loop around it, the
  listeners and the goroutine that waits for a signal run side by side: they are the step relation
  \<open>syncer_step\<close>, in which heartbeats arrive at any time and other processes change the world.
\<close>

subsection \<open>The syncer\<close>

record syncer =
  ys_config :: Config
  ys_store :: RealStore
  heartbeatsToSave :: "Heartbeat list"
  ys_sender :: sender

definition NewSyncer :: "Config \<Rightarrow> RealStore \<Rightarrow> sender \<Rightarrow> syncer" where
  "NewSyncer conf store sndr =
     \<lparr>ys_config = conf, ys_store = store, heartbeatsToSave = [], ys_sender = sndr\<rparr>"

definition Syncer_Heartbeat :: "Heartbeat \<Rightarrow> syncer \<Rightarrow> syncer" where
  "Syncer_Heartbeat heartbeat y = y\<lparr>heartbeatsToSave := heartbeatsToSave y @ [heartbeat]\<rparr>"

text \<open>What a pass takes from outside: the readings of the clock, the message ids, the orders of maps.\<close>

record pass_env =
  pe_start :: time
  pe_store_now :: time
  pe_saved :: time
  pe_bump :: time
  pe_message :: "nat \<Rightarrow> time"
  pe_guid :: "nat \<Rightarrow> string"
  pe_send :: time
  pe_choice :: choice

definition syncer_bumpFreshness :: "'w externals \<Rightarrow> time \<Rightarrow> RealStore \<Rightarrow> 'w \<Rightarrow> 'w" where
  "syncer_bumpFreshness ex now store w = snd (BumpActualFreshness ex store now w)"

definition evacuation_start :: "Config \<Rightarrow> time \<Rightarrow> string \<Rightarrow> string \<Rightarrow> string \<Rightarrow> int \<Rightarrow> PendingStartMessage" where
  "evacuation_start conf now guid appGuid appVersion index =
     (NewPendingStartMessage guid now 0 (GracePeriod conf) appGuid appVersion index (Num 2)
        PendingStartMessageReasonEvacuating)\<lparr>SkipVerification := True\<rparr>"

definition evacuation_starts :: "Config \<Rightarrow> pass_env \<Rightarrow> InstanceHeartbeat list \<Rightarrow> PendingStartMessage list" where
  "evacuation_starts conf env evacuating =
     map (\<lambda>(i, h). evacuation_start conf (pe_message env i) (pe_guid env i)
            (hb_AppGuid h) (hb_AppVersion h) (hb_InstanceIndex h)) (enumerate 0 evacuating)"

text \<open>What follows the write: the freshness, and the counter of the saved heartbeats.\<close>

definition after_sync :: "'w externals \<Rightarrow> pass_env \<Rightarrow> Config \<Rightarrow> nat \<Rightarrow> hm_error option \<Rightarrow> RealStore \<Rightarrow> 'w \<Rightarrow> 'w" where
  "after_sync ex env conf numHeartbeats err store w =
     (case err of
        Some e \<Rightarrow> snd (RevokeActualFreshness ex store w)
      | None \<Rightarrow>
          (let dt = time_Sub (pe_saved env) (pe_start env);
               w1 = (if dt < HeartbeatDuration conf then syncer_bumpFreshness ex (pe_bump env) store w else w)
           in snd (TrackSavedHeartbeats ex (int numHeartbeats) w1)))"

definition save_heartbeats :: "'w externals \<Rightarrow> pass_env \<Rightarrow> Heartbeat list \<Rightarrow> syncer \<Rightarrow> 'w \<Rightarrow> syncer \<times> 'w" where
  "save_heartbeats ex env heartbeats y w =
     (case SyncHeartbeats ex (pe_store_now env) (pe_choice env) heartbeats (ys_store y) w of
        ((evacuating, err), store, w1) \<Rightarrow>
          (let w2 = after_sync ex env (ys_config y) (length heartbeats) err store w1;
               starts = evacuation_starts (ys_config y) env evacuating;
               y1 = y\<lparr>ys_store := store\<rparr>
           in if length starts > 0
              then (case Send ex (pe_choice env) (pe_choice env) store (pe_send env) [] starts [] (ys_sender y) w2 of
                      (r, sndr, w3) \<Rightarrow> (y1\<lparr>ys_sender := sndr\<rparr>, w3))
              else (y1, w2)))"

definition sync_pass :: "'w externals \<Rightarrow> pass_env \<Rightarrow> Heartbeat list \<Rightarrow> syncer \<Rightarrow> 'w \<Rightarrow> syncer \<times> 'w" where
  "sync_pass ex env heartbeats y w =
     (let (y', w') = (if length heartbeats > 0 then save_heartbeats ex env heartbeats y w else (y, w))
      in (y', snd (TrackReceivedHeartbeats ex (int (length heartbeats)) w')))"

subsection \<open>The listeners\<close>

definition handle_nats_heartbeat :: "bytes \<Rightarrow> syncer \<Rightarrow> syncer" where
  "handle_nats_heartbeat message y =
     (case NewHeartbeatFromJSON message of None \<Rightarrow> y | Some heartbeat \<Rightarrow> Syncer_Heartbeat heartbeat y)"

text \<open>The status of the answer; the body is either read or fails to be.\<close>

definition heartbeat_ServeHTTP :: "string + bytes \<Rightarrow> syncer \<Rightarrow> nat \<times> syncer" where
  "heartbeat_ServeHTTP body y =
     (case body of
        Inl err \<Rightarrow> (400, y)
      | Inr bodyBytes \<Rightarrow>
          if bodyBytes = Raw [] then (400, y)
          else (case NewHeartbeatFromJSON bodyBytes of
                  None \<Rightarrow> (400, y)
                | Some heartbeat \<Rightarrow> (202, Syncer_Heartbeat heartbeat y)))"

subsection \<open>The goroutines\<close>

text \<open>
  \<open>Collecting\<close> is the head of the loop, \<open>Saving\<close> holds the heartbeats it took, \<open>Selecting\<close> waits for
  the ticker or the control channel. \<open>run_returned\<close> says that \<open>Run\<close> has got its signal, handed
  it over the channel and returned. The two histories record what arrived and what was passed on.
\<close>

datatype loop_phase = Collecting | Saving "Heartbeat list" | Selecting

record 'w listener =
  li_syncer :: syncer
  li_world :: 'w
  li_phase :: loop_phase
  run_returned :: bool
  arrived :: "Heartbeat list"
  passed :: "Heartbeat list"

inductive syncer_step :: "'w externals \<Rightarrow> 'w listener \<Rightarrow> 'w listener \<Rightarrow> bool" for ex :: "'w externals" where
  arrive: "syncer_step ex l (l\<lparr>li_syncer := Syncer_Heartbeat h (li_syncer l), arrived := arrived l @ [h]\<rparr>)"
| collect: "li_phase l = Collecting \<Longrightarrow>
     syncer_step ex l (l\<lparr>li_phase := Saving (heartbeatsToSave (li_syncer l)),
                        li_syncer := (li_syncer l)\<lparr>heartbeatsToSave := []\<rparr>\<rparr>)"
| pass: "li_phase l = Saving hbs \<Longrightarrow> sync_pass ex env hbs (li_syncer l) (li_world l) = (y, w) \<Longrightarrow>
     syncer_step ex l (l\<lparr>li_syncer := y, li_world := w, li_phase := Selecting, passed := passed l @ hbs\<rparr>)"
| tick: "li_phase l = Selecting \<Longrightarrow> syncer_step ex l (l\<lparr>li_phase := Collecting\<rparr>)"
| control: "li_phase l = Selecting \<Longrightarrow> \<not> run_returned l \<Longrightarrow>
     syncer_step ex l (l\<lparr>li_phase := Collecting, run_returned := True\<rparr>)"
| others: "syncer_step ex l (l\<lparr>li_world := w\<rparr>)"

inductive_cases syncer_stepE: "syncer_step ex l l'"

definition listener_start :: "syncer \<Rightarrow> 'w \<Rightarrow> 'w listener" where
  "listener_start y w = \<lparr>li_syncer = y, li_world = w, li_phase = Collecting, run_returned = False,
     arrived = heartbeatsToSave y, passed = []\<rparr>"

definition syncer_reaches :: "'w externals \<Rightarrow> 'w listener \<Rightarrow> 'w listener \<Rightarrow> bool" where
  "syncer_reaches ex = (syncer_step ex)\<^sup>*\<^sup>*"

end
