(* ===== verification/Actual_State_Syncer_Facts.thy ===== *)
theory Actual_State_Syncer_Facts imports Actual_State_Syncer begin

text \<open>
  Facts about the syncer: what a pass keeps, the budget of the sender that all passes share, the
  histories of the loop, and the state of the store after a pass whose write failed.
\<close>

subsection \<open>What a pass keeps\<close>

lemma save_heartbeats_frame:
  assumes "save_heartbeats ex env hbs y w = (y', w')"
  shows "heartbeatsToSave y' = heartbeatsToSave y" and "ys_config y' = ys_config y"
    and "ys_sender y' = ys_sender y \<or>
      (\<exists>store starts w1 r w2. Send ex (pe_choice env) (pe_choice env) store (pe_send env) [] starts [] (ys_sender y) w1
         = (r, ys_sender y', w2))"
  using assms by (auto simp: save_heartbeats_def Let_def split: prod.splits if_splits)

lemma sync_pass_frame:
  assumes "sync_pass ex env hbs y w = (y', w')"
  shows "heartbeatsToSave y' = heartbeatsToSave y" and "ys_config y' = ys_config y"
    and "ys_sender y' = ys_sender y \<or>
      (\<exists>store starts w1 r w2. Send ex (pe_choice env) (pe_choice env) store (pe_send env) [] starts [] (ys_sender y) w1
         = (r, ys_sender y', w2))"
proof -
  have "y' = y \<or> (\<exists>w2. save_heartbeats ex env hbs y w = (y', w2))"
    using assms by (auto simp: sync_pass_def Let_def split: prod.splits if_splits)
  then show "heartbeatsToSave y' = heartbeatsToSave y" "ys_config y' = ys_config y"
    "ys_sender y' = ys_sender y \<or>
      (\<exists>store starts w1 r w2. Send ex (pe_choice env) (pe_choice env) store (pe_send env) [] starts [] (ys_sender y) w1
         = (r, ys_sender y', w2))"
    using save_heartbeats_frame [of ex env hbs y w y'] by auto
qed

subsection \<open>The budget of a sender\<close>

text \<open>
  The counter of sent starts is never reset: over all calls it counts the sent messages and
  stops at the limit.
\<close>

definition sender_budget :: "Config \<Rightarrow> sender \<Rightarrow> bool" where
  "sender_budget conf s \<longleftrightarrow> se_conf s = conf
     \<and> numberOfStartMessagesSent s = int (length (sentStartMessages s))
     \<and> numberOfStartMessagesSent s \<le> max 0 (SenderMessageLimit conf)"

lemma new_sender_budget: "sender_budget conf (new_sender conf)"
  by (simp add: sender_budget_def new_sender_def)

lemma ideal_start_budget:
  assumes "SenderMessageLimit conf < 2 ^ 63" and "sender_budget conf s"
  shows "sender_budget conf (ideal_start m s)"
  using assms successful_step [of "numberOfStartMessagesSent s" "SenderMessageLimit conf"]
  by (auto simp: sender_budget_def ideal_start_iff)

lemma Send_budget:
  assumes "Send ex ch chm store now apps starts stops s w = (r, s', w')"
    and "SenderMessageLimit conf < 2 ^ 63" and "sender_budget conf s"
  shows "sender_budget conf s'"
proof (rule Send_keeps [where P = "sender_budget conf", OF assms(1)])
  show "sender_budget conf (ideal_start m s)" if "sender_budget conf s" for m s
    using ideal_start_budget [OF assms(2) that] .
qed (use assms(3) in \<open>simp_all add: sender_budget_def\<close>)

text \<open>Neither are the lists: what was sent once is written again by every later call.\<close>

lemma Send_grows:
  assumes "Send ex ch chm store now apps starts stops s w = (r, s', w')"
  shows "prefix (sentStartMessages s) (sentStartMessages s')"
    and "prefix (startMessagesToSave s) (startMessagesToSave s')"
proof -
  let ?P = "\<lambda>s'. prefix (sentStartMessages s) (sentStartMessages s')
    \<and> prefix (startMessagesToSave s) (startMessagesToSave s')"
  have grow: "?P (ideal_start m t)" if "?P t" for m t
    using that by (auto simp: ideal_start_iff intro: prefix_prefix)
  have "?P s'" by (rule Send_keeps [where P = ?P, OF assms]) (use grow in auto)
  then show "prefix (sentStartMessages s) (sentStartMessages s')"
    "prefix (startMessagesToSave s) (startMessagesToSave s')" by simp_all
qed

subsection \<open>Invariants of the loop\<close>

definition in_flight :: "loop_phase \<Rightarrow> Heartbeat list" where
  "in_flight p = (case p of Saving hbs \<Rightarrow> hbs | _ \<Rightarrow> [])"

definition arrivals_kept :: "'w listener \<Rightarrow> bool" where
  "arrivals_kept l \<longleftrightarrow> arrived l = passed l @ in_flight (li_phase l) @ heartbeatsToSave (li_syncer l)"

lemma arrivals_kept_step: "syncer_step ex l l' \<Longrightarrow> arrivals_kept l \<Longrightarrow> arrivals_kept l'"
proof (induction rule: syncer_step.induct)
  case (pass l hbs env y w)
  then show ?case using sync_pass_frame(1) [OF pass.hyps(2)] by (simp add: arrivals_kept_def in_flight_def)
qed (auto simp: arrivals_kept_def in_flight_def Syncer_Heartbeat_def)

lemma arrivals_kept_reaches: "syncer_reaches ex (listener_start y w) l \<Longrightarrow> arrivals_kept l"
  unfolding syncer_reaches_def
  by (induction rule: rtranclp_induct)
    (simp_all add: arrivals_kept_step, simp add: arrivals_kept_def listener_start_def in_flight_def)

definition within_budget :: "Config \<Rightarrow> 'w listener \<Rightarrow> bool" where
  "within_budget conf l \<longleftrightarrow> sender_budget conf (ys_sender (li_syncer l))"

lemma within_budget_step:
  assumes "syncer_step ex l l'" and "within_budget conf l" and "SenderMessageLimit conf < 2 ^ 63"
  shows "within_budget conf l'"
  using assms
proof (induction rule: syncer_step.induct)
  case (pass l hbs env y w)
  then show ?case
    using sync_pass_frame(3) [OF pass.hyps(2)] Send_budget [OF _ pass.prems(2)] by (auto simp: within_budget_def)
qed (auto simp: within_budget_def Syncer_Heartbeat_def)

lemma within_budget_reaches:
  assumes "syncer_reaches ex (listener_start (NewSyncer conf store (new_sender conf)) w) l"
    and "SenderMessageLimit conf < 2 ^ 63"
  shows "within_budget conf l"
  using assms(1) unfolding syncer_reaches_def
  by (induction rule: rtranclp_induct)
    (simp_all add: within_budget_step [OF _ _ assms(2)],
     simp add: within_budget_def listener_start_def NewSyncer_def new_sender_budget)

text \<open>From every state the loop can go on until all that has arrived is passed on.\<close>

lemma saving_passes:
  assumes "li_phase l = Saving hbs"
  shows "\<exists>l'. syncer_step ex l l' \<and> li_phase l' = Selecting \<and> passed l' = passed l @ hbs
    \<and> heartbeatsToSave (li_syncer l') = heartbeatsToSave (li_syncer l) \<and> run_returned l' = run_returned l"
proof -
  obtain y w where "sync_pass ex undefined hbs (li_syncer l) (li_world l) = (y, w)" by fastforce
  from syncer_step.pass [OF assms this] sync_pass_frame(1) [OF this] show ?thesis by fastforce
qed

lemma collecting_passes:
  assumes "\<And>hbs. li_phase l \<noteq> Saving hbs"
  shows "\<exists>l'. syncer_reaches ex l l' \<and> passed l' = passed l @ heartbeatsToSave (li_syncer l) \<and> run_returned l' = run_returned l"
proof -
  obtain l1 where l1: "syncer_reaches ex l l1" "li_phase l1 = Collecting" "passed l1 = passed l"
    "li_syncer l1 = li_syncer l" "run_returned l1 = run_returned l"
  proof (cases "li_phase l")
    case Collecting
    then show thesis using that [of l] by (simp add: syncer_reaches_def)
  next
    case Selecting
    then have "syncer_reaches ex l (l\<lparr>li_phase := Collecting\<rparr>)"
      unfolding syncer_reaches_def by (intro r_into_rtranclp tick)
    then show thesis using that by force
  qed (use assms in blast)
  obtain l2 where l2: "syncer_step ex l1 l2" "li_phase l2 = Saving (heartbeatsToSave (li_syncer l1))"
    "passed l2 = passed l1" "run_returned l2 = run_returned l1"
    using collect [OF l1(2), of ex] by force
  obtain l3 where "syncer_step ex l2 l3" "passed l3 = passed l2 @ heartbeatsToSave (li_syncer l1)"
    "run_returned l3 = run_returned l2"
    using saving_passes [OF l2(2)] by blast
  then show ?thesis using l1 l2 unfolding syncer_reaches_def by (metis rtranclp.rtrancl_into_rtrancl)
qed

lemma all_passed:
  assumes "arrivals_kept l"
  shows "\<exists>l'. syncer_reaches ex l l' \<and> passed l' = arrived l \<and> run_returned l' = run_returned l"
proof (cases "\<exists>hbs. li_phase l = Saving hbs")
  case True
  then obtain hbs where hbs: "li_phase l = Saving hbs" by blast
  obtain l1 where l1: "syncer_step ex l l1" "li_phase l1 = Selecting" "passed l1 = passed l @ hbs"
    "heartbeatsToSave (li_syncer l1) = heartbeatsToSave (li_syncer l)" "run_returned l1 = run_returned l"
    using saving_passes [OF hbs] by blast
  obtain l2 where "syncer_reaches ex l1 l2" "passed l2 = passed l1 @ heartbeatsToSave (li_syncer l1)"
    "run_returned l2 = run_returned l1"
    using collecting_passes [of l1 ex] l1(2) by auto
  then show ?thesis using l1 assms hbs unfolding syncer_reaches_def
    by (intro exI [of _ l2]) (auto simp: arrivals_kept_def in_flight_def intro: converse_rtranclp_into_rtranclp)
next
  case False
  then obtain l' where "syncer_reaches ex l l'" "passed l' = passed l @ heartbeatsToSave (li_syncer l)"
    "run_returned l' = run_returned l" using collecting_passes [of l ex] by blast
  then show ?thesis using assms False
    by (intro exI [of _ l']) (auto simp: arrivals_kept_def in_flight_def split: loop_phase.splits)
qed

subsection \<open>The starts of evacuating instances\<close>

lemma evacuation_start_simps [simp]:
  "AppGuid (evacuation_start conf now guid a v i) = a" "AppVersion (evacuation_start conf now guid a v i) = v"
  "IndexToStart (evacuation_start conf now guid a v i) = i" "SkipVerification (evacuation_start conf now guid a v i)"
  "SentOn (evacuation_start conf now guid a v i) = 0" "SendOn (evacuation_start conf now guid a v i) = Unix now"
  "KeepAlive (evacuation_start conf now guid a v i) = GracePeriod conf"
  "MessageId (evacuation_start conf now guid a v i) = guid"
  "Priority (evacuation_start conf now guid a v i) = Num 2"
  by (simp_all add: evacuation_start_def time_Add_def dur_mult_def wrap64_def)

lemma evacuation_start_due:
  "Unix now \<le> Unix t \<Longrightarrow> start_due apps t (evacuation_start conf now guid a v i)"
  by (simp add: start_due_def IsTimeToSend_def HasBeenSent_def)

lemma evacuation_starts_due:
  assumes "\<And>i. Unix (pe_message env i) \<le> Unix t"
  shows "filter (start_due apps t) (evacuation_starts conf env hs) = evacuation_starts conf env hs"
  using assms by (auto simp: evacuation_starts_def filter_id_conv evacuation_start_due)

lemma length_evacuation_starts [simp]: "length (evacuation_starts conf env hs) = length hs"
  by (simp add: evacuation_starts_def)

text \<open>Every due start is sent by a call that succeeds and has the budget for all of them.\<close>

lemma Send_all_starts:
  assumes "Send ex ch chm store now apps starts stops s w = (None, s', w')" and "sender_budget conf s"
    and "SenderMessageLimit conf < 2 ^ 63"
    and "int (length (sentStartMessages s) + length starts) \<le> SenderMessageLimit conf"
    and "filter (start_due apps now) starts = starts"
  shows "mset (sentStartMessages s') = mset (sentStartMessages s) + mset starts"
proof -
  let ?sorted = "SortStartMessagesByPriority ch starts"
  have due: "filter (start_due apps now) ?sorted = ?sorted"
    using assms(5) by (simp add: filter_id_conv)
  have len: "length ?sorted = length starts" by (metis mset_SortStartMessagesByPriority size_mset)
  have s: "se_conf s = conf" "numberOfStartMessagesSent s = int (length (sentStartMessages s))"
    using assms(2) by (simp_all add: sender_budget_def)
  have "length ?sorted \<le> nat (SenderMessageLimit conf - int (length (sentStartMessages s)))"
    using assms(4) len by simp
  then have "starts_sent conf apps now (int (length (sentStartMessages s))) ?sorted = ?sorted"
    by (simp add: starts_sent_def due)
  then show ?thesis using Send_sent_starts [OF assms(1)] assms(3) s by simp
qed

lemma Send_succeeds:
  assumes "Send ex ch chm store now apps starts stops s w = (r, s', w')"
    and "VerifyFreshness ex store now w = (None, w1)" and "didSucceed s'"
  shows "r = None"
  using assms by (auto simp: Send_def Let_def split: prod.splits if_splits)

subsection \<open>A pass whose write fails\<close>

context quiet_externals begin

lemma missing_not_fresh:
  assumes "entries w (freshness_key store) = None"
  shows "fst (VerifyFreshness ex store now w) \<noteq> None"
proof -
  obtain r w' where get: "ad_Get ex (freshness_key store) w = (r, w')" by fastforce
  have "\<exists>e. r = Inl e" using get_ok [of "freshness_key store" w _ w'] get assms by (cases r) auto
  then show ?thesis
    using get by (auto simp: VerifyFreshness_def IsActualStateFresh_def freshness_key_def split: store_error.splits)
qed

lemma revoked_entry:
  assumes "RevokeActualFreshness ex store w = (None, w')"
  shows "entries w' (freshness_key store) = None"
  using assms delete_ok [of "[freshness_key store]" w w']
  by (auto simp: RevokeActualFreshness_def freshness_key_def store_result_def split: prod.splits)

text \<open>The start messages of a pass over a stale state are not sent and change nothing.\<close>

lemma save_heartbeats_failed:
  assumes "SyncHeartbeats ex (pe_store_now env) (pe_choice env) hbs (ys_store y) w = ((evac, Some err), store, w1)"
    and "RevokeActualFreshness ex store w1 = (None, w2)"
    and "save_heartbeats ex env hbs y w = (y', w')"
  shows "w' = w2 \<and> ys_store y' = store \<and> sentStartMessages (ys_sender y') = sentStartMessages (ys_sender y)"
proof -
  have after: "after_sync ex env (ys_config y) (length hbs) (Some err) store w1 = w2"
    using assms(2) by (simp add: after_sync_def)
  obtain e w3 where stale: "VerifyFreshness ex store (pe_send env) w2 = (Some e, w3)"
    using missing_not_fresh [OF revoked_entry [OF assms(2)], of "pe_send env"]
    by (cases "VerifyFreshness ex store (pe_send env) w2") auto
  then show ?thesis
    using assms(1,3) after stale_Send [OF _ stale]
    by (auto simp: save_heartbeats_def Let_def split: if_splits prod.splits)
qed

lemma sync_pass_failed:
  assumes "SyncHeartbeats ex (pe_store_now env) (pe_choice env) hbs (ys_store y) w = ((evac, Some err), store, w1)"
    and "RevokeActualFreshness ex store w1 = (None, w2)" and "hbs \<noteq> []"
    and "sync_pass ex env hbs y w = (y', w')"
  shows "entries w' = entries w2" and "ys_store y' = store"
    and "sentStartMessages (ys_sender y') = sentStartMessages (ys_sender y)"
proof -
  obtain w3 where save: "save_heartbeats ex env hbs y w = (y', w3)"
    and w': "w' = snd (TrackReceivedHeartbeats ex (int (length hbs)) w3)"
    using assms(3,4) by (auto simp: sync_pass_def Let_def split: prod.splits)
  note failed = save_heartbeats_failed [OF assms(1,2) save]
  show "ys_store y' = store" "sentStartMessages (ys_sender y') = sentStartMessages (ys_sender y)"
    using failed by simp_all
  have "entries w' = entries w3"
    unfolding w' TrackReceivedHeartbeats_def by (metis prod.collapse value_quiet)
  then show "entries w' = entries w2" using failed by simp
qed

end

end
