(* ===== verification/Evacuator.thy ===== *)
theory Evacuator imports Actual_State_Syncer_Facts begin

text \<open>
  \<open>evacuator/evacuator.go\<close>: when a DEA reports over the message bus that a droplet exited because the
  DEA shuts down or evacuates, a start message for its index is saved and sent at once, by a sender
  of its own.

  The subscription is the only state of the evacuator; the bus is a parameter, and \<open>handle_message\<close>
  is the callback it is given.
\<close>

record exit_env =
  xe_now :: time
  xe_guid :: string
  xe_send :: time
  xe_choice :: choice

definition exit_start :: "Config \<Rightarrow> exit_env \<Rightarrow> DropletExited \<Rightarrow> PendingStartMessage" where
  "exit_start conf env exited = evacuation_start conf (xe_now env) (xe_guid env)
     (de_AppGuid exited) (de_AppVersion exited) (de_InstanceIndex exited)"

text \<open>The results of saving and sending are dropped.\<close>

definition handleExited :: "'w externals \<Rightarrow> exit_env \<Rightarrow> Config \<Rightarrow> RealStore \<Rightarrow> DropletExited \<Rightarrow> 'w \<Rightarrow> 'w" where
  "handleExited ex env conf store exited w =
     (if de_Reason exited = DropletExitedReasonDEAShutdown \<or> de_Reason exited = DropletExitedReasonDEAEvacuation
      then (let startMessage = exit_start conf env exited;
                w1 = snd (SavePendingStartMessages ex store [startMessage] w)
            in snd (snd (Send ex (xe_choice env) (xe_choice env) store (xe_send env) [] [startMessage] []
                          (new_sender conf) w1)))
      else w)"

definition handle_message :: "'w externals \<Rightarrow> exit_env \<Rightarrow> Config \<Rightarrow> RealStore \<Rightarrow> bytes \<Rightarrow> 'w \<Rightarrow> 'w" where
  "handle_message ex env conf store message w =
     (case NewDropletExitedFromJSON message of
        None \<Rightarrow> w
      | Some dropletExited \<Rightarrow> handleExited ex env conf store dropletExited w)"

subsection \<open>What is pending afterwards\<close>

definition evacuation_reason :: "DropletExited \<Rightarrow> bool" where
  "evacuation_reason exited \<longleftrightarrow>
     de_Reason exited = DropletExitedReasonDEAShutdown \<or> de_Reason exited = DropletExitedReasonDEAEvacuation"

lemma handleExited_cases:
  assumes "evacuation_reason exited"
    and "SavePendingStartMessages ex store [exit_start conf env exited] w = (e, w1)"
    and "Send ex (xe_choice env) (xe_choice env) store (xe_send env) [] [exit_start conf env exited] []
           (new_sender conf) w1 = (r, s', w2)"
  shows "handleExited ex env conf store exited w = w2"
  using assms by (simp add: handleExited_def evacuation_reason_def Let_def)

lemma exit_start_due:
  "Unix (xe_now env) \<le> Unix (xe_send env) \<Longrightarrow> start_due apps (xe_send env) (exit_start conf env exited)"
  by (simp add: exit_start_def evacuation_start_due)

text \<open>The message can be stored: its numbers fit and its key is one path component.\<close>

definition exit_ok :: "Config \<Rightarrow> exit_env \<Rightarrow> DropletExited \<Rightarrow> bool" where
  "exit_ok conf env exited \<longleftrightarrow> proper_key (PendingStartMessage_StoreKey (exit_start conf env exited))
     \<and> in_int64 (Unix (xe_now env)) \<and> in_int64 (GracePeriod conf) \<and> in_int64 (de_InstanceIndex exited)"

lemma two_float_ok: "float_ok (Num 2)"
  by (simp add: float_ok_def float_limit_def)

lemma exit_start_ok: "exit_ok conf env exited \<Longrightarrow> start_list_ok [exit_start conf env exited]"
  by (simp add: exit_ok_def start_list_ok_def start_message_ok_def pending_ints_ok_def exit_start_def
      two_float_ok) (simp add: in_int64_def)

context quiet_externals begin

lemma saved_exit:
  assumes "SavePendingStartMessages ex store [m] w = (None, w1)" and "start_list_ok [m]"
  shows "pending_starts store (entries w1) = (pending_starts store (entries w))(PendingStartMessage_StoreKey m \<mapsto> m)"
proof -
  have "starts.message_keys_ok [m]" using assms(2) by (simp add: starts.message_keys_ok_def start_list_ok_def)
  then show ?thesis
    using starts.save_stored [OF assms(1) [unfolded pending_op_defs]] by (simp add: start_dir_eq)
qed

lemma exit_sent:
  assumes "SavePendingStartMessages ex store [m] w = (None, w1)" and "start_list_ok [m]"
    and "Send ex ch chm store now apps [m] [] (new_sender conf) w1 = (None, s', w2)"
    and "start_due apps now m" and "0 < SenderMessageLimit conf" and "SenderMessageLimit conf < 2 ^ 63"
    and "in_int64 (Unix now)"
  shows "pending_starts store (entries w2) = (pending_starts store (entries w))
     (PendingStartMessage_StoreKey m := if kept m then Some (mark now m) else None)"
proof -
  have "sentStartMessages s' = starts_sent conf apps now 0 (SortStartMessagesByPriority ch [m])"
    using Send_sent_starts [OF assms(3)] assms(6) by (simp add: new_sender_def)
  moreover have "SortStartMessagesByPriority ch [m] = [m]"
    by (metis mset_SortStartMessagesByPriority mset_single_iff_right mset.simps)
  ultimately have sent: "sentStartMessages s' = [m]"
    using assms(4,5) by (simp add: starts_sent_Cons starts_sent_def)
  have "pending_starts store (entries w2) =
      after_send PendingStartMessage_StoreKey (start_obsolete apps now) now [m] [m] (pending_starts store (entries w1))"
    using Send_stored [OF assms(3,6,7,2)] sent by (simp add: stop_list_ok_def)
  also have "\<dots> = (pending_starts store (entries w))
     (PendingStartMessage_StoreKey m := if kept m then Some (mark now m) else None)"
    by (rule ext) (auto simp: after_send_def saved_exit [OF assms(1,2)])
  finally show ?thesis .
qed

lemma exit_stale:
  assumes "SavePendingStartMessages ex store [m] w = (None, w1)" and "start_list_ok [m]"
    and "Send ex ch chm store now apps [m] [] (new_sender conf) w1 = (r, s', w2)"
    and "VerifyFreshness ex store now w1 = (Some e, w3)"
  shows "pending_starts store (entries w2) = (pending_starts store (entries w))(PendingStartMessage_StoreKey m \<mapsto> m)"
  using stale_Send [OF assms(3,4)] saved_exit [OF assms(1,2)] by simp

end

end
