(* ===== verification/Listener_Properties.thy ===== *)
theory Listener_Properties imports Store_Properties Store_Evacuation Evacuator begin

text \<open>
  The properties of the listeners and of the evacuator: no heartbeat is lost, which instances are
  started elsewhere, what a failed write leaves behind, and how many starts one process sends.
\<close>

subsection \<open>Evacuating instances\<close>

text \<open>
  C31. \<open>SyncHeartbeats\<close> returns, each once, exactly the instances that the latest heartbeat of their
  DEA reports as evacuating and that were not cached as evacuating or crashed before, whatever the
  store answers: an instance is handed out on the transition only.
\<close>

theorem SyncHeartbeats_evacuates:
  assumes "loadCache ex now store w = (None, store1, w1)" and "cache_ok store1"
    and "reports_ok (cached store1) (latest incoming)"
    and "SyncHeartbeats ex now ch incoming store w = ((evac, err), store', w')"
  shows "distinct (map hb_InstanceGuid evac) \<and> set evac =
     {i. \<exists>hb\<in>set (latest incoming). i \<in> set (InstanceHeartbeats hb) \<and> evacuates (cached store1) i}"
proof -
  have ok: "reports_ok (cached store1) (processed ch incoming)" using assms(3) by (simp add: processed_latest)
  have evac: "evac = evacuated (cached store1) (processed ch incoming)"
    by (rule SyncHeartbeats_evac [OF assms(1,2) ok assms(4)])
  have "distinct (map hb_InstanceGuid (evacuated c hbs))" if "distinct (concat (map report_guids hbs))" for c hbs
    using that by (induction hbs) (auto simp: evacuated_def report_guids_def distinct_map_filter)
  moreover have "set (evacuated (cached store1) (processed ch incoming)) =
      {i. \<exists>hb\<in>set (latest incoming). i \<in> set (InstanceHeartbeats hb) \<and> evacuates (cached store1) i}"
    by (auto simp: evacuated_def processed_latest)
  ultimately show ?thesis using ok by (simp add: evac reports_ok_def)
qed

definition leaving_report :: Heartbeat where
  "leaving_report = \<lparr>DeaGuid = ''dea'', InstanceHeartbeats =
     [sample_heartbeat ''a'' 0 InstanceStateEvacuating, sample_heartbeat ''b'' 1 InstanceStateRunning]\<rparr>"

lemma leaving_facts:
  "latest [leaving_report] = [leaving_report]"
  "reports_ok (cached loaded_store) (latest [leaving_report])"
  by (simp_all add: latest_def latestHeartbeats_def mput_def reports_ok_def report_ok_def report_guids_def
      leaving_report_def sample_heartbeat_def loaded_store_def sample_store_def NewStore_def)

theorem SyncHeartbeats_evacuates_witness:
  "set (fst (fst (SyncHeartbeats mem_externals (time_Unix 1000) (\<lambda>_. 0) [leaving_report] sample_store empty_memory))) =
     {sample_heartbeat ''a'' 0 InstanceStateEvacuating}"
proof -
  obtain evac err store' w' where run:
    "SyncHeartbeats mem_externals (time_Unix 1000) (\<lambda>_. 0) [leaving_report] sample_store empty_memory =
       ((evac, err), store', w')" by (metis prod.collapse)
  have "evacuates (cached loaded_store) (sample_heartbeat ''a'' 0 InstanceStateEvacuating)"
    "\<not> evacuates (cached loaded_store) (sample_heartbeat ''b'' 1 InstanceStateRunning)"
    by (simp_all add: evacuates_def sample_heartbeat_def loaded_store_def sample_store_def NewStore_def state_defs)
  then show ?thesis
    using SyncHeartbeats_evacuates [OF sample_sync_facts(1,2) leaving_facts(2) run] run
    unfolding leaving_facts(1) by (auto simp: leaving_report_def)
qed

subsection \<open>A failed write\<close>

text \<open>
  C32. When a pass cannot write its heartbeats and the freshness was revoked, the pass leaves the
  actual state not fresh at any time, and the instances it found evacuating are not started: its
  sender refuses to send.
\<close>

theorem failed_pass_revokes:
  assumes "quiet_externals ex entries" and "hbs \<noteq> []"
    and "SyncHeartbeats ex (pe_store_now env) (pe_choice env) hbs (ys_store y) w = ((evac, Some err), store, w1)"
    and "RevokeActualFreshness ex store w1 = (None, w2)"
    and "sync_pass ex env hbs y w = (y', w')"
  shows "fst (VerifyFreshness ex (ys_store y') now w') \<noteq> None
    \<and> sentStartMessages (ys_sender y') = sentStartMessages (ys_sender y)"
proof -
  note failed = quiet_externals.sync_pass_failed [OF assms(1,3,4,2,5)]
  have "entries w' (freshness_key store) = None"
    using quiet_externals.revoked_entry [OF assms(1,4)] failed(1) by simp
  then show ?thesis
    using quiet_externals.missing_not_fresh [OF assms(1)] failed(2,3) by simp
qed

definition failing_memory :: memory where
  "failing_memory = fresh_memory\<lparr>mem_entries :=
     (''/hm/v0/dea-presence/dea'', Directory) # mem_entries fresh_memory\<rparr>"

definition sample_env :: pass_env where
  "sample_env = \<lparr>pe_start = time_Unix 1000, pe_store_now = time_Unix 1000, pe_saved = time_Unix 1001,
     pe_bump = time_Unix 1001, pe_message = (\<lambda>_. time_Unix 1001), pe_guid = (\<lambda>_. ''id''),
     pe_send = time_Unix 1002, pe_choice = (\<lambda>_. 0)\<rparr>"

definition sample_syncer :: syncer where
  "sample_syncer = NewSyncer defaults sample_store (new_sender defaults)"

definition sample_pass :: "memory \<Rightarrow> syncer \<times> memory" where
  "sample_pass w = sync_pass mem_externals sample_env [leaving_report] sample_syncer w"

theorem failed_pass_revokes_witness:
  "fst (VerifyFreshness mem_externals (ys_store (fst (sample_pass failing_memory))) (time_Unix 2000)
     (snd (sample_pass failing_memory))) \<noteq> None"
proof -
  let ?run = "SyncHeartbeats mem_externals (time_Unix 1000) (\<lambda>_. 0) [leaving_report] sample_store failing_memory"
  have failed: "snd (fst ?run) = Some (StoreError (ErrorOther ''directory''))" by code_simp
  have revoked: "fst (RevokeActualFreshness mem_externals (fst (snd ?run)) (snd (snd ?run))) = None" by code_simp
  have run: "SyncHeartbeats mem_externals (pe_store_now sample_env) (pe_choice sample_env) [leaving_report]
      (ys_store sample_syncer) failing_memory =
        ((fst (fst ?run), Some (StoreError (ErrorOther ''directory''))), fst (snd ?run), snd (snd ?run))"
    unfolding failed [symmetric] by (simp add: sample_env_def sample_syncer_def NewSyncer_def)
  have revoke: "RevokeActualFreshness mem_externals (fst (snd ?run)) (snd (snd ?run)) =
      (None, snd (RevokeActualFreshness mem_externals (fst (snd ?run)) (snd (snd ?run))))"
    using revoked by (simp add: prod_eq_iff)
  have pass: "sync_pass mem_externals sample_env [leaving_report] sample_syncer failing_memory =
      (fst (sample_pass failing_memory), snd (sample_pass failing_memory))" by (simp add: sample_pass_def)
  show ?thesis
    using failed_pass_revokes [OF quiet_memory.quiet_externals_axioms _ run revoke pass] by simp
qed

subsection \<open>The loop of the syncer\<close>

text \<open>
  C30. No heartbeat is lost or passed on twice: at any moment, whatever the listeners, the loop and
  other processes do in whatever order, the heartbeats that have arrived are those passed to a save,
  then those of the pass under way, then those waiting, in the order of their arrival.
\<close>

theorem no_heartbeat_lost:
  assumes "syncer_reaches ex (listener_start y w) l"
  shows "arrived l = passed l @ in_flight (li_phase l) @ heartbeatsToSave (li_syncer l)"
  using arrivals_kept_reaches [OF assms] by (simp add: arrivals_kept_def)

text \<open>The syncer of the samples after one heartbeat has arrived and been passed on.\<close>

definition sample_listener :: "memory listener" where
  "sample_listener = \<lparr>li_syncer = fst (sample_pass fresh_memory), li_world = snd (sample_pass fresh_memory),
     li_phase = Selecting, run_returned = False, arrived = [leaving_report], passed = [leaving_report]\<rparr>"

lemma sample_listener_reached: "syncer_reaches mem_externals (listener_start sample_syncer fresh_memory) sample_listener"
proof -
  define l0 where "l0 = listener_start sample_syncer fresh_memory"
  define l1 where "l1 = l0\<lparr>li_syncer := Syncer_Heartbeat leaving_report (li_syncer l0), arrived := arrived l0 @ [leaving_report]\<rparr>"
  define l2 where "l2 = l1\<lparr>li_phase := Saving (heartbeatsToSave (li_syncer l1)),
    li_syncer := (li_syncer l1)\<lparr>heartbeatsToSave := []\<rparr>\<rparr>"
  have l2: "li_phase l2 = Saving [leaving_report]" "li_syncer l2 = sample_syncer" "li_world l2 = fresh_memory"
    by (simp_all add: l2_def l1_def l0_def listener_start_def Syncer_Heartbeat_def sample_syncer_def NewSyncer_def)
  have "syncer_step mem_externals l0 l1" unfolding l1_def by (rule arrive)
  moreover have "syncer_step mem_externals l1 l2"
    unfolding l2_def by (rule collect) (simp add: l1_def l0_def listener_start_def)
  moreover have "syncer_step mem_externals l2 sample_listener"
  proof -
    have "sync_pass mem_externals sample_env [leaving_report] (li_syncer l2) (li_world l2) =
        (fst (sample_pass fresh_memory), snd (sample_pass fresh_memory))"
      by (simp add: l2 sample_pass_def)
    from syncer_step.pass [OF l2(1) this] show ?thesis
      by (simp add: sample_listener_def l2_def l1_def l0_def listener_start_def sample_syncer_def NewSyncer_def)
  qed
  ultimately have "(syncer_step mem_externals)\<^sup>*\<^sup>* l0 sample_listener"
    by (meson converse_rtranclp_into_rtranclp rtranclp.rtrancl_refl)
  then show ?thesis by (simp add: syncer_reaches_def l0_def)
qed

theorem no_heartbeat_lost_witness:
  "[leaving_report] = passed sample_listener @ in_flight (li_phase sample_listener) @
     heartbeatsToSave (li_syncer sample_listener)"
  using no_heartbeat_lost [OF sample_listener_reached] by (simp add: sample_listener_def)

text \<open>
  C36. The control channel does not end the loop: from every reachable state, also after \<open>Run\<close> has
  returned, the loop can go on until every heartbeat that has arrived is passed to a save.
\<close>

theorem listener_keeps_saving:
  assumes "syncer_reaches ex (listener_start y w) l"
  shows "\<exists>l'. syncer_reaches ex l l' \<and> passed l' = arrived l \<and> run_returned l' = run_returned l"
  using all_passed [OF arrivals_kept_reaches [OF assms]] .

theorem listener_keeps_saving_witness:
  "\<exists>l'. syncer_reaches mem_externals sample_listener l' \<and> passed l' = [leaving_report] \<and> \<not> run_returned l'"
  using listener_keeps_saving [OF sample_listener_reached] by (simp add: sample_listener_def)

text \<open>
  C37. All passes of one process share a sender whose count is never reset: however long the
  listener runs, it sends at most \<open>SenderMessageLimit\<close> starts of evacuating instances in total.
\<close>

theorem listener_send_budget:
  assumes "syncer_reaches ex (listener_start (NewSyncer conf store (new_sender conf)) w) l"
    and "SenderMessageLimit conf < 2 ^ 63"
  shows "int (length (sentStartMessages (ys_sender (li_syncer l)))) \<le> max 0 (SenderMessageLimit conf)"
  using within_budget_reaches [OF assms] by (simp add: within_budget_def sender_budget_def)

theorem listener_send_budget_witness:
  "int (length (sentStartMessages (ys_sender (li_syncer sample_listener)))) \<le> 60"
  using listener_send_budget [OF sample_listener_reached [unfolded sample_syncer_def]] by (simp add: defaults_def)

subsection \<open>The evacuator\<close>

text \<open>
  C33. After a DEA reported that a droplet exited because it evacuates, and the start message was
  saved, the message is pending: marked as sent when sending it reported no error, and unsent when
  the actual state is not fresh, so that it is sent later. It is sent without a look at any app.
\<close>

theorem exit_start_pending:
  assumes "quiet_externals ex entries" and "evacuation_reason exited" and "exit_ok conf env exited"
    and "SavePendingStartMessages ex store [exit_start conf env exited] w = (None, w1)"
    and "Send ex (xe_choice env) (xe_choice env) store (xe_send env) [] [exit_start conf env exited] []
           (new_sender conf) w1 = (r, s', w2)"
    and "r = None \<or> fst (VerifyFreshness ex store (xe_send env) w1) \<noteq> None"
    and "Unix (xe_now env) \<le> Unix (xe_send env)" and "in_int64 (Unix (xe_send env))"
    and "GracePeriod conf \<noteq> 0" and "0 < SenderMessageLimit conf" and "SenderMessageLimit conf < 2 ^ 63"
  shows "pending_starts store (entries (handleExited ex env conf store exited w)) =
     (pending_starts store (entries w))(PendingStartMessage_StoreKey (exit_start conf env exited) \<mapsto>
        (if r = None then mark (xe_send env) (exit_start conf env exited) else exit_start conf env exited))"
proof -
  let ?m = "exit_start conf env exited"
  note ok = exit_start_ok [OF assms(3)]
  have "kept ?m" using assms(9) by (simp add: kept_def exit_start_def)
  note world = handleExited_cases [OF assms(2,4,5)]
  show ?thesis
  proof (cases r)
    case None
    then show ?thesis
      using quiet_externals.exit_sent [OF assms(1,4) ok assms(5) [unfolded None] exit_start_due [OF assms(7)] assms(10,11,8)]
        \<open>kept ?m\<close> world by simp
  next
    case (Some e)
    obtain e' w3 where "VerifyFreshness ex store (xe_send env) w1 = (Some e', w3)"
      using assms(6) Some by (cases "VerifyFreshness ex store (xe_send env) w1") auto
    from quiet_externals.exit_stale [OF assms(1,4) ok assms(5) this] show ?thesis using world Some by simp
  qed
qed

definition sample_exit :: DropletExited where
  "sample_exit = zero_DropletExited\<lparr>de_AppGuid := ''app'', de_AppVersion := ''v1'', de_InstanceIndex := 1,
     de_Reason := DropletExitedReasonDEAEvacuation\<rparr>"

definition sample_exit_env :: exit_env where
  "sample_exit_env = \<lparr>xe_now = time_Unix 1000, xe_guid = ''id'', xe_send = time_Unix 1000, xe_choice = (\<lambda>_. 0)\<rparr>"

definition exit_saved :: memory where
  "exit_saved = snd (SavePendingStartMessages mem_externals sample_store
     [exit_start defaults sample_exit_env sample_exit] fresh_memory)"

theorem exit_start_pending_witness:
  "pending_starts sample_store (mem_view (handleExited mem_externals sample_exit_env defaults sample_store sample_exit
     fresh_memory)) ''app-v1-1'' =
     Some (mark (time_Unix 1000) (exit_start defaults sample_exit_env sample_exit))"
proof -
  let ?send = "Send mem_externals (\<lambda>_. 0) (\<lambda>_. 0) sample_store (time_Unix 1000) []
    [exit_start defaults sample_exit_env sample_exit] [] (new_sender defaults) exit_saved"
  have key: "PendingStartMessage_StoreKey (exit_start defaults sample_exit_env sample_exit) = ''app-v1-1''"
    by code_simp
  have "fst (SavePendingStartMessages mem_externals sample_store [exit_start defaults sample_exit_env sample_exit] fresh_memory) = None"
    by code_simp
  then have saved: "SavePendingStartMessages mem_externals sample_store [exit_start defaults sample_exit_env sample_exit] fresh_memory =
      (None, exit_saved)" by (simp add: exit_saved_def prod_eq_iff)
  have "fst ?send = None" by code_simp
  then have send: "Send mem_externals (xe_choice sample_exit_env) (xe_choice sample_exit_env) sample_store (xe_send sample_exit_env) []
      [exit_start defaults sample_exit_env sample_exit] [] (new_sender defaults) exit_saved =
        (None, fst (snd ?send), snd (snd ?send))"
    by (simp add: prod_eq_iff sample_exit_env_def)
  have ok: "exit_ok defaults sample_exit_env sample_exit" "evacuation_reason sample_exit"
    "in_int64 (Unix (xe_send sample_exit_env))" by code_simp+
  show ?thesis
    unfolding key [symmetric]
    using exit_start_pending [OF quiet_memory.quiet_externals_axioms ok(2,1) saved send _ _ ok(3)]
    by (simp add: sample_exit_env_def GracePeriod_def defaults_def)
qed

subsection \<open>The listeners\<close>

lemma map_opt_inverse:
  "(\<And>x. x \<in> set xs \<Longrightarrow> \<exists>y. f x = Some y \<and> g y = Some x) \<Longrightarrow>
   \<exists>ys. map_opt f xs = Some ys \<and> map_opt g ys = Some xs"
proof (induction xs)
  case (Cons x xs)
  obtain y where "f x = Some y" "g y = Some x" using Cons.prems [of x] by auto
  moreover obtain ys where "map_opt f xs = Some ys" "map_opt g ys = Some xs" using Cons by auto
  ultimately show ?case by simp
qed simp

definition heartbeat_ok :: "Heartbeat \<Rightarrow> bool" where
  "heartbeat_ok hb \<longleftrightarrow> (\<forall>h\<in>set (InstanceHeartbeats hb).
     in_int64 (hb_InstanceIndex h) \<and> float_ok (hb_StateTimestamp h) \<and> hb_DeaGuid h = DeaGuid hb)"

lemma InstanceHeartbeat_json_inverse:
  assumes "in_int64 (hb_InstanceIndex h)" and "float_ok (hb_StateTimestamp h)"
  shows "\<exists>j. InstanceHeartbeat_json h = Some j \<and> NewInstanceHeartbeatFromJSON (Doc j) = Some h"
proof -
  obtain j where "InstanceHeartbeat_json h = Some j"
    using enc_float_roundtrip [OF assms(2)] by (auto simp: InstanceHeartbeat_json_def)
  then show ?thesis using InstanceHeartbeat_json_roundtrip [OF assms] by (simp add: InstanceHeartbeat_ToJSON_def marshal_def)
qed

lemma Heartbeat_json_roundtrip:
  assumes "heartbeat_ok hb"
  shows "\<exists>j. Heartbeat_ToJSON hb = Doc j \<and> NewHeartbeatFromJSON (Doc j) = Some hb"
proof -
  obtain js where js: "map_opt InstanceHeartbeat_json (InstanceHeartbeats hb) = Some js"
    "map_opt (NewInstanceHeartbeatFromJSON \<circ> Doc) js = Some (InstanceHeartbeats hb)"
    using map_opt_inverse [of "InstanceHeartbeats hb" InstanceHeartbeat_json "NewInstanceHeartbeatFromJSON \<circ> Doc"]
      InstanceHeartbeat_json_inverse assms by (auto simp: heartbeat_ok_def)
  have "map (\<lambda>h. h\<lparr>hb_DeaGuid := DeaGuid hb\<rparr>) (InstanceHeartbeats hb) = InstanceHeartbeats hb"
    using assms by (intro map_idI) (auto simp: heartbeat_ok_def)
  then show ?thesis
    using js by (simp add: Heartbeat_ToJSON_def marshal_def NewHeartbeatFromJSON_def decode_Heartbeat_def
        fold_eq_def lower_def)
qed



end
