(* ===== verification/App_State_Api.thy ===== *)
theory App_State_Api
  imports Store_Apps Store_Freshness "HOL-Library.Char_ord" "HOL-Library.List_Lexorder"
begin

text \<open>
  \<open>apiserver/handlers/bulk_app_state.go\<close>: the handler that answers with the actual state of the apps it
  is asked for. Routing and the check of the password are done by libraries in front of it.
\<close>

subsection \<open>An app as JSON\<close>

text \<open>
  The crash counts come in the order of the range over the map. A heartbeat whose timestamp has no
  JSON text makes \<open>Marshal\<close> fail, whose error is dropped, so that \<open>MarshalJSON\<close> returns no text.
\<close>

definition app_json :: "choice \<Rightarrow> App \<Rightarrow> json option" where
  "app_json ch a =
     (case map_opt InstanceHeartbeat_json (app_InstanceHeartbeats a) of
        None \<Rightarrow> None
      | Some heartbeats \<Rightarrow> Some (JObj
          [(''droplet'', JStr (app_AppGuid a)), (''version'', JStr (app_AppVersion a)),
           (''instance_heartbeats'', JArr heartbeats),
           (''crash_counts'', JArr (map (\<lambda>(i, c). CrashCount_json c) (go_range ch (app_CrashCounts a))))]))"

definition App_ToJSON :: "choice \<Rightarrow> App \<Rightarrow> bytes" where
  "App_ToJSON ch a = marshal (app_json ch a)"

subsection \<open>The handler\<close>

record AppStateRequest =
  rq_AppGuid :: string
  rq_AppVersion :: string

definition decode_AppStateRequest :: "(string \<times> json) list \<Rightarrow> AppStateRequest option" where
  "decode_AppStateRequest fs = do {
     guid \<leftarrow> jfield jstr ''droplet'' [] fs;
     version \<leftarrow> jfield jstr ''version'' [] fs;
     Some \<lparr>rq_AppGuid = guid, rq_AppVersion = version\<rparr> }"

definition decode_requests :: "bytes \<Rightarrow> AppStateRequest list option" where
  "decode_requests bodyBytes =
     unmarshal_slice (unmarshal_struct decode_AppStateRequest \<lparr>rq_AppGuid = [], rq_AppVersion = []\<rparr>) bodyBytes"

text \<open>Apps that cannot be read are left out; of two with the same guid the later one stays.\<close>

fun lookup_apps :: "'w externals \<Rightarrow> (nat \<Rightarrow> time) \<Rightarrow> nat \<Rightarrow> AppStateRequest list \<Rightarrow> (string, App) gomap
    \<Rightarrow> RealStore \<Rightarrow> 'w \<Rightarrow> (string, App) gomap \<times> RealStore \<times> 'w" where
  "lookup_apps ex clock n [] apps store w = (apps, store, w)"
| "lookup_apps ex clock n (request # requests) apps store w =
     (case GetApp ex (clock n) (rq_AppGuid request) (rq_AppVersion request) store w of
        (Inl err, store1, w1) \<Rightarrow> lookup_apps ex clock (Suc n) requests apps store1 w1
      | (Inr app, store1, w1) \<Rightarrow>
          lookup_apps ex clock (Suc n) requests (mput (app_AppGuid app) app apps) store1 w1)"

text \<open>\<open>Marshal\<close> sorts the keys of a map and fails when the text of one app is empty.\<close>

definition apps_json :: "choice \<Rightarrow> (string, App) gomap \<Rightarrow> json option" where
  "apps_json ch apps = map_option JObj
     (map_opt (\<lambda>(g, a). map_option (\<lambda>j. (g, j)) (app_json ch a)) (sort_key fst apps))"

definition empty_answer :: bytes where "empty_answer = Doc (JObj [])"

text \<open>
  What is written, one element per call of \<open>Write\<close>. The body is what could be read of it, with the
  error that ended the reading; after such an error the handler goes on.
\<close>

definition bulk_ServeHTTP :: "'w externals \<Rightarrow> choice \<Rightarrow> time \<Rightarrow> (nat \<Rightarrow> time) \<Rightarrow> string option \<Rightarrow> bytes \<Rightarrow> RealStore \<Rightarrow> 'w
    \<Rightarrow> bytes list \<times> RealStore \<times> 'w" where
  "bulk_ServeHTTP ex ch now clock readError bodyBytes store w =
     (let written = (case readError of Some err \<Rightarrow> [empty_answer] | None \<Rightarrow> []) in
      case decode_requests bodyBytes of
        None \<Rightarrow> (written @ [empty_answer], store, w)
      | Some requests \<Rightarrow>
          (case VerifyFreshness ex store now w of
             (Some err, w1) \<Rightarrow> (written @ [empty_answer], store, w1)
           | (None, w1) \<Rightarrow>
               (case lookup_apps ex clock 0 requests [] store w1 of
                  (apps, store', w2) \<Rightarrow> (written @ [marshal (apps_json ch apps)], store', w2))))"

subsection \<open>Which apps are in the answer\<close>

text \<open>\<open>found_run ex clock n rs store w as store' w'\<close>: the requests \<open>rs\<close>, one after the other, find the apps \<open>as\<close>.\<close>

inductive found_run :: "'w externals \<Rightarrow> (nat \<Rightarrow> time) \<Rightarrow> nat \<Rightarrow> AppStateRequest list \<Rightarrow> RealStore \<Rightarrow> 'w
    \<Rightarrow> App list \<Rightarrow> RealStore \<Rightarrow> 'w \<Rightarrow> bool"
  for ex :: "'w externals" and clock :: "nat \<Rightarrow> time" where
  found_end: "found_run ex clock n [] store w [] store w"
| found_not: "GetApp ex (clock n) (rq_AppGuid r) (rq_AppVersion r) store w = (Inl err, store1, w1) \<Longrightarrow>
     found_run ex clock (Suc n) rs store1 w1 as store' w' \<Longrightarrow> found_run ex clock n (r # rs) store w as store' w'"
| found_app: "GetApp ex (clock n) (rq_AppGuid r) (rq_AppVersion r) store w = (Inr a, store1, w1) \<Longrightarrow>
     found_run ex clock (Suc n) rs store1 w1 as store' w' \<Longrightarrow> found_run ex clock n (r # rs) store w (a # as) store' w'"

lemma lookup_apps_found:
  assumes "lookup_apps ex clock n rs apps store w = (apps', store', w')"
  shows "\<exists>as. found_run ex clock n rs store w as store' w'
    \<and> (\<forall>g. map_of apps' g = (case find (\<lambda>a. app_AppGuid a = g) (rev as) of Some a \<Rightarrow> Some a | None \<Rightarrow> map_of apps g))
    \<and> (gomap_ok apps \<longrightarrow> gomap_ok apps')"
  using assms
proof (induction rs arbitrary: n apps store w)
  case Nil
  then show ?case using found_end [of ex clock n store w] by fastforce
next
  case (Cons r rs)
  have app: "find P (xs @ ys) = (case find P xs of None \<Rightarrow> find P ys | Some x \<Rightarrow> Some x)" for P and xs ys :: "App list"
    by (induction xs) auto
  obtain res store1 w1 where get: "GetApp ex (clock n) (rq_AppGuid r) (rq_AppVersion r) store w = (res, store1, w1)"
    by (metis prod.collapse)
  show ?case
  proof (cases res)
    case (Inl e)
    with get Cons.prems have "lookup_apps ex clock (Suc n) rs apps store1 w1 = (apps', store', w')" by simp
    from Cons.IH [OF this] show ?thesis using found_not get Inl by fast
  next
    case (Inr a)
    with get Cons.prems have "lookup_apps ex clock (Suc n) rs (mput (app_AppGuid a) a apps) store1 w1 = (apps', store', w')"
      by simp
    from Cons.IH [OF this] obtain as where as: "found_run ex clock (Suc n) rs store1 w1 as store' w'"
      "\<forall>g. map_of apps' g = (case find (\<lambda>a. app_AppGuid a = g) (rev as) of Some a \<Rightarrow> Some a
        | None \<Rightarrow> map_of (mput (app_AppGuid a) a apps) g)"
      "gomap_ok (mput (app_AppGuid a) a apps) \<longrightarrow> gomap_ok apps'" by blast
    have "map_of apps' g = (case find (\<lambda>a. app_AppGuid a = g) (rev (a # as)) of Some a \<Rightarrow> Some a | None \<Rightarrow> map_of apps g)" for g
      using as(2) by (auto simp: app split: option.splits)
    moreover have "found_run ex clock n (r # rs) store w (a # as) store' w'"
      using found_app [OF get [unfolded Inr] as(1)] .
    ultimately show ?thesis using as(3) by auto
  qed
qed

end
