(* ===== verification/Component_Runner.thy ===== *)
theory Component_Runner imports Store_Compact begin

text \<open>
  \<open>hm/ifrit.go\<close>: the loop that runs the action of a component again and again, and \<open>shredder/\<close>, whose
  action is a compaction of the store.

  The action runs in a goroutine of its own; the loop waits for its end, the timeout or a signal, and
  then for the rest of the polling interval or a signal. The result of the action is dropped. The two
  timers are started together at the head of the loop; the channel of a timer is ready from its
  deadline on, and a \<open>select\<close> takes any ready channel.
\<close>

subsection \<open>The shredder\<close>

definition Shred :: "'w externals \<Rightarrow> RealStore \<Rightarrow> 'w \<Rightarrow> hm_error option \<times> 'w" where
  "Shred ex store w = Compact ex store w"

subsection \<open>The loop\<close>

record Component =
  co_component :: string
  co_pollingInterval :: duration
  co_timeout :: duration

datatype run_phase =
    Acting time
  | Resting time
  | Returned "string option"
  | Panicked

record run_state =
  ru_phase :: run_phase
  ru_now :: time
  ru_starts :: "time list"
  ru_finished :: nat

text \<open>Making a ticker with a timeout that is not positive panics, before the action is started.\<close>

definition start_iteration :: "Component \<Rightarrow> run_state \<Rightarrow> run_state" where
  "start_iteration hm s =
     (if co_timeout hm \<le> 0 then s\<lparr>ru_phase := Panicked\<rparr>
      else s\<lparr>ru_phase := Acting (ru_now s), ru_starts := ru_starts s @ [ru_now s]\<rparr>)"

inductive run_step :: "Component \<Rightarrow> run_state \<Rightarrow> run_state \<Rightarrow> bool" for hm :: Component where
  time_passes: "0 \<le> d \<Longrightarrow> run_step hm s (s\<lparr>ru_now := ru_now s + d\<rparr>)"
| action_ends: "ru_phase s = Acting t \<Longrightarrow>
     run_step hm s (s\<lparr>ru_phase := Resting t, ru_finished := Suc (ru_finished s)\<rparr>)"
| timed_out: "ru_phase s = Acting t \<Longrightarrow> t + co_timeout hm \<le> ru_now s \<Longrightarrow>
     run_step hm s (s\<lparr>ru_phase := Returned (Some (co_component hm @ '' timed out. Aborting!''))\<rparr>)"
| signal_acting: "ru_phase s = Acting t \<Longrightarrow> run_step hm s (s\<lparr>ru_phase := Returned None\<rparr>)"
| signal_resting: "ru_phase s = Resting t \<Longrightarrow> run_step hm s (s\<lparr>ru_phase := Returned None\<rparr>)"
| next_iteration: "ru_phase s = Resting t \<Longrightarrow> t + co_pollingInterval hm \<le> ru_now s \<Longrightarrow>
     run_step hm s (start_iteration hm s)"

inductive_cases run_stepE: "run_step hm s s'"

definition run_start :: "Component \<Rightarrow> time \<Rightarrow> run_state" where
  "run_start hm now = start_iteration hm \<lparr>ru_phase = Panicked, ru_now = now, ru_starts = [], ru_finished = 0\<rparr>"

definition run_reaches :: "Component \<Rightarrow> time \<Rightarrow> run_state \<Rightarrow> bool" where
  "run_reaches hm now s \<longleftrightarrow> (run_step hm)\<^sup>*\<^sup>* (run_start hm now) s"

subsection \<open>Invariants\<close>

definition spaced :: "duration \<Rightarrow> time list \<Rightarrow> bool" where
  "spaced d ts \<longleftrightarrow> (\<forall>i. Suc i < length ts \<longrightarrow> ts ! i + d \<le> ts ! Suc i)"

lemma spaced_snoc:
  assumes "spaced d ts" and "ts \<noteq> [] \<Longrightarrow> last ts + d \<le> t"
  shows "spaced d (ts @ [t])"
  unfolding spaced_def
proof (intro allI impI)
  fix i assume i: "Suc i < length (ts @ [t])"
  show "(ts @ [t]) ! i + d \<le> (ts @ [t]) ! Suc i"
  proof (cases "Suc i < length ts")
    case False
    then have "i = length ts - 1" "ts \<noteq> []" using i by auto
    then show ?thesis using assms(2) by (simp add: nth_append last_conv_nth)
  qed (use assms(1) in \<open>simp add: nth_append spaced_def\<close>)
qed

text \<open>One action is unfinished while one runs, none while the loop rests.\<close>

definition run_inv :: "Component \<Rightarrow> run_state \<Rightarrow> bool" where
  "run_inv hm s \<longleftrightarrow> spaced (co_pollingInterval hm) (ru_starts s) \<and>
     (case ru_phase s of
        Acting t \<Rightarrow> ru_starts s \<noteq> [] \<and> last (ru_starts s) = t \<and> t \<le> ru_now s
          \<and> length (ru_starts s) = Suc (ru_finished s)
      | Resting t \<Rightarrow> ru_starts s \<noteq> [] \<and> last (ru_starts s) = t \<and> t \<le> ru_now s
          \<and> length (ru_starts s) = ru_finished s
      | Returned r \<Rightarrow> length (ru_starts s) \<le> Suc (ru_finished s)
          \<and> (r \<noteq> None \<longrightarrow> length (ru_starts s) = Suc (ru_finished s)
               \<and> last (ru_starts s) + co_timeout hm \<le> ru_now s)
      | Panicked \<Rightarrow> co_timeout hm \<le> 0)"

lemma run_inv_start: "run_inv hm (run_start hm now)"
  by (simp add: run_inv_def run_start_def start_iteration_def spaced_def)

lemma run_inv_step: "run_step hm s s' \<Longrightarrow> run_inv hm s \<Longrightarrow> run_inv hm s'"
proof (induction rule: run_step.induct)
  case (next_iteration s t)
  then have "spaced (co_pollingInterval hm) (ru_starts s @ [ru_now s])"
    by (intro spaced_snoc) (auto simp: run_inv_def)
  then show ?case using next_iteration by (auto simp: run_inv_def start_iteration_def)
next
  case (time_passes d s)
  then show ?case by (auto simp: run_inv_def split: run_phase.splits)
qed (auto simp: run_inv_def)

lemma run_reaches_inv: "run_reaches hm now s \<Longrightarrow> run_inv hm s"
  unfolding run_reaches_def by (induction rule: rtranclp_induct) (simp_all add: run_inv_start run_inv_step)

end
