(* ===== verification/Service_Properties.thy ===== *)
theory Service_Properties imports App_State_Api Component_Runner Samples begin

text \<open>The properties of the API handler and of the loop that runs a component.\<close>

subsection \<open>The bulk handler\<close>


definition sample_requests :: bytes where
  "sample_requests = Doc (JArr [JObj [(''droplet'', JStr ''app''), (''version'', JStr ''v1'')],
     JObj [(''droplet'', JStr ''other''), (''version'', JStr ''v1'')]])"

definition sample_answer :: "memory \<Rightarrow> bytes list \<times> RealStore \<times> memory" where
  "sample_answer w = bulk_ServeHTTP mem_externals (\<lambda>_. 0) (time_Unix 1000) (\<lambda>_. time_Unix 1000) None sample_requests sample_store w"


text \<open>
  A request that is no list of apps, or meets a store that is not fresh, is answered with the
  empty object and reads no app; a body that could not be read is answered with one more empty
  object in front, because the handler goes on.
\<close>

theorem bulk_refuses:
  assumes "decode_requests body = None \<or> fst (VerifyFreshness ex store now w) \<noteq> None"
    and "bulk_ServeHTTP ex ch now clock readError body store w = (out, store', w')"
  shows "out = (if readError = None then [empty_answer] else [empty_answer, empty_answer]) \<and> store' = store
    \<and> w' = (if decode_requests body = None then w else snd (VerifyFreshness ex store now w))"
  using assms by (cases "VerifyFreshness ex store now w") (auto simp: bulk_ServeHTTP_def Let_def split: option.splits)

theorem bulk_refuses_witness:
  "fst (sample_answer empty_memory) = [empty_answer]"
proof -
  have "fst (VerifyFreshness mem_externals sample_store (time_Unix 1000) empty_memory) \<noteq> None" by code_simp
  then show ?thesis
    using bulk_refuses [of sample_requests mem_externals sample_store "time_Unix 1000" empty_memory "\<lambda>_. 0"
        "\<lambda>_. time_Unix 1000" None] by (metis prod.collapse sample_answer_def)
qed

subsection \<open>The loop of a component\<close>

text \<open>
  C40. The loop never runs two actions at once and starts them at least the polling interval apart;
  it returns an error only while an action is unfinished whose timeout has passed since its start.
\<close>

theorem actions_are_spaced:
  assumes "run_reaches hm now s"
  shows "spaced (co_pollingInterval hm) (ru_starts s) \<and> length (ru_starts s) \<le> Suc (ru_finished s)
    \<and> (\<forall>r. ru_phase s = Returned (Some r) \<longrightarrow>
         length (ru_starts s) = Suc (ru_finished s) \<and> last (ru_starts s) + co_timeout hm \<le> ru_now s)
    \<or> ru_phase s = Panicked \<and> co_timeout hm \<le> 0"
  using run_reaches_inv [OF assms] by (auto simp: run_inv_def split: run_phase.splits)

definition sample_component :: Component where
  "sample_component = \<lparr>co_component = ''analyzer'', co_pollingInterval = 10 * second, co_timeout = 600 * second\<rparr>"

lemma sample_rounds:
  "run_reaches sample_component 0 \<lparr>ru_phase = Acting (12 * second), ru_now = 12 * second,
     ru_starts = [0, 12 * second], ru_finished = 1\<rparr>"
proof -
  let ?s = "\<lambda>p t starts n. \<lparr>ru_phase = p, ru_now = t, ru_starts = starts, ru_finished = n\<rparr>"
  have "run_step sample_component (?s (Acting 0) 0 [0] 0) (?s (Resting 0) 0 [0] 1)"
    using action_ends [of "?s (Acting 0) 0 [0] 0" 0 sample_component] by simp
  moreover have "run_step sample_component (?s (Resting 0) 0 [0] 1) (?s (Resting 0) (12 * second) [0] 1)"
    using time_passes [of "12 * second" sample_component "?s (Resting 0) 0 [0] 1"] by (simp add: second_def)
  moreover have "run_step sample_component (?s (Resting 0) (12 * second) [0] 1)
      (?s (Acting (12 * second)) (12 * second) [0, 12 * second] 1)"
    using next_iteration [of "?s (Resting 0) (12 * second) [0] 1" 0 sample_component]
    by (simp add: sample_component_def start_iteration_def second_def)
  moreover have "run_start sample_component 0 = ?s (Acting 0) 0 [0] 0"
    by (simp add: run_start_def start_iteration_def sample_component_def second_def)
  ultimately show ?thesis
    unfolding run_reaches_def by (metis (no_types, lifting) converse_rtranclp_into_rtranclp rtranclp.rtrancl_refl)
qed

theorem actions_are_spaced_witness: "spaced (10 * second) [0, 12 * second]"
  using actions_are_spaced [OF sample_rounds] by (simp add: sample_component_def)

end
