(* ===== verification/Go_Format.thy ===== *)
theory Go_Format imports Go_Strings begin

text \<open>
  The formatting functions of \<open>strconv\<close>, \<open>fmt\<close>, \<open>time\<close> and \<open>net/url\<close> behind the store metrics, the
  dump of the store and the connection strings: a number with a fixed number of decimals, a duration,
  and the escaping of the parts of a URL. \<open>fmt1\<close> of \<open>Go_Strings\<close> is the case of one decimal.
\<close>

subsection \<open>A fixed number of decimals\<close>

definition zero_padded :: "nat \<Rightarrow> nat \<Rightarrow> string" where
  "zero_padded p n = replicate (p - length (digits_of n)) CHR ''0'' @ digits_of n"

text \<open>\<open>FormatFloat(x, 'f', p, 64)\<close> and the verb \<open>%.pf\<close>, for \<open>p > 0\<close>: the nearest multiple of
  \<open>10 ^ -p\<close>, ties to even.\<close>

fun format_fixed :: "nat \<Rightarrow> float64 \<Rightarrow> string" where
  "format_fixed p (Num r) =
     (let n = nat (round_half_even (10 ^ p * \<bar>r\<bar>)) in
      (if r < 0 then ''-'' else []) @ digits_of (n div 10 ^ p) @ ''.'' @ zero_padded p (n mod 10 ^ p))"
| "format_fixed p PosInf = ''+Inf''"
| "format_fixed p NegInf = ''-Inf''"
| "format_fixed p NaN = ''NaN''"

text \<open>The number that is printed.\<close>

definition round_fixed :: "nat \<Rightarrow> rat \<Rightarrow> rat" where
  "round_fixed p r = (if r < 0 then -1 else 1) * (of_int (round_half_even (10 ^ p * \<bar>r\<bar>)) / 10 ^ p)"

lemma round_half_even_near: "\<bar>of_int (round_half_even r) - r\<bar> \<le> 1 / 2"
proof -
  have "of_int \<lfloor>r\<rfloor> \<le> r" "r < of_int \<lfloor>r\<rfloor> + 1" by linarith+
  then show ?thesis by (simp add: round_half_even_def Let_def)
qed

lemma round_fixed_near: "\<bar>round_fixed p r - r\<bar> \<le> 1 / (2 * 10 ^ p)"
proof -
  let ?s = "if r < 0 then -1 else 1 :: rat" and ?n = "of_int (round_half_even (10 ^ p * \<bar>r\<bar>)) :: rat"
  have "r = ?s * \<bar>r\<bar>" by simp
  then have "round_fixed p r - r = ?s * (?n / 10 ^ p - \<bar>r\<bar>)"
    by (simp add: round_fixed_def right_diff_distrib split: if_splits)
  also have "\<dots> = ?s * ((?n - 10 ^ p * \<bar>r\<bar>) / 10 ^ p)" by (simp add: field_simps)
  finally have "\<bar>round_fixed p r - r\<bar> = \<bar>?n - 10 ^ p * \<bar>r\<bar>\<bar> / 10 ^ p"
    by (simp add: abs_mult abs_divide)
  also have "\<dots> \<le> (1 / 2) / 10 ^ p"
    by (intro divide_right_mono round_half_even_near) simp
  finally show ?thesis by simp
qed

lemma nat_of_digits_concat: "nat_of_digits (s @ t) = nat_of_digits s * 10 ^ length t + nat_of_digits t"
proof (induction t rule: rev_induct)
  case (snoc c t)
  then show ?case by (simp add: algebra_simps flip: append_assoc)
qed (simp add: nat_of_digits_def)

lemma nat_of_zeros [simp]: "nat_of_digits (replicate k CHR ''0'') = 0"
  by (induction k) (simp_all add: nat_of_digits_def digit_val_def)

lemma length_digits_of: "0 < p \<Longrightarrow> n < 10 ^ p \<Longrightarrow> length (digits_of n) \<le> p"
proof (induction n arbitrary: p rule: digits_of.induct)
  case (1 n)
  show ?case
  proof (cases "n < 10")
    case True
    then show ?thesis using 1(2) by simp
  next
    case False
    then obtain q where q: "p = Suc q" "0 < q" using 1(2,3) by (cases p; cases "p - 1") auto
    then have "length (digits_of (n div 10)) \<le> q"
      using 1(1) [OF False, of q] 1(3) by (simp add: less_mult_imp_div_less mult.commute)
    then show ?thesis using False q by (subst digits_of.simps) simp
  qed
qed

lemma zero_padded_facts:
  assumes "0 < p" and "n < 10 ^ p"
  shows "length (zero_padded p n) = p" and "nat_of_digits (zero_padded p n) = n"
    and "list_all is_digit (zero_padded p n)"
proof -
  show "length (zero_padded p n) = p"
    using length_digits_of [OF assms] by (simp add: zero_padded_def)
  show "nat_of_digits (zero_padded p n) = n"
    by (simp add: zero_padded_def nat_of_digits_concat)
  show "list_all is_digit (zero_padded p n)"
    using digits_of_digits [of _ n] by (auto simp: zero_padded_def list_all_iff is_digit_def)
qed

lemma takeWhile_all_digits: "list_all is_digit s \<Longrightarrow> takeWhile is_digit s = s \<and> dropWhile is_digit s = []"
  by (simp add: list_all_iff)

lemma parse_decimal_fixed:
  assumes "0 < p" and "d < 10 ^ p"
  shows "parse_decimal (digits_of i @ ''.'' @ zero_padded p d) = Some (of_nat (i * 10 ^ p + d) / 10 ^ p)"
proof -
  note z = zero_padded_facts [OF assms]
  have "nat_of_digits (digits_of i @ zero_padded p d) = i * 10 ^ p + d"
    using z by (simp add: nat_of_digits_concat)
  then show ?thesis
    using z(1) takeWhile_all_digits [OF z(3)]
    by (simp add: parse_decimal_def Let_def del: of_nat_add of_nat_mult of_nat_power takeWhile_eq_all_conv dropWhile_eq_Nil_conv)
qed

text \<open>Reading back what was printed gives the rounded number.\<close>

lemma parse_float_fixed:
  assumes "0 < p" and "\<bar>round_fixed p r\<bar> < float_limit"
  shows "parse_float (format_fixed p (Num r)) = Some (Num (round_fixed p r))"
proof -
  define k where "k = round_half_even (10 ^ p * \<bar>r\<bar>)"
  define n where "n = nat k"
  let ?t = "''.'' @ zero_padded p (n mod 10 ^ p)"
  have k0: "0 \<le> k" by (simp add: k_def round_half_even_nonneg)
  have kn: "of_int k = (of_nat n :: rat)" using k0 by (simp add: n_def)
  obtain c s where cs: "digits_of (n div 10 ^ p) = c # s" and c: "is_digit c"
    using digits_of_Cons by blast
  have "parse_decimal (digits_of (n div 10 ^ p) @ ?t)
      = Some (of_nat (n div 10 ^ p * 10 ^ p + n mod 10 ^ p) / 10 ^ p)"
    by (rule parse_decimal_fixed [OF assms(1)]) simp
  then have dec: "parse_decimal (digits_of (n div 10 ^ p) @ ?t) = Some (of_nat n / 10 ^ p)"
    by (simp only: div_mult_mod_eq)
  have fmt: "format_fixed p (Num r) = (if r < 0 then ''-'' else []) @ digits_of (n div 10 ^ p) @ ?t"
    by (simp only: format_fixed.simps n_def k_def Let_def)
  have nc: "c \<noteq> CHR ''-''" "c \<noteq> CHR ''+''" using c by auto
  show ?thesis
  proof (cases "r < 0")
    case True
    then have r: "round_fixed p r = - (of_nat n / 10 ^ p)" by (simp add: round_fixed_def k_def flip: kn)
    have "format_fixed p (Num r) = CHR ''-'' # c # (s @ ?t)"
      using True by (simp add: fmt cs del: length_digit format_fixed.simps)
    then show ?thesis
      using number_not_special(4-6) [OF c, of "s @ ?t"] dec assms r
      by (simp add: parse_float.simps [of "CHR ''-'' # _"] finite_float_def cs Let_def
          del: length_digit list.map insert_iff)
  next
    case False
    then have r: "round_fixed p r = of_nat n / 10 ^ p" by (simp add: round_fixed_def k_def flip: kn)
    have "format_fixed p (Num r) = c # (s @ ?t)"
      using False by (simp add: fmt cs del: length_digit format_fixed.simps)
    then show ?thesis
      using number_not_special(1-3) [OF c, of "s @ ?t"] dec assms r nc
      by (simp add: parse_float.simps [of "c # _"] finite_float_def cs Let_def
          del: length_digit list.map insert_iff)
  qed
qed

lemma parse_float_special:
  "parse_float (format_fixed p PosInf) = Some PosInf"
  "parse_float (format_fixed p NegInf) = Some NegInf"
  "parse_float (format_fixed p NaN) = Some NaN"
  by (simp_all add: parse_float.simps) (code_simp)+

lemma format_fixed_one: "format_fixed 1 x = fmt1 x"
  by (cases x) (simp_all add: zero_padded_def Let_def)

subsection \<open>Durations\<close>

text \<open>Trailing zeros of a string of digits are dropped, and the point when nothing is left.\<close>

definition fraction :: "nat \<Rightarrow> nat \<Rightarrow> string" where
  "fraction p n =
     (let ds = rev (dropWhile (\<lambda>c. c = CHR ''0'') (rev (zero_padded p n)))
      in if ds = [] then [] else CHR ''.'' # ds)"

text \<open>\<open>Duration.String\<close>: below a second the largest unit that leaves an integral part, above it hours,
  minutes and seconds. The micro sign is the two bytes of its encoding.\<close>

definition duration_string :: "duration \<Rightarrow> string" where
  "duration_string d =
     (let u = nat \<bar>d\<bar>; secs = u div 10 ^ 9; frac = fraction 9 (u mod 10 ^ 9);
          body =
            (if u = 0 then ''0s''
             else if u < 10 ^ 3 then digits_of u @ ''ns''
             else if u < 10 ^ 6 then digits_of (u div 10 ^ 3) @ fraction 3 (u mod 10 ^ 3) @ [CHR 0xC2, CHR 0xB5, CHR ''s'']
             else if u < 10 ^ 9 then digits_of (u div 10 ^ 6) @ fraction 6 (u mod 10 ^ 6) @ ''ms''
             else if secs < 60 then digits_of secs @ frac @ ''s''
             else if secs < 3600 then digits_of (secs div 60) @ ''m'' @ digits_of (secs mod 60) @ frac @ ''s''
             else digits_of (secs div 3600) @ ''h'' @ digits_of (secs div 60 mod 60) @ ''m''
                  @ digits_of (secs mod 60) @ frac @ ''s'')
      in (if d < 0 then ''-'' else []) @ body)"

subsection \<open>Conversion to an integer\<close>

text \<open>
  The fraction is cut off; what becomes of a number without a 64-bit integer depends on the machine and is
  the argument \<open>unrep\<close>.
\<close>

definition int_of_float :: "int \<Rightarrow> float64 \<Rightarrow> int" where
  "int_of_float unrep x =
     (case x of
        Num r \<Rightarrow> (let n = (if 0 \<le> r then floor r else ceiling r) in if in_int64 n then n else unrep)
      | _ \<Rightarrow> unrep)"

subsection \<open>Escaping in URLs\<close>

definition hex_digit :: "nat \<Rightarrow> char" where
  "hex_digit n = ''0123456789ABCDEF'' ! n"

definition escape_byte :: "char \<Rightarrow> string" where
  "escape_byte c = [CHR ''%'', hex_digit (of_char c div 16), hex_digit (of_char c mod 16)]"

definition is_alnum :: "char \<Rightarrow> bool" where
  "is_alnum c \<longleftrightarrow> is_digit c \<or> (let n = (of_char c :: nat) in 65 \<le> n \<and> n \<le> 90 \<or> 97 \<le> n \<and> n \<le> 122)"

definition escape_with :: "string \<Rightarrow> string \<Rightarrow> string" where
  "escape_with safe s =
     concat (map (\<lambda>c. if is_alnum c \<or> c \<in> set safe then [c] else escape_byte c) s)"

text \<open>What \<open>net/url\<close> leaves as it is in user information and in a host.\<close>

definition escape_user :: "string \<Rightarrow> string" where
  "escape_user = escape_with ''-_.~$&+,;=''"

definition escape_host :: "string \<Rightarrow> string" where
  "escape_host = escape_with (''-_.~!$&()*+,;=:[]<>'' @ [CHR 0x22, CHR 0x27])"

end
