(* ===== verification/Store_Metrics.thy ===== *)
theory Store_Metrics imports Go_Format Store_Core begin

text \<open>
  \<open>store/metrics.go\<close>: a metric in the store, written with five decimals and read back as a number.
\<close>

definition metric_key :: "RealStore \<Rightarrow> string \<Rightarrow> string" where
  "metric_key store metric = SchemaRoot store @ ''/metrics/'' @ metric"

definition SaveMetric :: "'w externals \<Rightarrow> RealStore \<Rightarrow> string \<Rightarrow> float64 \<Rightarrow> 'w \<Rightarrow> hm_error option \<times> 'w" where
  "SaveMetric ex store metric value w =
     store_result (ad_SetMulti ex [leaf_node (metric_key store metric) (Raw (format_fixed 5 value)) 0] w)"

text \<open>The number comes with an error: \<open>-1\<close> when the store answers with one; zero when the text is not
  a number, and the infinity of its sign when the number is too large.\<close>

definition parse_overflow :: "string \<Rightarrow> float64" where
  "parse_overflow s =
     (case s of
        [] \<Rightarrow> Num 0
      | c # r \<Rightarrow>
          (case (if c = CHR ''-'' \<or> c = CHR ''+'' then parse_decimal r else parse_decimal s) of
             None \<Rightarrow> Num 0
           | Some m \<Rightarrow> if c = CHR ''-'' then NegInf else PosInf))"

definition GetMetric :: "'w externals \<Rightarrow> RealStore \<Rightarrow> string \<Rightarrow> 'w \<Rightarrow> (float64 \<times> hm_error option) \<times> 'w" where
  "GetMetric ex store metric w =
     (case ad_Get ex (metric_key store metric) w of
        (Inl err, w') \<Rightarrow> ((Num (- 1), Some (StoreError err)), w')
      | (Inr node, w') \<Rightarrow>
          (case parse_float (raw_text (sn_Value node)) of
             None \<Rightarrow> ((parse_overflow (raw_text (sn_Value node)), Some DecodeError), w')
           | Some value \<Rightarrow> ((value, None), w')))"

text \<open>What five decimals leave of a value.\<close>

fun five_decimals :: "float64 \<Rightarrow> float64" where
  "five_decimals (Num r) = Num (round_fixed 5 r)"
| "five_decimals x = x"

definition metric_ok :: "float64 \<Rightarrow> bool" where
  "metric_ok x \<longleftrightarrow> (case x of Num r \<Rightarrow> \<bar>round_fixed 5 r\<bar> < float_limit | _ \<Rightarrow> True)"

lemma parse_metric: "metric_ok x \<Longrightarrow> parse_float (format_fixed 5 x) = Some (five_decimals x)"
  by (cases x) (simp_all add: metric_ok_def parse_float_fixed parse_float_special del: format_fixed.simps)

context kv_adapter
begin

lemma metric_written:
  assumes "SaveMetric ex store metric value w = (None, w')"
  shows "entries w' (metric_key store metric) = Some (File (Raw (format_fixed 5 value)))"
    and "k \<noteq> metric_key store metric \<Longrightarrow> \<not> below k (metric_key store metric) \<Longrightarrow> entries w' k = entries w k"
  using assms set_one by (simp_all add: SaveMetric_def)

lemma metric_read:
  assumes "entries w (metric_key store metric) = Some (File (Raw (format_fixed 5 value)))" and "metric_ok value"
    and "GetMetric ex store metric w = ((v, err), w')"
  shows "w' = w \<and> (err = None \<longrightarrow> v = five_decimals value) \<and> (\<forall>e. err = Some e \<longrightarrow> (\<exists>se. e = StoreError se \<and> se \<noteq> ErrorKeyNotFound))"
proof (cases "ad_Get ex (metric_key store metric) w")
  case (Pair r w1)
  show ?thesis
  proof (cases r)
    case (Inl e)
    then show ?thesis using Pair assms get_error [OF Pair [unfolded Inl]] by (auto simp: GetMetric_def)
  next
    case (Inr n)
    have "w1 = w" "sn_Value n = Raw (format_fixed 5 value)"
      using get_ok [OF Pair [unfolded Inr]] assms(1) by auto
    then show ?thesis using Pair Inr assms(2,3) by (auto simp: GetMetric_def parse_metric)
  qed
qed

end

end
