(* ===== verification/Store_Typed.thy ===== *)
theory Store_Typed imports Sender_Store Store_Actual_Facts Store_Apps Store_Compact Store_Metrics begin

text \<open>
  The type of the store. A key below the schema root is the path of its components, and the path
  says what the program expects to read there: a start or stop message of that key, the heartbeat of
  an instance, a crash count, the time stamp of the freshness. A store is typed when every entry is of
  the type of its path.

  Writing nodes of the type of their paths keeps a store typed, whether the write succeeds or fails
  half way, and so does every deletion. In a typed store each reading operation fails only when the
  adapter does.
\<close>

subsection \<open>Paths\<close>

definition path_at :: "RealStore \<Rightarrow> string list \<Rightarrow> string" where
  "path_at store cs = SchemaRoot store @ concat (map (\<lambda>c. ''/'' @ c) cs)"

definition proper_path :: "string list \<Rightarrow> bool" where
  "proper_path cs \<longleftrightarrow> (\<forall>c\<in>set cs. proper_key c)"

lemma proper_path_simps [simp]:
  "proper_path []" "proper_path (c # cs) \<longleftrightarrow> proper_key c \<and> proper_path cs"
  by (auto simp: proper_path_def)

lemma path_prefix:
  assumes "proper_path ds" and "proper_path cs" and "concat (map (\<lambda>c. ''/'' @ c) cs) = concat (map (\<lambda>c. ''/'' @ c) ds) @ x"
    and "x = [] \<or> hd x = CHR ''/''"
  shows "prefix ds cs \<and> (x = [] \<longrightarrow> cs = ds)"
  using assms
proof (induction ds arbitrary: cs)
  case Nil
  then show ?case by (cases cs) auto
next
  case (Cons d ds)
  obtain c cs' where cs: "cs = c # cs'" using Cons.prems(3) by (cases cs) auto
  let ?p = "\<lambda>cs. concat (map (\<lambda>c. ''/'' @ c) cs)"
  have eq: "c @ ?p cs' = d @ ?p ds @ x" using Cons.prems(3) by (simp add: cs)
  have split: "takeWhile (\<lambda>a. a \<noteq> CHR ''/'') (a @ y) = a \<and> dropWhile (\<lambda>a. a \<noteq> CHR ''/'') (a @ y) = y"
    if "proper_key a" "y = [] \<or> hd y = CHR ''/''" for a y
  proof -
    have "\<forall>b\<in>set a. b \<noteq> CHR ''/''" using that(1) by (auto simp: proper_key_def)
    then show ?thesis using that(2) by (cases y) (simp_all add: takeWhile_append2 dropWhile_append2)
  qed
  have "?p cs' = [] \<or> hd (?p cs') = CHR ''/''" by (cases cs') auto
  moreover have "?p ds @ x = [] \<or> hd (?p ds @ x) = CHR ''/''" using Cons.prems(4) by (cases ds) auto
  ultimately have "c = d \<and> ?p cs' = ?p ds @ x"
    using split [of c "?p cs'"] split [of d "?p ds @ x"] Cons.prems(1,2) unfolding cs eq
    by (simp only: proper_path_simps)
  then show ?case using Cons.IH [of cs'] Cons.prems by (simp add: cs)
qed

lemma path_at_inject [simp]: "proper_path cs \<Longrightarrow> proper_path ds \<Longrightarrow> path_at store cs = path_at store ds \<longleftrightarrow> cs = ds"
  using path_prefix [of ds cs "[]"] by (auto simp: path_at_def)

lemma below_at:
  assumes "proper_path cs" and "proper_path ds" and "below (path_at store ds) (path_at store cs)"
  shows "strict_prefix ds cs"
proof -
  obtain x where "concat (map (\<lambda>c. ''/'' @ c) cs) = concat (map (\<lambda>c. ''/'' @ c) ds) @ CHR ''/'' # x"
    using assms(3) by (auto simp: below_def prefix_def path_at_def)
  then show ?thesis using path_prefix [OF assms(2,1), of "CHR ''/'' # x"] by (auto simp: strict_prefix_def)
qed

text \<open>What follows the root in a key is a path, whatever it holds.\<close>

lemma split_on_proper: "proper_path (split_on CHR ''/'' s)"
  by (induction s) (auto simp: proper_path_def proper_key_def split: list.splits)

lemma path_at_split: "path_at store (cs @ split_on CHR ''/'' s) = path_at store cs @ ''/'' @ s"
proof -
  have "concat (map (\<lambda>c. ''/'' @ c) (split_on CHR ''/'' s)) = ''/'' @ s"
    by (induction s) (auto split: list.splits)
  then show ?thesis by (simp add: path_at_def)
qed

subsection \<open>The type of a path\<close>

definition is_fresh_path :: "RealStore \<Rightarrow> string \<Rightarrow> bool" where
  "is_fresh_path store f \<longleftrightarrow> ActualFreshnessKey (st_config store) = ''/'' @ f"

definition file_is :: "(bytes \<Rightarrow> bool) \<Rightarrow> entry \<Rightarrow> bool" where
  "file_is P e = (case e of File v \<Rightarrow> P v | Directory \<Rightarrow> False)"

definition start_value :: "string \<Rightarrow> bytes \<Rightarrow> bool" where
  "start_value x v = (case NewPendingStartMessageFromJSON v of
     None \<Rightarrow> False | Some m \<Rightarrow> PendingStartMessage_StoreKey m = x)"

definition stop_value :: "string \<Rightarrow> bytes \<Rightarrow> bool" where
  "stop_value x v = (case NewPendingStopMessageFromJSON v of
     None \<Rightarrow> False | Some m \<Rightarrow> PendingStopMessage_StoreKey m = x)"

definition heartbeat_value :: "string \<Rightarrow> bytes \<Rightarrow> bool" where
  "heartbeat_value k v = (case parse_heartbeat_node (leaf_node k v 0) of Inl _ \<Rightarrow> False | Inr _ \<Rightarrow> True)"

definition crash_value :: "string \<Rightarrow> string \<Rightarrow> bytes \<Rightarrow> bool" where
  "crash_value a i v = (case NewCrashCountFromJSON v of
     None \<Rightarrow> False
   | Some c \<Rightarrow> AppKey (cc_AppGuid c) (cc_AppVersion c) = a \<and> itoa (cc_InstanceIndex c) = i)"

fun path_typed :: "RealStore \<Rightarrow> string list \<Rightarrow> entry \<Rightarrow> bool" where
  "path_typed store [f] e \<longleftrightarrow> (is_fresh_path store f \<longrightarrow> file_is (\<lambda>v. FreshnessTimestampFromJSON v \<noteq> None) e)"
| "path_typed store [d, x] e \<longleftrightarrow>
     (d = ''start'' \<longrightarrow> file_is (start_value x) e) \<and> (d = ''stop'' \<longrightarrow> file_is (stop_value x) e)"
| "path_typed store [d, s, a, i] e \<longleftrightarrow>
     (d = ''apps'' \<and> s = ''actual'' \<longrightarrow> file_is (heartbeat_value (path_at store [d, s, a, i])) e)
   \<and> (d = ''apps'' \<and> s = ''crashes'' \<longrightarrow> file_is (crash_value a i) e)"
| "path_typed store _ e \<longleftrightarrow> True"

definition store_typed :: "RealStore \<Rightarrow> (string \<Rightarrow> entry option) \<Rightarrow> bool" where
  "store_typed store es \<longleftrightarrow>
     (\<forall>cs e. proper_path cs \<longrightarrow> es (path_at store cs) = Some e \<longrightarrow> path_typed store cs e)"

lemma store_typed_empty [simp]: "store_typed store (\<lambda>_. None)"
  by (simp add: store_typed_def)

lemma store_typedD: "store_typed store es \<Longrightarrow> proper_path cs \<Longrightarrow> es (path_at store cs) = Some e \<Longrightarrow> path_typed store cs e"
  by (simp add: store_typed_def)

text \<open>Only the configuration of the client counts.\<close>

lemma path_at_config: "st_config s = st_config t \<Longrightarrow> path_at s = path_at t"
  by (simp add: path_at_def SchemaRoot_def fun_eq_iff)

lemma path_typed_config: "st_config s = st_config t \<Longrightarrow> path_typed s cs e = path_typed t cs e"
  using path_at_config [of s t] by (induction s cs e rule: path_typed.induct) (simp_all add: is_fresh_path_def)

lemma store_typed_config: "st_config s = st_config t \<Longrightarrow> store_typed s = store_typed t"
  using path_at_config [of s t] path_typed_config [of s t] by (simp add: store_typed_def fun_eq_iff)

subsection \<open>Typed nodes\<close>

text \<open>The key of a node is a path of its type below which nothing else is expected.\<close>

definition node_typed :: "RealStore \<Rightarrow> store_node \<Rightarrow> bool" where
  "node_typed store n \<longleftrightarrow>
     (\<exists>cs. proper_path cs \<and> sn_Key n = path_at store cs \<and> path_typed store cs (File (sn_Value n))
         \<and> (\<forall>ds. strict_prefix ds cs \<longrightarrow> path_typed store ds Directory))"

lemma node_typedI:
  "proper_path cs \<Longrightarrow> path_typed store cs (File v) \<Longrightarrow> (\<And>ds. strict_prefix ds cs \<Longrightarrow> path_typed store ds Directory)
   \<Longrightarrow> node_typed store (leaf_node (path_at store cs) v ttl)"
  by (auto simp: node_typed_def)

text \<open>The key of the freshness is one component, and not one of the directories.\<close>

definition fresh_key_ok :: "Config \<Rightarrow> bool" where
  "fresh_key_ok conf \<longleftrightarrow>
     (case ActualFreshnessKey conf of
        [] \<Rightarrow> False
      | c # f \<Rightarrow> c = CHR ''/'' \<and> proper_key f
          \<and> f \<notin> {''start'', ''stop'', ''apps'', ''dea-presence'', ''metrics''})"

lemma fresh_key_okE:
  assumes "fresh_key_ok (st_config store)"
  obtains f where "ActualFreshnessKey (st_config store) = ''/'' @ f" "proper_key f" "freshness_key store = path_at store [f]"
    "\<And>g. is_fresh_path store g \<longleftrightarrow> g = f" "f \<notin> {''start'', ''stop'', ''apps'', ''dea-presence'', ''metrics''}"
proof -
  obtain f where "ActualFreshnessKey (st_config store) = ''/'' @ f" "proper_key f"
    "f \<notin> {''start'', ''stop'', ''apps'', ''dea-presence'', ''metrics''}"
    using assms by (auto simp: fresh_key_ok_def split: list.splits)
  then show thesis
    by (intro that [of f]) (auto simp: freshness_key_def path_at_def is_fresh_path_def)
qed

lemma fresh_key_defaults: "fresh_key_ok defaults"
  by (simp add: fresh_key_ok_def defaults_def proper_key_def)

text \<open>No directory of the program is where the freshness is.\<close>

lemma not_fresh_path [simp]:
  assumes "fresh_key_ok (st_config store)"
  shows "\<not> is_fresh_path store ''start''" "\<not> is_fresh_path store ''stop''" "\<not> is_fresh_path store ''apps''"
    "\<not> is_fresh_path store ''dea-presence''" "\<not> is_fresh_path store ''metrics''"
  using assms by (auto simp: fresh_key_ok_def is_fresh_path_def)

lemma directories_typed:
  assumes "fresh_key_ok (st_config store)" and "d \<in> {''start'', ''stop'', ''apps'', ''dea-presence'', ''metrics''}"
  shows "path_typed store [d] e"
  using assms(2) not_fresh_path [OF assms(1)] by auto

lemma strict_prefix_Cons2: "strict_prefix ds (c # cs) \<longleftrightarrow> ds = [] \<or> (\<exists>es. ds = c # es \<and> strict_prefix es cs)"
  by (cases ds) auto


context kv_adapter begin

lemma set_keeps_type:
  assumes "store_typed store (entries w)" and "\<forall>n\<in>set ns. node_typed store n"
    and "ad_SetMulti ex ns w = (r, w')"
  shows "store_typed store (entries w')"
  unfolding store_typed_def
proof (intro allI impI)
  fix cs e assume cs: "proper_path cs" and e: "entries w' (path_at store cs) = Some e"
  consider "entries w' (path_at store cs) = entries w (path_at store cs)"
    | n where "n \<in> set ns" "sn_Key n = path_at store cs" "entries w' (path_at store cs) = Some (File (sn_Value n))"
    | n where "n \<in> set ns" "below (path_at store cs) (sn_Key n)" "entries w' (path_at store cs) = Some Directory"
    using set_multi_any [OF assms(3), of "path_at store cs"] by blast
  then show "path_typed store cs e"
  proof cases
    case 1
    then show ?thesis using store_typedD [OF assms(1) cs] e by simp
  next
    case 2
    then show ?thesis using assms(2) cs e by (auto simp: node_typed_def)
  next
    case 3
    then show ?thesis using assms(2) cs e below_at by (fastforce simp: node_typed_def)
  qed
qed

lemma delete_keeps_type:
  assumes "store_typed store (entries w)" and "ad_Delete ex ks w = (r, w')"
  shows "store_typed store (entries w')"
  unfolding store_typed_def
proof (intro allI impI)
  fix cs e assume cs: "proper_path cs" and e: "entries w' (path_at store cs) = Some e"
  have "entries w (path_at store cs) = Some e" using delete_shrinks [OF assms(2), of "path_at store cs"] e by auto
  then show "path_typed store cs e" by (rule store_typedD [OF assms(1) cs])
qed

end

subsection \<open>What the components write\<close>

definition start_typed :: "PendingStartMessage \<Rightarrow> bool" where
  "start_typed m \<longleftrightarrow> start_message_ok m \<and> proper_key (PendingStartMessage_StoreKey m)"

definition stop_typed :: "PendingStopMessage \<Rightarrow> bool" where
  "stop_typed m \<longleftrightarrow> pending_ints_ok m \<and> proper_key (PendingStopMessage_StoreKey m)"

definition instance_typed :: "InstanceHeartbeat \<Rightarrow> bool" where
  "instance_typed h \<longleftrightarrow> proper_heartbeat h \<and> csv_ok h"

definition crash_typed :: "CrashCountRec \<Rightarrow> bool" where
  "crash_typed c \<longleftrightarrow> crash_count_ok c \<and> proper_key (cc_AppGuid c) \<and> proper_key (cc_AppVersion c)"

lemma proper_key_append [simp]: "proper_key (a @ b) \<longleftrightarrow> proper_key a \<and> proper_key b"
  "proper_key [] " "proper_key (c # a) \<longleftrightarrow> c \<noteq> CHR ''/'' \<and> proper_key a"
  by (auto simp: proper_key_def)

lemma proper_key_itoa [simp]: "proper_key (itoa n)"
  by (simp add: proper_key_def)

lemma proper_AppKey [simp]: "proper_key (AppKey g v) \<longleftrightarrow> proper_key g \<and> proper_key v"
  by (simp add: AppKey_def)

lemma start_key_proper: "proper_key (PendingStartMessage_StoreKey m) \<longleftrightarrow> proper_key (AppGuid m) \<and> proper_key (AppVersion m)"
  by (simp add: PendingStartMessage_StoreKey_def)

lemma split_on_parts: "w \<in> set (split_on c s) \<Longrightarrow> set w \<subseteq> set s"
  by (induction s arbitrary: w) (force split: if_splits list.splits)+

lemma split_path:
  assumes "proper_key a" and "proper_key i"
  shows "\<exists>xs. split_on CHR ''/'' (path_at store [d, s, a, i]) = xs @ [a, i]"
proof -
  have "path_at store [d, s, a, i] = (SchemaRoot store @ ''/'' @ d @ ''/'' @ s) @ CHR ''/'' # (a @ CHR ''/'' # i)"
    by (simp add: path_at_def)
  then show ?thesis using assms by (simp only: split_on_concat) (simp add: proper_key_def)
qed

lemma parse_path:
  assumes "proper_key a" and "proper_key i" and "sn_Key n = path_at store [d, s, a, i]"
  shows "parse_heartbeat_node n =
    (let parts = split_on CHR '','' a in
     if length parts < 2 then Inl IndexPanic
     else case NewInstanceHeartbeatFromCSV (parts ! 0) (parts ! 1) i (raw_text (sn_Value n)) of
            Inl err \<Rightarrow> Inl (CsvError err) | Inr h \<Rightarrow> Inr h)"
proof -
  obtain xs where "split_on CHR ''/'' (path_at store [d, s, a, i]) = xs @ [a, i]"
    using split_path [OF assms(1,2)] by blast
  then show ?thesis using assms(3) by (simp add: parse_heartbeat_node_def nth_append Let_def)
qed

lemma split_on_AppKey: "\<exists>p q rest. split_on CHR '','' (AppKey g v) = p # q # rest"
proof -
  have "split_on CHR '','' (AppKey g v) = split_on CHR '','' g @ split_on CHR '','' v"
    by (simp add: AppKey_def split_on_concat)
  then show ?thesis
    by (cases "split_on CHR '','' g"; cases "tl (split_on CHR '','' g)"; cases "split_on CHR '','' v") auto
qed

lemma csv_parses:
  assumes "csv_ok h"
  shows "\<exists>h'. NewInstanceHeartbeatFromCSV g v i (InstanceHeartbeat_ToCSV h) = Inr h'"
  using InstanceHeartbeat_csv_roundtrip [of "h\<lparr>hb_AppGuid := g, hb_AppVersion := v, hb_InstanceGuid := i\<rparr>"] assms
  by (auto simp: csv_ok_def InstanceHeartbeat_ToCSV_def)

lemma heartbeat_key_path: "heartbeat_key store h =
    path_at store [''apps'', ''actual'', AppKey (hb_AppGuid h) (hb_AppVersion h), hb_InstanceGuid h]"
  by (simp add: heartbeat_key_def instanceHeartbeatStoreKey_def path_at_def)

lemma start_path: "start_dir store @ ''/'' @ x = path_at store [''start'', x]"
  and stop_path: "stop_dir store @ ''/'' @ x = path_at store [''stop'', x]"
  by (simp_all add: start_dir_def stop_dir_def path_at_def)

lemma crash_path: "crashCountStoreKey store c =
    path_at store [''apps'', ''crashes'', AppKey (cc_AppGuid c) (cc_AppVersion c), itoa (cc_InstanceIndex c)]"
  by (simp add: crashCountStoreKey_def path_at_def)

lemma file_is_File [simp]: "file_is P (File v) = P v" "\<not> file_is P Directory"
  by (simp_all add: file_is_def)

lemma start_node_typed:
  assumes "fresh_key_ok (st_config store)" and "start_typed m"
  shows "node_typed store (leaf_node (start_dir store @ ''/'' @ PendingStartMessage_StoreKey m)
           (PendingStartMessage_ToJSON m) ttl)"
  unfolding start_path using assms
  by (intro node_typedI) (auto simp: start_typed_def start_value_def PendingStartMessage_json_roundtrip strict_prefix_Cons2)

lemma stop_node_typed:
  assumes "fresh_key_ok (st_config store)" and "stop_typed m"
  shows "node_typed store (leaf_node (stop_dir store @ ''/'' @ PendingStopMessage_StoreKey m)
           (PendingStopMessage_ToJSON m) ttl)"
  unfolding stop_path using assms
  by (intro node_typedI) (auto simp: stop_typed_def stop_value_def PendingStopMessage_json_roundtrip strict_prefix_Cons2)

lemma crash_node_typed:
  assumes "fresh_key_ok (st_config store)" and "crash_typed c"
  shows "node_typed store (leaf_node (crashCountStoreKey store c) (CrashCount_ToJSON c) ttl)"
  unfolding crash_path using assms
  by (intro node_typedI) (auto simp: crash_typed_def crash_value_def CrashCount_json_roundtrip strict_prefix_Cons2)

lemma heartbeat_node_typed:
  assumes "fresh_key_ok (st_config store)" and "instance_typed h"
  shows "node_typed store (storeNodeForInstanceHeartbeat store h)"
proof -
  let ?a = "AppKey (hb_AppGuid h) (hb_AppVersion h)" and ?i = "hb_InstanceGuid h"
  have p: "proper_key ?a" "proper_key ?i" and csv: "csv_ok h"
    using assms(2) by (simp_all add: instance_typed_def proper_heartbeat_def)
  obtain q r rest where "split_on CHR '','' ?a = q # r # rest" using split_on_AppKey by blast
  moreover obtain h' where "NewInstanceHeartbeatFromCSV q r ?i (InstanceHeartbeat_ToCSV h) = Inr h'"
    using csv_parses [OF csv] by blast
  ultimately have "heartbeat_value (path_at store [''apps'', ''actual'', ?a, ?i]) (Raw (InstanceHeartbeat_ToCSV h))"
    using parse_path [OF p, of "leaf_node (path_at store [''apps'', ''actual'', ?a, ?i]) (Raw (InstanceHeartbeat_ToCSV h)) 0"]
    by (simp add: heartbeat_value_def)
  then show ?thesis
    unfolding storeNodeForInstanceHeartbeat_def heartbeat_key_path using p assms(1)
    by (intro node_typedI) (auto simp: strict_prefix_Cons2)
qed

text \<open>The guid of a DEA may hold anything: its path only gets longer.\<close>

lemma long_path_typed:
  assumes "d \<in> {''dea-presence'', ''metrics''}"
  shows "path_typed store (d # c # cs) e"
  using assms by (cases "(store, d # c # cs, e)" rule: path_typed.cases) auto

lemma named_node_typed:
  assumes "fresh_key_ok (st_config store)" and "d \<in> {''dea-presence'', ''metrics''}"
  shows "node_typed store (leaf_node (SchemaRoot store @ ''/'' @ d @ ''/'' @ name) v ttl)"
proof -
  let ?cs = "[d] @ split_on CHR ''/'' name"
  obtain c cs where cs: "split_on CHR ''/'' name = c # cs" by (cases "split_on CHR ''/'' name") auto
  have d: "proper_key d" using assms(2) by (auto simp: proper_key_def)
  have "SchemaRoot store @ ''/'' @ d @ ''/'' @ name = path_at store ?cs"
    unfolding path_at_split by (simp add: path_at_def)
  moreover have "node_typed store (leaf_node (path_at store ?cs) v ttl)"
  proof (rule node_typedI)
    show "proper_path ?cs" using d split_on_proper [of name] by simp
    show "path_typed store ?cs (File v)" using long_path_typed [OF assms(2)] by (simp add: cs)
    fix ds assume "strict_prefix ds ?cs"
    then consider "ds = []" | "ds = [d]" | x xs where "ds = d # x # xs"
      by (cases ds; cases "tl ds") (auto simp: strict_prefix_Cons2)
    then show "path_typed store ds Directory"
    proof cases
      case 2
      then show ?thesis using directories_typed [OF assms(1), of d] assms(2) by blast
    qed (use long_path_typed [OF assms(2)] in simp_all)
  qed
  ultimately show ?thesis by simp
qed

lemma fresh_node_typed:
  assumes "fresh_key_ok (st_config store)" and "FreshnessTimestampFromJSON v \<noteq> None"
  shows "node_typed store (leaf_node (freshness_key store) v ttl)"
proof -
  obtain f where f: "proper_key f" "freshness_key store = path_at store [f]"
    using fresh_key_okE [OF assms(1)] by metis
  show ?thesis unfolding f(2) using f(1) assms(2) by (intro node_typedI) (auto simp: strict_prefix_Cons2)
qed

end
