(* ===== verification/Store_Typed_Reads.thy ===== *)
theory Store_Typed_Reads imports Store_Typed begin

text \<open>
  What can be read of a typed store. What the decoders return is within the ranges of the machine
  integers, so a value that was read can be written again; every node of a listing is of the type of
  its path; and the heartbeats that are read are exactly those in the store whose DEA is present.
\<close>

subsection \<open>What the decoders return\<close>

lemma jfield_inv:
  assumes "jfield dec k v fs = Some x" and "P v" and "\<And>j y. dec j = Some y \<Longrightarrow> P y"
  shows "P x"
  using assms(1,2)
proof (induction fs arbitrary: v)
  case (Cons kj fs)
  then show ?case by (cases kj) (auto dest: assms(3) split: if_splits option.splits)
qed simp

lemma jint_range: "jint j = Some n \<Longrightarrow> in_int64 n"
  by (cases j) (auto split: if_splits)

lemma jfloat_range: "jfloat j = Some x \<Longrightarrow> float_ok x"
  by (cases j) (auto simp: float_ok_def finite_float_def split: if_splits)

lemma zero_ranges [simp]: "in_int64 0" "float_ok (Num 0)"
  by (simp_all add: in_int64_def float_ok_def float_limit_def)

lemma jfield_ranges:
  "jfield jint k 0 fs = Some n \<Longrightarrow> in_int64 n"
  "jfield jfloat k (Num 0) fs = Some x \<Longrightarrow> float_ok x"
  by (erule jfield_inv; simp add: jint_range) (erule jfield_inv; simp add: jfloat_range)

lemma unmarshal_structE:
  assumes "unmarshal_struct dec zero b = Some x"
  obtains fs where "dec fs = Some x" | "x = zero"
  using assms by (induction dec zero b rule: unmarshal_struct.induct) auto

lemma decoded_start_ok:
  assumes "NewPendingStartMessageFromJSON v = Some m"
  shows "start_message_ok m"
  using assms unfolding NewPendingStartMessageFromJSON_def
  by (rule unmarshal_structE)
    (auto simp: decode_PendingStartMessage_def start_message_ok_def pending_ints_ok_def
      intro: jfield_ranges split: Option.bind_splits)

lemma decoded_stop_ok:
  assumes "NewPendingStopMessageFromJSON v = Some m"
  shows "pending_ints_ok m"
  using assms unfolding NewPendingStopMessageFromJSON_def
  by (rule unmarshal_structE)
    (auto simp: decode_PendingStopMessage_def pending_ints_ok_def intro: jfield_ranges split: Option.bind_splits)

lemma decoded_crash_ok:
  assumes "NewCrashCountFromJSON v = Some c"
  shows "crash_count_ok c"
  using assms unfolding NewCrashCountFromJSON_def
  by (rule unmarshal_structE)
    (auto simp: decode_CrashCount_def crash_count_ok_def intro: jfield_ranges split: Option.bind_splits)

text \<open>A heartbeat that was read from its path.\<close>

definition read_typed :: "InstanceHeartbeat \<Rightarrow> bool" where
  "read_typed h \<longleftrightarrow> proper_heartbeat h \<and> in_int64 (hb_InstanceIndex h)"

lemma parsed_typed:
  assumes "proper_key a" and "proper_key i" and "sn_Key n = path_at store [d, s, a, i]" and "parse_heartbeat_node n = Inr h"
  shows "read_typed h"
proof -
  let ?parts = "split_on CHR '','' a"
  have csv: "NewInstanceHeartbeatFromCSV (?parts ! 0) (?parts ! 1) i (raw_text (sn_Value n)) = Inr h"
    and len: "1 < length ?parts"
    using assms(4) parse_path [OF assms(1-3)] by (auto simp: Let_def split: if_splits sum.splits)
  have "proper_key (?parts ! j)" if "j < 2" for j
    using split_on_parts [of "?parts ! j" "CHR '',''" a] len that assms(1) by (auto simp: proper_key_def)
  then have "proper_heartbeat h"
    using NewInstanceHeartbeatFromCSV_fields [OF csv] assms(2) by (simp add: proper_heartbeat_def)
  moreover have "in_int64 (hb_InstanceIndex h)"
    using csv by (auto simp: NewInstanceHeartbeatFromCSV_def atoi_def Let_def split: if_splits option.splits)
  ultimately show ?thesis by (simp add: read_typed_def)
qed

subsection \<open>Pending messages\<close>

lemma file_is_message:
  "file_is (start_value k) e \<Longrightarrow> \<exists>v m. e = File v \<and> NewPendingStartMessageFromJSON v = Some m \<and> PendingStartMessage_StoreKey m = k"
  "file_is (stop_value k) e \<Longrightarrow> \<exists>v x. e = File v \<and> NewPendingStopMessageFromJSON v = Some x \<and> PendingStopMessage_StoreKey x = k"
  by (auto simp: file_is_def start_value_def stop_value_def split: entry.splits option.splits)

lemma typed_values:
  assumes "store_typed store es"
  shows "values_ok PendingStartMessage_StoreKey NewPendingStartMessageFromJSON (start_dir store) es"
    and "values_ok PendingStopMessage_StoreKey NewPendingStopMessageFromJSON (stop_dir store) es"
proof -
  have typed: "path_typed store [d, k] e" if "proper_key d" "proper_key k" "es (path_at store [d, k]) = Some e" for d k e
    using store_typedD [OF assms, of "[d, k]" e] that by simp
  have "file_is (start_value k) e" if "proper_key k" "es (path_at store [''start'', k]) = Some e" for k e
    using typed [OF _ that] by simp
  then show "values_ok PendingStartMessage_StoreKey NewPendingStartMessageFromJSON (start_dir store) es"
    unfolding values_ok_def start_path using file_is_message(1) by blast
  have "file_is (stop_value k) e" if "proper_key k" "es (path_at store [''stop'', k]) = Some e" for k e
    using typed [OF _ that] by simp
  then show "values_ok PendingStopMessage_StoreKey NewPendingStopMessageFromJSON (stop_dir store) es"
    unfolding values_ok_def stop_path using file_is_message(2) by blast
qed

subsection \<open>Heartbeats and crash counts\<close>

text \<open>What lies two levels below a directory of a listing.\<close>

lemma grandchild:
  assumes "listing_ok es n" and "sn_Dir n" and "sn_Key n = path_at store [d, s]"
    and "c \<in> set (sn_ChildNodes n)" and "g \<in> set (sn_ChildNodes c)"
  obtains a i where "proper_key a" "proper_key i" "sn_Key g = path_at store [d, s, a, i]"
    "es (sn_Key g) \<noteq> None" "listing_ok es g"
proof -
  note kids = listing_children [OF assms(1,2)]
  have "child_of (sn_Key n) (sn_Key c)" using kids(2) assms(4) by blast
  then obtain a where a: "sn_Key c = path_at store [d, s] @ ''/'' @ a" "proper_key a"
    unfolding child_of_iff assms(3) proper_key_def by blast
  have ok: "listing_ok es c" by (rule kids(3) [OF assms(4)])
  then have "sn_Dir c" using listing_file [OF ok] assms(5) by (cases "sn_Dir c") simp_all
  note c = ok this
  note kids = listing_children [OF c]
  have "child_of (sn_Key c) (sn_Key g)" "es (sn_Key g) \<noteq> None" using kids(2) assms(5) by blast+
  moreover then obtain i where "sn_Key g = sn_Key c @ ''/'' @ i" "proper_key i"
    unfolding child_of_iff proper_key_def by blast
  ultimately show thesis using that [of a i] a kids(3) [OF assms(5)] by (simp add: path_at_def)
qed

lemma child:
  assumes "listing_ok es n" and "sn_Dir n" and "sn_Key n = path_at store cs" and "c \<in> set (sn_ChildNodes n)"
  obtains i where "proper_key i" "sn_Key c = path_at store (cs @ [i])" "es (sn_Key c) \<noteq> None" "listing_ok es c"
proof -
  note kids = listing_children [OF assms(1,2)]
  have "child_of (sn_Key n) (sn_Key c)" "es (sn_Key c) \<noteq> None" using kids(2) assms(4) by blast+
  moreover then obtain i where "sn_Key c = path_at store cs @ ''/'' @ i" "proper_key i"
    unfolding child_of_iff assms(3) proper_key_def by blast
  ultimately show thesis using that [of i] kids(3) [OF assms(4)] by (simp add: path_at_def)
qed

lemma typed_node_file:
  assumes "store_typed store es" and "listing_ok es g" and "es (sn_Key g) \<noteq> None"
    and "sn_Key g = path_at store cs" and "proper_path cs" and "\<And>e. path_typed store cs e \<Longrightarrow> file_is P e"
  shows "P (sn_Value g)"
proof -
  obtain e where e: "es (sn_Key g) = Some e" using assms(3) by blast
  then have "file_is P e" using store_typedD [OF assms(1,5)] assms(4,6) by simp
  then obtain v where v: "e = File v" "P v" by (cases e) auto
  then have "\<not> sn_Dir g" using listing_dir [OF assms(2)] e by simp
  then show ?thesis using listing_file [OF assms(2)] e v by simp
qed

definition heartbeat_node :: "store_node \<Rightarrow> bool" where
  "heartbeat_node n \<longleftrightarrow> (\<exists>h. parse_heartbeat_node n = Inr h \<and> read_typed h)"

definition crash_node :: "store_node \<Rightarrow> bool" where
  "crash_node n \<longleftrightarrow> (\<exists>c. NewCrashCountFromJSON (sn_Value n) = Some c \<and> crash_typed c)"

lemma parse_leaf: "parse_heartbeat_node (leaf_node (sn_Key n) (sn_Value n) ttl) = parse_heartbeat_node n"
  by (simp only: parse_heartbeat_node_def leaf_node_simps)

lemma heartbeat_node_at:
  assumes "store_typed store es" and "listing_ok es g" and "es (sn_Key g) \<noteq> None"
    and "sn_Key g = path_at store [''apps'', ''actual'', a, i]" and "proper_key a" and "proper_key i"
  shows "heartbeat_node g"
proof -
  have "heartbeat_value (path_at store [''apps'', ''actual'', a, i]) (sn_Value g)"
    by (rule typed_node_file [OF assms(1-4)]) (use assms(5,6) in simp_all)
  then obtain h where h: "parse_heartbeat_node g = Inr h"
    using assms(4) parse_leaf [of g 0] by (auto simp: heartbeat_value_def split: sum.splits)
  then show ?thesis using parsed_typed [OF assms(5,6,4) h] by (simp add: heartbeat_node_def)
qed

lemma crash_node_at:
  assumes "store_typed store es" and "listing_ok es g" and "es (sn_Key g) \<noteq> None"
    and "sn_Key g = path_at store [''apps'', ''crashes'', a, i]" and "proper_key a" and "proper_key i"
  shows "crash_node g"
proof -
  have "crash_value a i (sn_Value g)"
    by (rule typed_node_file [OF assms(1-4)]) (use assms(5,6) in simp_all)
  then obtain c where c: "NewCrashCountFromJSON (sn_Value g) = Some c" "AppKey (cc_AppGuid c) (cc_AppVersion c) = a"
    by (auto simp: crash_value_def split: option.splits)
  then have "crash_typed c" using assms(5) decoded_crash_ok [OF c(1)] by (auto simp: crash_typed_def)
  then show ?thesis using c(1) by (simp add: crash_node_def)
qed

lemma heartbeat_nodes:
  assumes "store_typed store es" and "listing_ok es n" and "sn_Dir n" and "sn_Key n = path_at store [''apps'', ''actual'']"
    and "c \<in> set (sn_ChildNodes n)" and "g \<in> set (sn_ChildNodes c)"
  shows "heartbeat_node g"
  by (rule grandchild [OF assms(2-6)]) (rule heartbeat_node_at [OF assms(1)])

lemma crash_nodes:
  assumes "store_typed store es" and "listing_ok es n" and "sn_Dir n" and "sn_Key n = path_at store [''apps'', ''crashes'']"
    and "c \<in> set (sn_ChildNodes n)" and "g \<in> set (sn_ChildNodes c)"
  shows "crash_node g"
  by (rule grandchild [OF assms(2-6)]) (rule crash_node_at [OF assms(1)])

text \<open>The loops over nodes of the right type: every heartbeat whose DEA is present is kept.\<close>

definition node_heartbeat :: "store_node \<Rightarrow> InstanceHeartbeat" where
  "node_heartbeat n = (case parse_heartbeat_node n of Inl _ \<Rightarrow> zero_InstanceHeartbeat | Inr h \<Rightarrow> h)"

definition present :: "RealStore \<Rightarrow> store_node list \<Rightarrow> InstanceHeartbeat list" where
  "present store ns = filter (\<lambda>h. hb_DeaGuid h \<in> set (deaCache store)) (map node_heartbeat ns)"

lemma heartbeats_loop_nodes:
  "\<forall>n\<in>set ns. heartbeat_node n \<Longrightarrow>
   \<exists>ks. heartbeats_loop store ns results keys = Inr (results @ present store ns, ks)"
  by (induction store ns results keys rule: heartbeats_loop.induct)
    (auto simp: heartbeat_node_def present_def node_heartbeat_def)

lemma all_heartbeats_loop_nodes:
  "\<forall>n\<in>set ns. \<forall>c\<in>set (sn_ChildNodes n). heartbeat_node c \<Longrightarrow>
   \<exists>ks. all_heartbeats_loop store deas ns results keys =
     Inr (results @ present store (concat (map sn_ChildNodes ns)), ks)"
proof (induction store deas ns results keys rule: all_heartbeats_loop.induct)
  case (2 store deas n ns results keys)
  obtain ks where ks: "heartbeatsForNode store n deas = Inr (present store (sn_ChildNodes n), ks)"
    using heartbeats_loop_nodes [of "sn_ChildNodes n" store "[]" "[]"] "2.prems" by (auto simp: heartbeatsForNode_def)
  then show ?case using "2.IH" [OF ks refl] "2.prems" by (simp add: present_def)
qed (simp add: present_def)

lemma present_typed:
  assumes "\<forall>n\<in>set ns. heartbeat_node n" and "h \<in> set (present store ns)"
  shows "read_typed h"
  using assms by (auto simp: present_def heartbeat_node_def node_heartbeat_def)

definition node_crash :: "store_node \<Rightarrow> CrashCountRec" where
  "node_crash n = the (NewCrashCountFromJSON (sn_Value n))"

lemma crashCounts_loop_nodes:
  "\<forall>n\<in>set ns. crash_node n \<Longrightarrow> crashCounts_loop ns results = Inr (results @ map node_crash ns)"
  by (induction ns results rule: crashCounts_loop.induct) (auto simp: crash_node_def node_crash_def)

lemma all_crashCounts_loop_nodes:
  "\<forall>n\<in>set ns. \<forall>c\<in>set (sn_ChildNodes n). crash_node c \<Longrightarrow>
   all_crashCounts_loop ns results = results @ map node_crash (concat (map sn_ChildNodes ns))"
  by (induction ns results rule: all_crashCounts_loop.induct) (simp_all add: crashCountsForNode_def crashCounts_loop_nodes)

lemma node_crash_typed: "crash_node n \<Longrightarrow> crash_typed (node_crash n)"
  by (auto simp: crash_node_def node_crash_def)

subsection \<open>What is read of them\<close>

lemma GetDeaCache_result:
  "GetDeaCache ex now store w = (r, store', w') \<Longrightarrow> st_config store' = st_config store
     \<and> instanceHeartbeatCache store' = instanceHeartbeatCache store \<and> heartbeatCache store' = heartbeatCache store
     \<and> (case r of Inl e \<Rightarrow> \<exists>se. e = StoreError se | Inr deas \<Rightarrow> deas = deaCache store')"
  by (auto simp: GetDeaCache_def Let_def split: prod.splits sum.splits store_error.splits if_splits)

lemma delete_expired_result:
  "delete_expired ex keys results store w = (r, store', w') \<Longrightarrow> store' = store \<and> (\<exists>e. ad_Delete ex keys w = (e, w'))
     \<and> (r = Inr results \<or> (\<exists>se. r = Inl (StoreError se)))"
  by (auto simp: delete_expired_def split: prod.splits option.splits store_error.splits)

lemma actual_path: "SchemaRoot store @ ''/apps/actual'' = path_at store [''apps'', ''actual'']"
  and crashes_path: "SchemaRoot store @ ''/apps/crashes'' = path_at store [''apps'', ''crashes'']"
  and app_actual_path: "SchemaRoot store @ ''/apps/actual/'' @ a = path_at store [''apps'', ''actual'', a]"
  and app_crashes_path: "SchemaRoot store @ ''/apps/crashes/'' @ a = path_at store [''apps'', ''crashes'', a]"
  by (simp_all add: path_at_def)

lemma path_at_clean:
  assumes "proper_key c" and "c \<noteq> []"
  shows "clean_key (path_at store (cs @ [c])) = path_at store (cs @ [c])"
proof -
  have "last c \<noteq> CHR ''/''" using last_in_set [OF assms(2)] assms(1) by (auto simp: proper_key_def)
  then show ?thesis using assms(2) by (simp add: path_at_def clean_key_def)
qed

text \<open>The heartbeats in the store: files two levels below the directory of the actual state.\<close>

definition stored_heartbeat :: "RealStore \<Rightarrow> (string \<Rightarrow> entry option) \<Rightarrow> InstanceHeartbeat \<Rightarrow> bool" where
  "stored_heartbeat store es h \<longleftrightarrow> (\<exists>a i v. proper_key a \<and> proper_key i
     \<and> es (path_at store [''apps'', ''actual'', a]) = Some Directory
     \<and> es (path_at store [''apps'', ''actual'', a, i]) = Some (File v)
     \<and> parse_heartbeat_node (leaf_node (path_at store [''apps'', ''actual'', a, i]) v 0) = Inr h)"

lemma listed_heartbeats:
  assumes "store_typed store es" and "listing_ok es n" and "sn_Dir n" and "sn_Key n = path_at store [''apps'', ''actual'']"
  shows "h \<in> node_heartbeat ` set (concat (map sn_ChildNodes (sn_ChildNodes n))) \<longleftrightarrow> stored_heartbeat store es h"
proof
  assume "h \<in> node_heartbeat ` set (concat (map sn_ChildNodes (sn_ChildNodes n)))"
  then obtain c g where g: "c \<in> set (sn_ChildNodes n)" "g \<in> set (sn_ChildNodes c)" "h = node_heartbeat g" by auto
  obtain a where a: "proper_key a" "sn_Key c = path_at store [''apps'', ''actual'', a]" "listing_ok es c"
    by (rule child [OF assms(2-4) g(1)]) auto
  have "sn_Dir c" using listing_file [OF a(3)] g(2) by (cases "sn_Dir c") simp_all
  then have dir: "es (sn_Key c) = Some Directory" using listing_dir [OF a(3)] by simp
  obtain i where i: "proper_key i" "sn_Key g = path_at store [''apps'', ''actual'', a, i]" "listing_ok es g" "es (sn_Key g) \<noteq> None"
    by (rule child [OF a(3) \<open>sn_Dir c\<close> a(2) g(2)]) auto
  have node: "heartbeat_node g" by (rule heartbeat_nodes [OF assms g(1,2)])
  have "path_typed store [''apps'', ''actual'', a, i] e" if "es (sn_Key g) = Some e" for e
    by (rule store_typedD [OF assms(1)]) (use a(1) i(1,2) that in \<open>simp_all add: proper_key_def\<close>)
  then have "\<not> sn_Dir g" using listing_dir [OF i(3)] by fastforce
  then have "es (sn_Key g) = Some (File (sn_Value g))" using listing_file [OF i(3)] by simp
  then show "stored_heartbeat store es h"
    using a(1,2) i(1,2) dir node g(3) parse_leaf [of g 0] unfolding stored_heartbeat_def
    by (intro exI [of _ a] exI [of _ i] exI [of _ "sn_Value g"]) (auto simp: heartbeat_node_def node_heartbeat_def)
next
  assume "stored_heartbeat store es h"
  then obtain a i v where k: "proper_key a" "proper_key i" "es (path_at store [''apps'', ''actual'', a]) = Some Directory"
    "es (path_at store [''apps'', ''actual'', a, i]) = Some (File v)"
    "parse_heartbeat_node (leaf_node (path_at store [''apps'', ''actual'', a, i]) v 0) = Inr h"
    by (auto simp: stored_heartbeat_def)
  have sub: "child_of (path_at store cs) (path_at store (cs @ [c]))" if "proper_key c" for cs c
    using that by (auto simp: child_of_iff path_at_def proper_key_def)
  have "path_at store [''apps'', ''actual'', a] \<in> sn_Key ` set (sn_ChildNodes n)"
    using listing_children(2) [OF assms(2,3)] sub [OF k(1), of "[''apps'', ''actual'']"] k(3) assms(4) by simp
  then obtain c where c: "c \<in> set (sn_ChildNodes n)" "sn_Key c = path_at store [''apps'', ''actual'', a]" by auto
  note c_ok = listing_children(3) [OF assms(2,3) c(1)]
  have c_dir: "sn_Dir c" using listing_dir [OF c_ok] c(2) k(3) by simp
  have "path_at store [''apps'', ''actual'', a, i] \<in> sn_Key ` set (sn_ChildNodes c)"
    using listing_children(2) [OF c_ok c_dir] sub [OF k(2), of "[''apps'', ''actual'', a]"] k(4) c(2) by simp
  then obtain g where g: "g \<in> set (sn_ChildNodes c)" "sn_Key g = path_at store [''apps'', ''actual'', a, i]" by auto
  note g_ok = listing_children(3) [OF c_ok c_dir g(1)]
  have "\<not> sn_Dir g" using listing_dir [OF g_ok] g(2) k(4) by simp
  then have "sn_Value g = v" using listing_file [OF g_ok] g(2) k(4) by simp
  then have "parse_heartbeat_node g = Inr h" using k(5) g(2) parse_leaf [of g 0] by simp
  then have "node_heartbeat g = h" by (simp add: node_heartbeat_def)
  then show "h \<in> node_heartbeat ` set (concat (map sn_ChildNodes (sn_ChildNodes n)))"
    using c(1) g(1) by (auto intro!: image_eqI [of _ _ g])
qed

context kv_adapter begin

lemma GetDeaCache_same: "GetDeaCache ex now store w = (r, store', w') \<Longrightarrow> w' = w"
  by (auto simp: GetDeaCache_def Let_def dest: list_pure split: prod.splits sum.splits store_error.splits if_splits)

text \<open>Without a heartbeat in the store nothing is listed.\<close>

lemma nothing_listed:
  assumes "ad_ListRecursively ex (path_at store [''apps'', ''actual'']) w = (Inl ErrorKeyNotFound, w1)"
  shows "w1 = w" and "\<not> stored_heartbeat store (entries w) h"
proof -
  note none = list_error [OF assms]
  show "w1 = w" using none by simp
  have "clean_key (path_at store [''apps'', ''actual'']) = path_at store [''apps'', ''actual'']"
    using path_at_clean [of "''actual''" store "[''apps'']"] by (simp add: proper_key_def)
  moreover have "below (path_at store [''apps'', ''actual'']) (path_at store [''apps'', ''actual'', a])" for a
    by (simp add: path_at_def below_def)
  ultimately have "entries w (path_at store [''apps'', ''actual'', a]) = None" for a
    using none by simp
  then show "\<not> stored_heartbeat store (entries w) h" by (simp add: stored_heartbeat_def)
qed

lemma GetInstanceHeartbeats_exact:
  assumes typed: "store_typed store (entries w)" and "GetInstanceHeartbeats ex now store w = (Inr hs, store', w')"
  shows "h \<in> set hs \<longleftrightarrow> stored_heartbeat store (entries w) h \<and> hb_DeaGuid h \<in> set (deaCache store')"
proof (cases "ad_ListRecursively ex (path_at store [''apps'', ''actual'']) w")
  case (Pair l w1)
  have w1: "w1 = w" by (rule list_pure [OF Pair])
  show ?thesis
  proof (cases l)
    case (Inl se)
    then have "se = ErrorKeyNotFound" "hs = []" using assms(2) Pair
      by (auto simp: GetInstanceHeartbeats_def actual_path split: store_error.splits)
    then show ?thesis using nothing_listed(2) Pair Inl by fastforce
  next
    case (Inr n)
    note list = list_ok [OF Pair [unfolded Inr]]
    have key: "sn_Key n = path_at store [''apps'', ''actual'']"
      using list path_at_clean [of "''actual''" store "[''apps'']"] by (simp add: proper_key_def)
    have nodes: "\<forall>c\<in>set (sn_ChildNodes n). \<forall>g\<in>set (sn_ChildNodes c). heartbeat_node g"
      using heartbeat_nodes [OF typed] list key by blast
    obtain d store2 w2 where d: "GetDeaCache ex now store w = (d, store2, w2)" by (metis surj_pair)
    let ?hs = "present store2 (concat (map sn_ChildNodes (sn_ChildNodes n)))"
    obtain deas where d': "d = Inr deas"
      using assms(2) Pair Inr w1 d by (cases d) (auto simp: GetInstanceHeartbeats_def actual_path)
    obtain ks where "all_heartbeats_loop store2 deas (sn_ChildNodes n) [] [] = Inr (?hs, ks)"
      using all_heartbeats_loop_nodes [OF nodes, of store2 deas "[]" "[]"] by auto
    then have "delete_expired ex ks ?hs store2 w2 = (Inr hs, store', w')"
      using assms(2) Pair Inr w1 d d' by (simp add: GetInstanceHeartbeats_def actual_path)
    from delete_expired_result [OF this] have "store' = store2" "hs = ?hs" by auto
    then show ?thesis using listed_heartbeats [OF typed _ _ key, of h] list by (auto simp: present_def)
  qed
qed

end

subsection \<open>Apps\<close>

definition desired_typed :: "DesiredAppState \<Rightarrow> bool" where
  "desired_typed d \<longleftrightarrow> in_int64 (ds_NumberOfInstances d) \<and> proper_key (ds_AppGuid d) \<and> proper_key (ds_AppVersion d)"

definition app_typed :: "App \<Rightarrow> bool" where
  "app_typed a \<longleftrightarrow> app_ok a \<and> proper_key (app_AppGuid a) \<and> proper_key (app_AppVersion a)
     \<and> in_int64 (NumberOfDesiredInstances a) \<and> (\<forall>h\<in>set (app_InstanceHeartbeats a). read_typed h)
     \<and> (\<forall>c\<in>snd ` set (app_CrashCounts a). crash_typed c)"

lemma app_typed_set_desired: "app_typed a \<Longrightarrow> desired_typed d \<Longrightarrow> app_typed (a\<lparr>app_Desired := d\<rparr>)"
  by (auto simp: app_typed_def desired_typed_def NumberOfDesiredInstances_def)

lemma app_typed_NewApp:
  assumes "proper_key g" and "proper_key v" and "in_int64 (ds_NumberOfInstances d)" and "\<forall>h\<in>set hs. read_typed h"
    and "\<forall>c\<in>snd ` set cs. crash_typed c" and "gomap_ok cs"
  shows "app_typed (NewApp g v d hs cs)"
  using assms app_ok_NewApp [OF assms(6)] by (simp add: app_typed_def NewApp_def NumberOfDesiredInstances_def)

lemma values_mput: "\<forall>x\<in>snd ` set m. P x \<Longrightarrow> P v \<Longrightarrow> \<forall>x\<in>snd ` set (mput k v m). P x"
  using values_mput_subset [of k v m] by blast

lemma crash_map_typed:
  assumes "\<forall>c\<in>set cs. crash_typed c"
  shows "gomap_ok (fold (\<lambda>c. mput (cc_InstanceIndex c) c) cs []) \<and>
    (\<forall>c\<in>snd ` set (fold (\<lambda>c. mput (cc_InstanceIndex c) c) cs []). crash_typed c)" (is "?P (fold ?put cs [])")
proof (rule fold_invariant_set [where P = ?P])
  fix c m assume "c \<in> set cs" "?P m"
  then show "?P (?put c m)" using assms by (intro conjI values_mput) auto
qed simp

lemma buildApp_typed:
  assumes "buildApp rep = Some a" and "\<forall>h\<in>set (actualState rep). read_typed h" and "\<forall>c\<in>set (crashCounts rep). crash_typed c"
  shows "app_typed a"
proof (cases "actualState rep")
  case (Cons h hs)
  then have a: "a = NewApp (hb_AppGuid h) (hb_AppVersion h) zero_DesiredAppState (actualState rep)
      (fold (\<lambda>c. mput (cc_InstanceIndex c) c) (crashCounts rep) [])"
    using assms(1) by (auto simp: buildApp_def split: if_splits)
  have "read_typed h" using assms(2) Cons by simp
  then have "proper_key (hb_AppGuid h)" "proper_key (hb_AppVersion h)" by (simp_all add: read_typed_def proper_heartbeat_def)
  then show ?thesis unfolding a
    using assms(2) crash_map_typed [OF assms(3)] by (intro app_typed_NewApp) (simp_all add: zero_DesiredAppState_def)
qed (use assms(1) in \<open>simp add: buildApp_def\<close>)

lemma build_apps_typed:
  assumes "\<forall>h\<in>set hs. read_typed h" and "\<forall>c\<in>set cs. crash_typed c" and "(k, a) \<in> set (build_apps ch hs cs)"
  shows "app_typed a"
proof -
  have step: "\<forall>x\<in>snd ` set (add_app p m). app_typed x"
    if "p \<in> set (representations hs cs)" "\<forall>x\<in>snd ` set m. app_typed x" for p m
  proof -
    obtain k r where p: "p = (k, r)" by (cases p)
    have "app_typed x" if "buildApp r = Some x" for x
      using buildApp_typed [OF that] representations_mem [OF \<open>p \<in> _\<close> [unfolded p]] assms(1,2) by simp
    then have "\<forall>x\<in>snd ` set (mput K x m). app_typed x" if "buildApp r = Some x" for K x
      using \<open>\<forall>x\<in>snd ` set m. app_typed x\<close> that by (intro values_mput) simp_all
    then show ?thesis using that(2) by (cases "buildApp r") (simp_all add: p add_app_def)
  qed
  have "\<forall>x\<in>snd ` set (build_apps ch hs cs). app_typed x"
    unfolding build_apps_def
    by (rule fold_invariant_set [where P = "\<lambda>m. \<forall>x\<in>snd ` set m. app_typed x"]) (simp, rule step, simp_all)
  then show ?thesis using assms(3) by force
qed

end
