(* ===== verification/Shared_Store.thy ===== *)
theory Shared_Store imports Store_Typed_Reads begin

text \<open>
  A store that several processes share. Between any two calls of one process the others make calls of
  their own, so a process may not rely on what it has read: the contract \<open>shared_store\<close> says only that
  what a call answers was in a typed store at some moment, and that a call with typed nodes leaves a
  typed store, whatever the others do meanwhile. It is the rely of every process, and the lemmas proved
  inside it, here and in the theories that follow, show that it is also what every process guarantees:
  no operation writes a node that is not typed.

  An adapter that is used by one process alone meets the contract, and so does the same adapter with
  any typed calls of others before each of its calls (\<open>with_others\<close>).
\<close>

definition typed_world :: "('w \<Rightarrow> string \<Rightarrow> entry option) \<Rightarrow> Config \<Rightarrow> 'w \<Rightarrow> bool" where
  "typed_world entries conf w \<longleftrightarrow> store_typed (NewStore conf) (entries w)"

text \<open>Every client of the configuration sees the same types.\<close>

lemma client_types: "st_config store = conf \<Longrightarrow> store_typed store = store_typed (NewStore conf)"
  by (rule store_typed_config) (simp add: NewStore_def)

lemma client_world:
  assumes "st_config store = conf"
  shows "typed_world entries conf w \<longleftrightarrow> store_typed store (entries w)"
  unfolding typed_world_def client_types [OF assms] by (rule refl)

lemma node_typed_config:
  assumes "st_config s = st_config t"
  shows "node_typed s n = node_typed t n"
proof -
  have "path_typed s = path_typed t" using path_typed_config [OF assms] by (simp add: fun_eq_iff)
  then show ?thesis unfolding node_typed_def path_at_config [OF assms] by simp
qed

lemma client_node: "st_config store = conf \<Longrightarrow> node_typed (NewStore conf) n = node_typed store n"
  by (rule node_typed_config) (simp add: NewStore_def)

locale shared_store = service_calls ex ok
  for ex :: "'w externals" and ok :: "'w \<Rightarrow> bool" +
  fixes conf :: Config
  assumes fresh_key: "fresh_key_ok conf"
    and set_shared: "ok w \<Longrightarrow> \<forall>n\<in>set ns. node_typed (NewStore conf) n \<Longrightarrow>
      ad_SetMulti ex ns w = (e, w') \<Longrightarrow> ok w'"
    and delete_shared: "ok w \<Longrightarrow> ad_Delete ex ks w = (e, w') \<Longrightarrow> ok w'"
    and get_shared: "ok w \<Longrightarrow> ad_Get ex k w = (r, w') \<Longrightarrow> ok w'"
    and get_seen: "ok w \<Longrightarrow> ad_Get ex k w = (Inr n, w') \<Longrightarrow>
      \<exists>es. store_typed (NewStore conf) es \<and> es k = Some (File (sn_Value n))"
    and list_shared: "ok w \<Longrightarrow> ad_ListRecursively ex d w = (l, w') \<Longrightarrow> ok w'"
    and list_seen: "ok w \<Longrightarrow> ad_ListRecursively ex d w = (Inr n, w') \<Longrightarrow>
      \<exists>es. store_typed (NewStore conf) es \<and> sn_Key n = clean_key d \<and> sn_Dir n \<and> listing_ok es n"

text \<open>The processes that post messages rely on the same of every post.\<close>

locale shared_services = shared_store ex ok conf + outside_calls ex ok
  for ex :: "'w externals" and ok :: "'w \<Rightarrow> bool" and conf :: Config

subsection \<open>One process alone\<close>

lemma alone_shared:
  assumes "quiet_externals ex entries" and "fresh_key_ok conf"
  shows "shared_services ex (typed_world entries conf) conf"
proof -
  note kv = quiet_externals.axioms(1) [OF assms(1)]
  note quiet = quiet_externals.post_quiet [OF assms(1)] quiet_externals.counter_quiet [OF assms(1)]
    quiet_externals.page_quiet [OF assms(1)] quiet_externals.value_quiet [OF assms(1)]
  have outside: "outside_calls ex (typed_world entries conf)"
    by unfold_locales (simp_all add: typed_world_def quiet)
  have calls: "shared_store_axioms ex (typed_world entries conf) conf"
  proof (rule shared_store_axioms.intro [OF assms(2)], unfold typed_world_def)
    show "store_typed (NewStore conf) (entries w')" if "store_typed (NewStore conf) (entries w)" "\<forall>n\<in>set ns. node_typed (NewStore conf) n"
      "ad_SetMulti ex ns w = (e, w')" for w ns e w' by (rule kv_adapter.set_keeps_type [OF kv that])
    show "store_typed (NewStore conf) (entries w')" if "store_typed (NewStore conf) (entries w)" "ad_Delete ex ks w = (e, w')"
      for w ks e w' by (rule kv_adapter.delete_keeps_type [OF kv that])
    show "store_typed (NewStore conf) (entries w')" if "store_typed (NewStore conf) (entries w)" "ad_Get ex k w = (r, w')"
      for w k r w' using kv_adapter.get_pure [OF kv that(2)] that(1) by simp
    show "\<exists>es. store_typed (NewStore conf) es \<and> es k = Some (File (sn_Value n))"
      if "store_typed (NewStore conf) (entries w)" "ad_Get ex k w = (Inr n, w')" for w k n w'
      using kv_adapter.get_ok [OF kv that(2)] that(1) by blast
    show "store_typed (NewStore conf) (entries w')" if "store_typed (NewStore conf) (entries w)" "ad_ListRecursively ex d w = (l, w')"
      for w d l w' using kv_adapter.list_pure [OF kv that(2)] that(1) by simp
    show "\<exists>es. store_typed (NewStore conf) es \<and> sn_Key n = clean_key d \<and> sn_Dir n \<and> listing_ok es n"
      if "store_typed (NewStore conf) (entries w)" "ad_ListRecursively ex d w = (Inr n, w')" for w d n w'
      using kv_adapter.list_ok [OF kv that(2)] that(1) by blast
  qed
  show ?thesis
    by (rule shared_services.intro [OF shared_store.intro [OF outside_calls.axioms(1) [OF outside] calls] outside])
qed

interpretation shared_memory: shared_services mem_externals "typed_world mem_view defaults" defaults
  by (rule alone_shared [OF quiet_memory.quiet_externals_axioms fresh_key_defaults])

subsection \<open>A process among others\<close>

text \<open>
  The state of a run that others interrupt: the world, the number of calls that were made, and the
  nodes that the process itself has written.
\<close>

record 'w shared_run =
  sr_world :: 'w
  sr_calls :: nat
  sr_written :: "store_node list"

datatype other_call = Other_Set "store_node list" | Other_Delete "string list"

fun other_typed :: "Config \<Rightarrow> other_call \<Rightarrow> bool" where
  "other_typed conf (Other_Set ns) \<longleftrightarrow> (\<forall>n\<in>set ns. node_typed (NewStore conf) n)"
| "other_typed conf (Other_Delete ks) \<longleftrightarrow> True"

fun other_step :: "'w externals \<Rightarrow> other_call \<Rightarrow> 'w \<Rightarrow> 'w" where
  "other_step ex (Other_Set ns) w = snd (ad_SetMulti ex ns w)"
| "other_step ex (Other_Delete ks) w = snd (ad_Delete ex ks w)"

text \<open>Before the \<open>n\<close>-th call of the process the others make the calls \<open>others n\<close>.\<close>

definition among :: "'w externals \<Rightarrow> (nat \<Rightarrow> other_call list) \<Rightarrow> store_node list \<Rightarrow> ('w \<Rightarrow> 'r \<times> 'w)
    \<Rightarrow> 'w shared_run \<Rightarrow> 'r \<times> 'w shared_run" where
  "among ex others nodes call s =
     (let (r, w) = call (fold (other_step ex) (others (sr_calls s)) (sr_world s))
      in (r, \<lparr>sr_world = w, sr_calls = Suc (sr_calls s), sr_written = sr_written s @ nodes\<rparr>))"

definition with_others :: "'w externals \<Rightarrow> (nat \<Rightarrow> other_call list) \<Rightarrow> 'w shared_run externals" where
  "with_others ex others =
     \<lparr>ad_SetMulti = (\<lambda>ns. among ex others ns (ad_SetMulti ex ns)),
      ad_Get = (\<lambda>k. among ex others [] (ad_Get ex k)),
      ad_ListRecursively = (\<lambda>d. among ex others [] (ad_ListRecursively ex d)),
      ad_Delete = (\<lambda>ks. among ex others [] (ad_Delete ex ks)),
      http_post = (\<lambda>url auth body. among ex others [] (http_post ex url auth body)),
      http_get = (\<lambda>url auth. among ex others [] (http_get ex url auth)),
      nats_Publish = (\<lambda>subject body. among ex others [] (nats_Publish ex subject body)),
      metrics_AddToCounter = (\<lambda>name n. among ex others [] (metrics_AddToCounter ex name n)),
      metrics_SendValue = (\<lambda>name v. among ex others [] (metrics_SendValue ex name v))\<rparr>"

text \<open>What holds all along: the world is as it should be, and the process wrote typed nodes only.\<close>

definition run_typed :: "('w \<Rightarrow> bool) \<Rightarrow> Config \<Rightarrow> 'w shared_run \<Rightarrow> bool" where
  "run_typed ok conf s \<longleftrightarrow> ok (sr_world s) \<and> (\<forall>n\<in>set (sr_written s). node_typed (NewStore conf) n)"

context shared_store begin

lemma others_keep: "\<forall>c\<in>set cs. other_typed conf c \<Longrightarrow> ok w \<Longrightarrow> ok (fold (other_step ex) cs w)"
proof (induction cs arbitrary: w)
  case (Cons c cs)
  have "ok (other_step ex c w)"
    using Cons.prems set_shared [OF _ _ surjective_pairing] delete_shared [OF _ surjective_pairing] by (cases c) simp_all
  then show ?case using Cons by simp
qed simp

lemma call_among:
  assumes "\<forall>n. \<forall>c\<in>set (others n). other_typed conf c" and "run_typed ok conf s"
    and "among ex others nodes call s = (r, s')" and "\<forall>n\<in>set nodes. node_typed (NewStore conf) n"
  obtains w where "ok w" "call w = (r, sr_world s')" "ok (sr_world s') \<Longrightarrow> run_typed ok conf s'"
proof
  show "ok (fold (other_step ex) (others (sr_calls s)) (sr_world s))"
    using assms(1,2) by (intro others_keep) (auto simp: run_typed_def)
  show "call (fold (other_step ex) (others (sr_calls s)) (sr_world s)) = (r, sr_world s')"
    using assms(3) by (auto simp: among_def split: prod.splits)
  show "run_typed ok conf s'" if "ok (sr_world s')"
    using that assms(2-4) by (auto simp: among_def run_typed_def split: prod.splits)
qed

end

context shared_services begin

lemma others_shared:
  assumes "\<forall>n. \<forall>c\<in>set (others n). other_typed conf c"
  shows "shared_services (with_others ex others) (run_typed ok conf) conf"
proof -
  note call = call_among [OF assms]
  have services: "service_calls (with_others ex others) (run_typed ok conf)"
  proof (rule service_calls.intro; unfold with_others_def externals.simps)
    fix s s' :: "'w shared_run"
    assume s: "run_typed ok conf s"
    show "run_typed ok conf s'" if "among ex others [] (metrics_AddToCounter ex name n) s = (r, s')" for name n r
      by (rule call [OF s that]) (auto dest: counter_keeps)
    show "run_typed ok conf s'" if "among ex others [] (http_get ex url auth) s = (r, s')" for url auth r
      by (rule call [OF s that]) (auto dest: page_keeps)
    show "run_typed ok conf s'" if "among ex others [] (metrics_SendValue ex name v) s = (r, s')" for name v r
      by (rule call [OF s that]) (auto dest: value_keeps)
  qed
  have "outside_calls_axioms (with_others ex others) (run_typed ok conf)"
  proof (rule outside_calls_axioms.intro; unfold with_others_def externals.simps)
    fix s s' :: "'w shared_run"
    assume s: "run_typed ok conf s"
    show "run_typed ok conf s'" if "among ex others [] (http_post ex url auth body) s = (r, s')" for url auth body r
      by (rule call [OF s that]) (auto dest: post_keeps)
  qed
  moreover have "shared_store_axioms (with_others ex others) (run_typed ok conf) conf"
  proof (rule shared_store_axioms.intro [OF fresh_key]; unfold with_others_def externals.simps)
    fix s s' :: "'w shared_run"
    assume s: "run_typed ok conf s"
    show "run_typed ok conf s'" if "\<forall>n\<in>set ns. node_typed (NewStore conf) n"
      "among ex others ns (ad_SetMulti ex ns) s = (e, s')" for ns e
      by (rule call [OF s that(2,1)]) (use set_shared that(1) in blast)
    show "run_typed ok conf s'" if "among ex others [] (ad_Delete ex ks) s = (e, s')" for ks e
      by (rule call [OF s that]) (auto dest: delete_shared)
    show "run_typed ok conf s'" if "among ex others [] (ad_Get ex k) s = (r, s')" for k r
      by (rule call [OF s that]) (auto dest: get_shared)
    show "\<exists>es. store_typed (NewStore conf) es \<and> es k = Some (File (sn_Value n))"
      if "among ex others [] (ad_Get ex k) s = (Inr n, s')" for k n
      by (rule call [OF s that]) (auto dest: get_seen)
    show "run_typed ok conf s'" if "among ex others [] (ad_ListRecursively ex d) s = (l, s')" for d l
      by (rule call [OF s that]) (auto dest: list_shared)
    show "\<exists>es. store_typed (NewStore conf) es \<and> sn_Key n = clean_key d \<and> sn_Dir n \<and> listing_ok es n"
      if "among ex others [] (ad_ListRecursively ex d) s = (Inr n, s')" for d n
      by (rule call [OF s that]) (auto dest: list_seen)
  qed
  ultimately show ?thesis
    using services by (intro shared_services.intro shared_store.intro outside_calls.intro)
qed

end

end
