(* ===== verification/Shared_Reads.thy ===== *)
theory Shared_Reads imports Shared_Store begin

text \<open>
  Reading a typed store that others write to at the same time: no reading operation answers with an
  error of its own, only the adapter's errors are left, and what it answers is typed.
\<close>

subsection \<open>Decoding\<close>

text \<open>Nodes that all decode to a value with the property give a map of such values.\<close>

lemma decode_nodes_values:
  assumes "\<forall>n\<in>set ns. \<exists>x. dec (sn_Value n) = Some x \<and> Q x" and "\<forall>x\<in>snd ` set m. Q x"
  shows "\<exists>m'. decode_nodes key dec ns m = Inr m' \<and> (\<forall>x\<in>snd ` set m'. Q x)"
  using assms
proof (induction ns arbitrary: m)
  case (Cons n ns)
  obtain x where x: "dec (sn_Value n) = Some x" "Q x" using Cons.prems(1) by auto
  have "\<forall>y\<in>snd ` set (mput (key x) x m). Q y" using Cons.prems(2) x(2) by (rule values_mput)
  then show ?case using Cons.IH [of "mput (key x) x m"] Cons.prems(1) x(1) by simp
qed simp

context shared_store begin

lemma listed:
  assumes "ok w" and "ad_ListRecursively ex d w = (Inr n, w')" and "st_config store = conf"
  obtains es where "store_typed store es" "sn_Key n = clean_key d" "sn_Dir n" "listing_ok es n"
  using list_seen [OF assms(1,2)] client_types [OF assms(3)] by auto

lemma got:
  assumes "ok w" and "ad_Get ex k w = (Inr n, w')" and "st_config store = conf"
  obtains es where "store_typed store es" "es k = Some (File (sn_Value n))"
  using get_seen [OF assms(1,2)] client_types [OF assms(3)] by auto

subsection \<open>Pending messages and the freshness\<close>

lemma get_typed:
  assumes "ok w" and "get ex key dec dir w = (r, w')" and "st_config store = conf" and "proper_dir dir"
    and "\<And>es. store_typed store es \<Longrightarrow> values_ok key dec dir es"
  shows "ok w' \<and> (case r of
      Inl e \<Rightarrow> \<exists>se. e = StoreError se
    | Inr m \<Rightarrow> \<forall>x\<in>snd ` set m. proper_key (key x) \<and> (\<exists>v. dec v = Some x))"
proof (cases "ad_ListRecursively ex dir w")
  case (Pair l w1)
  have w1: "ok w1" by (rule list_shared [OF assms(1) Pair])
  show ?thesis
  proof (cases l)
    case (Inl e)
    then show ?thesis using assms(2) Pair w1 by (auto simp: get_def fetchNodesUnderDir_def split: store_error.splits)
  next
    case (Inr n)
    obtain es where es: "store_typed store es" "sn_Key n = dir" "sn_Dir n" "listing_ok es n"
      by (rule listed [OF assms(1) Pair [unfolded Inr] assms(3)]) (use assms(4) in \<open>simp add: proper_dir_key\<close>)
    have "\<exists>x. dec (sn_Value c) = Some x \<and> proper_key (key x) \<and> (\<exists>v. dec v = Some x)" if c: "c \<in> set (sn_ChildNodes n)" for c
    proof -
      obtain x where x: "dec (sn_Value c) = Some x" "sn_Key c = dir @ ''/'' @ key x"
        using listing_decodes [OF es(4,3,2) assms(5) [OF es(1)] c] by blast
      have "sn_Key c \<in> {k. child_of (sn_Key n) k \<and> es k \<noteq> None}"
        using c unfolding listing_children(2) [OF es(4,3), symmetric] by blast
      then have "proper_key (key x)" using x(2) es(2) by simp
      then show ?thesis using x(1) by blast
    qed
    then obtain m where m: "decode_nodes key dec (sn_ChildNodes n) [] = Inr m"
      "\<forall>x\<in>snd ` set m. proper_key (key x) \<and> (\<exists>v. dec v = Some x)"
      using decode_nodes_values [of "sn_ChildNodes n" dec "\<lambda>x. proper_key (key x) \<and> (\<exists>v. dec v = Some x)" "[]" key] by auto
    have "r = Inr m" "w' = w1" using assms(2) Pair Inr m(1) by (simp_all add: get_def fetchNodesUnderDir_def)
    then show ?thesis using w1 m(2) by simp
  qed
qed

lemma GetPending_typed:
  assumes "st_config store = conf" and "ok w"
  shows "GetPendingStartMessages ex store w = (r, w') \<Longrightarrow> ok w'
      \<and> (case r of Inl e \<Rightarrow> \<exists>se. e = StoreError se | Inr m \<Rightarrow> \<forall>x\<in>snd ` set m. start_typed x)"
    and "GetPendingStopMessages ex store w = (r', w') \<Longrightarrow> ok w'
      \<and> (case r' of Inl e \<Rightarrow> \<exists>se. e = StoreError se | Inr m \<Rightarrow> \<forall>x\<in>snd ` set m. stop_typed x)"
proof -
  show "ok w' \<and> (case r of Inl e \<Rightarrow> \<exists>se. e = StoreError se | Inr m \<Rightarrow> \<forall>x\<in>snd ` set m. start_typed x)"
    if "GetPendingStartMessages ex store w = (r, w')"
    using get_typed [OF assms(2) that [unfolded GetPendingStartMessages_def start_dir_eq] assms(1) dirs_proper(1) typed_values(1)]
    by (fastforce simp: start_typed_def decoded_start_ok split: sum.splits)
  show "ok w' \<and> (case r' of Inl e \<Rightarrow> \<exists>se. e = StoreError se | Inr m \<Rightarrow> \<forall>x\<in>snd ` set m. stop_typed x)"
    if "GetPendingStopMessages ex store w = (r', w')"
    using get_typed [OF assms(2) that [unfolded GetPendingStopMessages_def start_dir_eq] assms(1) dirs_proper(2) typed_values(2)]
    by (fastforce simp: stop_typed_def decoded_stop_ok split: sum.splits)
qed

lemma freshness_decodes:
  assumes "st_config store = conf" and "ok w" and "ad_Get ex (freshness_key store) w = (Inr n, w')"
  shows "FreshnessTimestampFromJSON (sn_Value n) \<noteq> None"
proof -
  obtain f where f: "proper_key f" "freshness_key store = path_at store [f]" "is_fresh_path store f"
    using fresh_key_okE [of store] fresh_key assms(1) by metis
  obtain es where "store_typed store es" "es (path_at store [f]) = Some (File (sn_Value n))"
    using got [OF assms(2,3,1)] f(2) by metis
  then show ?thesis using store_typedD [of store es "[f]" "File (sn_Value n)"] f by simp
qed

lemma VerifyFreshness_typed:
  assumes "st_config store = conf" and "ok w" and "VerifyFreshness ex store now w = (r, w')"
  shows "ok w' \<and> r \<noteq> Some DecodeError"
proof (cases "ad_Get ex (freshness_key store) w")
  case (Pair a w1)
  have "ok w1" by (rule get_shared [OF assms(2) Pair])
  moreover have "IsActualStateFresh ex store now w = (x, w1) \<and> x \<noteq> Inl DecodeError"
    if "IsActualStateFresh ex store now w = (x, w2)" for x w2
    using that freshness_decodes [OF assms(1,2)] Pair
    by (cases a) (fastforce simp: IsActualStateFresh_def freshness_key_def [symmetric] split: store_error.splits option.splits)+
  ultimately show ?thesis using assms(3)
    by (auto simp: VerifyFreshness_def split: prod.splits sum.splits if_splits)
qed

subsection \<open>Heartbeats and crash counts\<close>

lemma GetDeaCache_shared:
  "ok w \<Longrightarrow> GetDeaCache ex now store w = (r, store', w') \<Longrightarrow> ok w'"
  by (auto simp: GetDeaCache_def Let_def dest: list_shared split: prod.splits sum.splits store_error.splits if_splits)

lemma GetInstanceHeartbeats_typed:
  assumes "st_config store = conf" and w: "ok w" and run: "GetInstanceHeartbeats ex now store w = (r, store', w')"
  shows "st_config store' = conf \<and> ok w' \<and> (case r of
      Inl e \<Rightarrow> \<exists>se. e = StoreError se
    | Inr hs \<Rightarrow> \<forall>h\<in>set hs. read_typed h)"
proof (cases "ad_ListRecursively ex (path_at store [''apps'', ''actual'']) w")
  case (Pair l w1)
  have w1: "ok w1" by (rule list_shared [OF w Pair])
  show ?thesis
  proof (cases l)
    case (Inl se)
    then show ?thesis using assms(1) run Pair w1
      by (auto simp: GetInstanceHeartbeats_def actual_path split: store_error.splits)
  next
    case (Inr n)
    obtain es where es: "store_typed store es" "sn_Key n = path_at store [''apps'', ''actual'']" "sn_Dir n" "listing_ok es n"
      by (rule listed [OF w Pair [unfolded Inr] assms(1)])
        (use path_at_clean [of "''actual''" store "[''apps'']"] in \<open>simp add: proper_key_def\<close>)
    have nodes: "\<forall>c\<in>set (sn_ChildNodes n). \<forall>g\<in>set (sn_ChildNodes c). heartbeat_node g"
      using heartbeat_nodes [OF es(1,4,3,2)] by blast
    obtain d store2 w2 where d: "GetDeaCache ex now store w1 = (d, store2, w2)" by (metis surj_pair)
    note dea = GetDeaCache_result [OF d] GetDeaCache_shared [OF w1 d]
    show ?thesis
    proof (cases d)
      case (Inl err)
      then show ?thesis using assms(1) run Pair Inr d dea by (auto simp: GetInstanceHeartbeats_def actual_path)
    next
      case d': (Inr deas)
      let ?hs = "present store2 (concat (map sn_ChildNodes (sn_ChildNodes n)))"
      obtain ks where "all_heartbeats_loop store2 deas (sn_ChildNodes n) [] [] = Inr (?hs, ks)"
        using all_heartbeats_loop_nodes [OF nodes, of store2 deas "[]" "[]"] by auto
      then have "delete_expired ex ks ?hs store2 w2 = (r, store', w')"
        using run Pair Inr d d' by (simp add: GetInstanceHeartbeats_def actual_path)
      note del = delete_expired_result [OF this]
      then have "ok w'" using delete_shared dea(2) by blast
      moreover have "\<forall>h\<in>set ?hs. read_typed h"
        using nodes present_typed [of "concat (map sn_ChildNodes (sn_ChildNodes n))" _ store2] by auto
      ultimately show ?thesis using assms(1) del dea(1) by (auto split: sum.splits)
    qed
  qed
qed

lemma getCrashCounts_typed:
  assumes "st_config store = conf" and w: "ok w" and run: "getCrashCounts ex store w = (r, w')"
  shows "ok w' \<and> (case r of Inl e \<Rightarrow> \<exists>se. e = StoreError se | Inr cs \<Rightarrow> \<forall>c\<in>set cs. crash_typed c)"
proof (cases "ad_ListRecursively ex (path_at store [''apps'', ''crashes'']) w")
  case (Pair l w1)
  have w1: "ok w1" by (rule list_shared [OF w Pair])
  show ?thesis
  proof (cases l)
    case (Inl se)
    then show ?thesis using run Pair w1 by (auto simp: getCrashCounts_def crashes_path split: store_error.splits)
  next
    case (Inr n)
    obtain es where es: "store_typed store es" "sn_Key n = path_at store [''apps'', ''crashes'']" "sn_Dir n" "listing_ok es n"
      by (rule listed [OF w Pair [unfolded Inr] assms(1)])
        (use path_at_clean [of "''crashes''" store "[''apps'']"] in \<open>simp add: proper_key_def\<close>)
    have "\<forall>c\<in>set (sn_ChildNodes n). \<forall>g\<in>set (sn_ChildNodes c). crash_node g"
      using crash_nodes [OF es(1,4,3,2)] by blast
    then show ?thesis using run Pair Inr w1
      by (auto simp: getCrashCounts_def crashes_path all_crashCounts_loop_nodes node_crash_typed)
  qed
qed

subsection \<open>Apps\<close>

lemma GetApps_typed:
  assumes "st_config store = conf" and "ok w" and run: "GetApps ex now ch store w = (r, store', w')"
  shows "st_config store' = conf \<and> ok w' \<and> (case r of
      Inl e \<Rightarrow> \<exists>se. e = StoreError se
    | Inr apps \<Rightarrow> \<forall>a\<in>snd ` set apps. app_typed a)"
proof -
  obtain r1 store1 w1 where 1: "GetInstanceHeartbeats ex now store w = (r1, store1, w1)" by (metis surj_pair)
  note hb = GetInstanceHeartbeats_typed [OF assms(1,2) 1]
  obtain r2 w2 where 2: "getCrashCounts ex store1 w1 = (r2, w2)" by fastforce
  have "st_config store1 = conf" "ok w1" using hb by simp_all
  note cc = getCrashCounts_typed [OF this 2]
  have built: "\<forall>a\<in>snd ` set (build_apps ch hs cs). app_typed a" if "r1 = Inr hs" "r2 = Inr cs" for hs cs
    using build_apps_typed [of hs cs] hb cc that by auto
  show ?thesis
  proof (cases r1)
    case (Inr hs)
    then show ?thesis using run 1 2 hb cc built by (cases r2) (auto simp: GetApps_def)
  qed (use run 1 hb in \<open>auto simp: GetApps_def\<close>)
qed

lemma GetApp_typed:
  assumes "st_config store = conf" and w: "ok w" and run: "GetApp ex now g v store w = (r, store', w')"
  shows "st_config store' = conf \<and> ok w'"
proof -
  obtain r1 store1 w1 where 1: "GetInstanceHeartbeatsForApp ex now g v store w = (r1, store1, w1)" by (metis surj_pair)
  have dea: "st_config s' = st_config s \<and> (ok v \<longrightarrow> ok v')"
    if "GetDeaCache ex t s v = (d, s', v')" for t s v d s' v'
    using GetDeaCache_result [OF that] GetDeaCache_shared [OF _ that] by simp
  have "st_config store1 = st_config store"
    using 1 by (auto simp: GetInstanceHeartbeatsForApp_def dest!: dea delete_expired_result
        split: prod.splits sum.splits store_error.splits)
  moreover have "ok w1"
    using 1 w by (auto simp: GetInstanceHeartbeatsForApp_def dest!: dea delete_expired_result dest: list_shared [OF w]
        intro: delete_shared split: prod.splits sum.splits store_error.splits)
  ultimately have one: "st_config store1 = conf \<and> ok w1" using assms(1) by simp
  have two: "ok v'" if "ok v" "getCrashCountForApp ex s g ver v = (cs, v')" for s ver v cs v'
    using that(2) list_shared [OF that(1)] by (auto simp: getCrashCountForApp_def split: prod.splits sum.splits store_error.splits)
  show ?thesis
    using run 1 one two by (auto simp: GetApp_def split: sum.splits prod.splits if_splits option.splits)
qed

end

end
