(* ===== verification/Store_Typed_Ops.thy ===== *)
theory Store_Typed_Ops imports Shared_Reads begin

text \<open>
  Every operation of the store client keeps a typed store typed, also when it fails half way and
  whatever other processes write meanwhile, given values of the right type: the pending messages, the
  crash counts, the heartbeats that the DEAs report, the freshness, the metrics, the compaction.
\<close>

definition heartbeat_typed :: "Heartbeat \<Rightarrow> bool" where
  "heartbeat_typed hb \<longleftrightarrow> (\<forall>i\<in>set (InstanceHeartbeats hb). instance_typed i)"

subsection \<open>The nodes of a synchronisation\<close>

lemma presence_node_typed: "fresh_key_ok (st_config store) \<Longrightarrow> node_typed store (deaPresenceNode store dea)"
  using named_node_typed [of store "''dea-presence''"] by (simp add: deaPresenceNode_def)

lemma presence_node_config: "st_config s = st_config t \<Longrightarrow> deaPresenceNode s = deaPresenceNode t"
  by (simp add: deaPresenceNode_def SchemaRoot_def fun_eq_iff)

definition sync_typed :: "RealStore \<Rightarrow> sync_state \<Rightarrow> bool" where
  "sync_typed store s \<longleftrightarrow> st_config (sy_store s) = st_config store \<and> (\<forall>n\<in>set (sy_nodes s). node_typed store n)
     \<and> (\<forall>h\<in>set (sy_evac s). instance_typed h)"

lemma sync_instance_typed:
  assumes "fresh_key_ok (st_config store)" and "sync_typed store s" and "instance_typed i"
  shows "sync_typed store (sync_instance dea i s)"
proof -
  have conf: "st_config (sy_store s) = st_config store" using assms(2) by (simp add: sync_typed_def)
  show ?thesis
    using assms heartbeat_node_typed [OF assms(1,3)]
    by (auto simp: sync_typed_def sync_instance_simps sync_instance_nodes sync_instance_evac store_node_config [OF conf])
qed

lemma sync_vanished_typed: "sync_typed store s \<Longrightarrow> sync_typed store (sync_vanished ch dea guids s)"
  by (simp add: sync_typed_def sync_vanished_def Let_def)

lemma sync_heartbeat_typed:
  assumes "fresh_key_ok (st_config store)" and "sync_typed store s" and "heartbeat_typed hb"
  shows "sync_typed store (sync_heartbeat ch hb s)"
proof -
  have conf: "st_config (sy_store s) = st_config store" using assms(2) by (simp add: sync_typed_def)
  have start: "sync_typed store (sync_start hb s)"
    using assms(2) presence_node_typed [OF assms(1)]
    by (simp add: sync_typed_def sync_start_def presence_node_config [OF conf])
  show ?thesis
    unfolding sync_heartbeat_start
    by (rule sync_vanished_typed, rule fold_invariant_set [where P = "sync_typed store"], rule start)
      (use assms(1,3) in \<open>simp add: sync_instance_typed heartbeat_typed_def\<close>)
qed

lemma latest_heartbeats_typed:
  assumes "\<forall>hb\<in>set hbs. heartbeat_typed hb"
  shows "\<forall>hb\<in>snd ` set (latestHeartbeats hbs). heartbeat_typed hb"
  unfolding latestHeartbeats_def
  by (rule fold_invariant_set [where P = "\<lambda>m. \<forall>hb\<in>snd ` set m. heartbeat_typed hb"], simp, rule values_mput)
    (use assms in auto)

lemma sync_caches_typed:
  assumes "fresh_key_ok (st_config store)" and "\<forall>hb\<in>set hbs. heartbeat_typed hb"
  shows "sync_typed store (sync_caches ch hbs store)"
  unfolding sync_caches_def
proof (rule fold_invariant_set [where P = "sync_typed store"])
  fix x s assume "x \<in> set (go_range ch (latestHeartbeats hbs))" "sync_typed store s"
  then show "sync_typed store ((\<lambda>(dea, h). sync_heartbeat ch h) x s)"
    using latest_heartbeats_typed [OF assms(2)] by (auto simp: case_prod_beta intro!: sync_heartbeat_typed [OF assms(1)])
qed (simp add: sync_typed_def)

lemma fold_cache_config [simp]: "st_config (fold cache_heartbeat hs store) = st_config store"
  by (induction hs arbitrary: store) (simp_all add: cache_heartbeat_def)

text \<open>Deleting empty directories keeps what every deletion keeps.\<close>

lemma delete_empty_keeps:
  "\<forall>ks w. P w \<longrightarrow> P (snd (ad_Delete ex ks w)) \<Longrightarrow> P w \<Longrightarrow> P (snd (deleteEmptyDirectoriesUnder ex n w))"
  "\<forall>ks w. P w \<longrightarrow> P (snd (ad_Delete ex ks w)) \<Longrightarrow> P w \<Longrightarrow> P (snd (delete_children ex ns b w))"
  by (induction ex n w and ex ns b w rule: deleteEmptyDirectoriesUnder_delete_children.induct)
    (auto simp: Let_def split: prod.splits)

context shared_store begin

lemma set_typed:
  assumes "st_config store = conf" and "ok w" and "\<forall>n\<in>set ns. node_typed store n"
    and "ad_SetMulti ex ns w = (e, w')"
  shows "ok w'"
  using set_shared [OF assms(2) _ assms(4)] assms(3) client_node [OF assms(1)] by blast

subsection \<open>Heartbeats\<close>

lemma loadCache_typed:
  assumes "st_config store = conf" and "ok w" and "loadCache ex now store w = (e, store', w')"
  shows "st_config store' = conf \<and> ok w' \<and> (\<forall>err. e = Some err \<longrightarrow> (\<exists>se. err = StoreError se))"
proof (cases "StoreHeartbeatCacheRefreshInterval (st_config store) \<le> time_Sub now (instanceHeartbeatCacheTimestamp store)")
  case True
  obtain r store1 w1 where r: "GetInstanceHeartbeats ex now store w = (r, store1, w1)" by (metis surj_pair)
  show ?thesis
    using assms(3) r True GetInstanceHeartbeats_typed [OF assms(1,2) r] by (cases r) (auto simp: loadCache_def)
next
  case False
  then show ?thesis using assms by (simp add: loadCache_def)
qed

lemma SyncHeartbeats_typed:
  assumes "st_config store = conf" and "ok w" and hbs: "\<forall>hb\<in>set hbs. heartbeat_typed hb"
    and "SyncHeartbeats ex now ch hbs store w = ((evac, e), store', w')"
  shows "st_config store' = conf \<and> ok w' \<and> (\<forall>h\<in>set evac. instance_typed h)
      \<and> (\<forall>err. e = Some err \<longrightarrow> (\<exists>se. err = StoreError se))"
proof -
  obtain e1 store1 w1 where load: "loadCache ex now store w = (e1, store1, w1)" by (metis surj_pair)
  note l = loadCache_typed [OF assms(1,2) load]
  show ?thesis
  proof (cases e1)
    case (Some err)
    then have "store' = store1 \<and> w' = w1 \<and> evac = [] \<and> e = Some err"
      using assms(4) load by (simp add: SyncHeartbeats_def)
    then show ?thesis using l Some by simp
  next
    case None
    let ?s = "sync_caches ch hbs store1"
    have s: "sync_typed store1 ?s" using fresh_key l by (intro sync_caches_typed [OF _ hbs]) simp
    have store1: "st_config store1 = conf" and w1: "ok w1" using l by simp_all
    obtain e2 w2 where set: "ad_SetMulti ex (sy_nodes ?s) w1 = (e2, w2)" by fastforce
    have 2: "ok w2"
      by (rule set_typed [OF store1 w1 _ set]) (use s in \<open>simp add: sync_typed_def\<close>)
    obtain e3 w3 where del: "ad_Delete ex (sy_keys ?s) w2 = (e3, w3)" by fastforce
    have 3: "ok w3" by (rule delete_shared [OF 2 del])
    have "store' = sy_store ?s \<and> evac = sy_evac ?s \<and> (w' = w2 \<or> w' = w3) \<and> (e = None \<or> (\<exists>se. e = Some (StoreError se)))"
      using assms(4) load None set del
      by (auto simp: SyncHeartbeats_def Let_def split: option.splits store_error.splits)
    then show ?thesis using s store1 2 3 by (auto simp: sync_typed_def)
  qed
qed

subsection \<open>Pending messages and crash counts\<close>

lemma stored_result: "store_result r = (e, w) \<Longrightarrow> r = (fst r, w)"
  by (auto simp: store_result_def split: prod.splits)

lemma save_typed:
  assumes "st_config store = conf" and "ok w" and "save ex key json ms dir ttl w = (e, w')"
    and "\<And>m. m \<in> set ms \<Longrightarrow> node_typed store (leaf_node (dir @ ''/'' @ key m) (json m) ttl)"
  shows "ok w'"
  by (rule set_typed [OF assms(1,2) _ stored_result [OF assms(3) [unfolded save_def]]]) (use assms(4) in auto)

lemma delete_typed:
  assumes "ok w" and "delete ex key ms dir w = (e, w')"
  shows "ok w'"
  by (rule delete_shared [OF assms(1) stored_result [OF assms(2) [unfolded delete_def]]])

lemma client_fresh: "st_config store = conf \<Longrightarrow> fresh_key_ok (st_config store)"
  using fresh_key by simp

lemma save_pending_typed:
  assumes "st_config store = conf" and "ok w"
  shows "SavePendingStartMessages ex store ms w = (e, w') \<Longrightarrow> \<forall>m\<in>set ms. start_typed m \<Longrightarrow> ok w'"
    and "SavePendingStopMessages ex store xs w = (e, w') \<Longrightarrow> \<forall>m\<in>set xs. stop_typed m \<Longrightarrow> ok w'"
  using save_typed [OF assms] start_node_typed [OF client_fresh [OF assms(1)]] stop_node_typed [OF client_fresh [OF assms(1)]]
  unfolding pending_op_defs by blast+

lemma delete_pending_typed:
  assumes "ok w"
  shows "DeletePendingStartMessages ex store ms w = (e, w') \<Longrightarrow> ok w'"
    and "DeletePendingStopMessages ex store xs w = (e, w') \<Longrightarrow> ok w'"
  using delete_typed [OF assms] unfolding pending_op_defs by blast+

lemma SaveCrashCounts_typed:
  assumes "st_config store = conf" and "ok w" and "\<forall>c\<in>set cs. crash_typed c"
    and "SaveCrashCounts ex store cs w = (e, w')"
  shows "ok w'"
  by (rule set_typed [OF assms(1,2) _ stored_result [OF assms(4) [unfolded SaveCrashCounts_def]]])
    (use assms(3) crash_node_typed [OF client_fresh [OF assms(1)]] in auto)

subsection \<open>Freshness, metrics and compaction\<close>

text \<open>The old value is written back: it was typed when it was read, and so it is when it is written.\<close>

lemma BumpActualFreshness_typed:
  assumes "st_config store = conf" and "ok w" and "in_int64 (Unix t)"
    and "BumpActualFreshness ex store t w = (e, w')"
  shows "ok w'"
proof -
  obtain r w1 where get: "ad_Get ex (freshness_key store) w = (r, w1)" by fastforce
  define v where "v = (case r of Inr n \<Rightarrow> sn_Value n | Inl err \<Rightarrow> FreshnessTimestamp_ToJSON \<lparr>Timestamp = Unix t\<rparr>)"
  have v: "FreshnessTimestampFromJSON v \<noteq> None"
    using freshness_decodes [OF assms(1,2)] get assms(3) by (cases r) (simp_all add: v_def FreshnessTimestamp_json_roundtrip)
  show ?thesis
  proof (rule set_typed [OF assms(1) get_shared [OF assms(2) get]])
    let ?ns = "[leaf_node (freshness_key store) v (ActualFreshnessTTL (st_config store))]"
    show "\<forall>n\<in>set ?ns. node_typed store n" using fresh_node_typed [OF client_fresh [OF assms(1)] v] by simp
    show "ad_SetMulti ex ?ns w1 = (fst (ad_SetMulti ex ?ns w1), w')"
      using assms(4) get
      by (auto simp: BumpActualFreshness_def bumpFreshness_def freshness_key_def [symmetric] v_def store_result_def
          split: prod.splits)
  qed
qed

lemma RevokeActualFreshness_typed:
  assumes "ok w" and "RevokeActualFreshness ex store w = (e, w')"
  shows "ok w'"
  by (rule delete_shared [OF assms(1) stored_result [OF assms(2) [unfolded RevokeActualFreshness_def]]])

lemma SaveMetric_typed:
  assumes "st_config store = conf" and "ok w" and "SaveMetric ex store metric v w = (e, w')"
  shows "ok w'"
  by (rule set_typed [OF assms(1,2) _ stored_result [OF assms(3) [unfolded SaveMetric_def]]])
    (use named_node_typed [OF client_fresh [OF assms(1)], of "''metrics''"] in \<open>simp add: metric_key_def\<close>)

lemma Compact_typed:
  assumes "ok w" and "Compact ex other w = (e, w')"
  shows "ok w'"
proof -
  have deleted: "ok (snd (ad_Delete ex ks v))" if "ok v" for ks v
    using delete_shared [OF that surjective_pairing] .
  obtain e1 w1 where old: "deleteOldSchemaVersionsAndUnversionedData ex other w = (e1, w1)" by fastforce
  have "ok w1"
  proof (cases "ad_ListRecursively ex ''/hm'' w")
    case (Pair l v)
    then show ?thesis
      using old list_shared [OF assms(1) Pair] deleted
      by (cases l) (auto simp: deleteOldSchemaVersionsAndUnversionedData_def dest!: stored_result delete_shared [rotated])
  qed
  moreover have "ok v'"
    if "ok v" "deleteEmptyDirectories ex other v = (e, v')" for v e v'
  proof (cases "ad_ListRecursively ex (SchemaRoot other @ ''/'') v")
    case (Pair l u)
    then show ?thesis
      using that(2) list_shared [OF that(1) Pair] delete_empty_keeps(1) [of ok ex u] deleted
      by (cases l) (auto simp: deleteEmptyDirectories_def)
  qed
  ultimately show ?thesis
    using assms(2) old by (auto simp: Compact_def split: option.splits)
qed

end

end
