(* ===== verification/Analysis_Typed.thy ===== *)
theory Analysis_Typed imports Store_Typed_Ops Analyzer_Facts begin

text \<open>
  What the analyzer computes from typed apps and typed pending messages is typed: the start and stop
  messages and the crash counts that it saves keep the store typed. The clock has to be sane, so that
  a time stamp a delay ahead of it is still a 64-bit number.
\<close>

subsection \<open>New messages\<close>

definition now_ok :: "time \<Rightarrow> bool" where
  "now_ok t \<longleftrightarrow> - (2 ^ 62) \<le> Unix t \<and> Unix t < 2 ^ 62"

lemma now_ok_int64: "now_ok t \<Longrightarrow> in_int64 (Unix t)"
  by (auto simp: now_ok_def in_int64_def)

lemma send_time_int64:
  assumes "now_ok t"
  shows "in_int64 (Unix (time_Add t (dur_mult d second)))"
proof -
  let ?d = "dur_mult d second"
  have d: "- (2 ^ 63) \<le> ?d" "?d < 2 ^ 63" using wrap64_range [of "d * second"] by (simp_all add: dur_mult_def in_int64_def)
  have t: "Unix t * second \<le> t" "t < (Unix t + 1) * second"
    by (simp_all add: Unix_def second_def distrib_right minus_mod_eq_div_mult [symmetric])
  have b: "- (2 ^ 62) * second \<le> t" "t < 2 ^ 62 * second"
    using t assms by (simp_all add: now_ok_def second_def)
  then have "- (2 ^ 63) * second \<le> t + ?d" "t + ?d < 2 ^ 63 * second" using d by (simp_all add: second_def)
  then have "- (2 ^ 63) \<le> (t + ?d) div second" "(t + ?d) div second < 2 ^ 63"
    by (simp_all add: second_def)
  then show ?thesis by (simp add: Unix_def time_Add_def in_int64_def)
qed

lemma grace_int64 [simp]: "in_int64 (GracePeriod conf)"
  using sint_ge [of "GracePeriodInHeartbeats conf * HeartbeatPeriod conf"]
    sint_lt [of "GracePeriodInHeartbeats conf * HeartbeatPeriod conf"] by (simp add: GracePeriod_def in_int64_def)

lemma new_start_typed:
  assumes "now_ok now" and "in_int64 k" and "proper_key g" and "proper_key v" and "in_int64 i" and "float_ok p"
  shows "start_typed (NewPendingStartMessage guid now d k g v i p r)"
  using assms by (simp add: start_typed_def start_message_ok_def pending_ints_ok_def send_time_int64 start_key_proper)

lemma new_stop_typed:
  assumes "now_ok now" and "in_int64 k" and "proper_key i"
  shows "stop_typed (NewPendingStopMessage guid now d k g v i r)"
  using assms by (simp add: stop_typed_def pending_ints_ok_def send_time_int64 PendingStopMessage_StoreKey_def)

lemma float_one: "0 < p \<Longrightarrow> p \<le> 1 \<Longrightarrow> float_ok (Num p)"
  using less_le_trans [of p 2 float_limit] by (simp add: float_ok_def float_limit_def)

subsection \<open>One app\<close>

definition analyzer_typed :: "appAnalyzer \<Rightarrow> bool" where
  "analyzer_typed a \<longleftrightarrow> app_typed (az_app a) \<and> now_ok (az_currentTime a)"

definition analysis_typed :: "analysis \<Rightarrow> bool" where
  "analysis_typed s \<longleftrightarrow> (\<forall>m\<in>snd ` set (an_startMessages s). start_typed m)
     \<and> (\<forall>m\<in>snd ` set (an_stopMessages s). stop_typed m) \<and> (\<forall>c\<in>set (an_crashCounts s). crash_typed c)"

lemma analysis_typed_new [simp]: "analysis_typed (new_analysis n)" "analysis_typed (draw s) = analysis_typed s"
  by (simp_all add: analysis_typed_def new_analysis_def draw_def)

lemma append_start_typed:
  assumes "analysis_typed s" and "start_typed m"
  shows "analysis_typed (snd (appendStartMessageIfNotDuplicate a m s))"
proof -
  have "\<forall>x\<in>snd ` set (mput (PendingStartMessage_StoreKey m) m (an_startMessages s)). start_typed x"
    by (rule values_mput) (use assms in \<open>simp_all add: analysis_typed_def\<close>)
  then show ?thesis using assms by (simp add: appendStartMessageIfNotDuplicate_def analysis_typed_def split: option.split)
qed

lemma append_stop_typed:
  assumes "analysis_typed s" and "stop_typed m"
  shows "analysis_typed (appendStopMessageIfNotDuplicate a m s)"
proof -
  have "\<forall>x\<in>snd ` set (mput (PendingStopMessage_StoreKey m) m (an_stopMessages s)). stop_typed x"
    by (rule values_mput) (use assms in \<open>simp_all add: analysis_typed_def\<close>)
  then show ?thesis using assms by (simp add: appendStopMessageIfNotDuplicate_def analysis_typed_def split: option.split)
qed

lemma desired_index_int64:
  "analyzer_typed a \<Longrightarrow> 0 \<le> i \<Longrightarrow> IsIndexDesired (az_app a) i \<Longrightarrow> in_int64 i"
  by (simp add: analyzer_typed_def app_typed_def IsIndexDesired_def in_int64_def)

lemma priority_ok:
  assumes "0 \<le> i" and "IsIndexDesired (az_app a) i" and "\<not> HasStartingOrRunningInstanceAtIndex (az_app a) i"
  shows "float_ok (computePendingStartMessagePriority a)"
  using priority_bounds [OF assms] float_one by auto

lemma typed_keys: "analyzer_typed a \<Longrightarrow> proper_key (app_AppGuid (az_app a)) \<and> proper_key (app_AppVersion (az_app a)) \<and> now_ok (az_currentTime a)"
  by (simp add: analyzer_typed_def app_typed_def)

lemma missing_step_typed:
  assumes "analyzer_typed a" and "i \<in> set (desired_indices (az_app a))" and "analysis_typed s"
  shows "analysis_typed (missing_step rt a (computePendingStartMessagePriority a) i s)"
proof (cases "is_missing a i")
  case True
  have "start_typed (missing_message a (computePendingStartMessagePriority a) i guid)" for guid
    unfolding missing_message_def
    using typed_keys [OF assms(1)] assms(2) desired_index_int64 [OF assms(1), of i] priority_ok [of i a] True
    by (intro new_start_typed) (simp_all add: is_missing_def)
  then show ?thesis using assms(3) by (simp add: missing_step_def append_start_typed)
qed (use assms(3) in \<open>simp add: missing_step_def\<close>)

lemma crash_count_typed:
  assumes "analyzer_typed a" and "in_int64 i"
  shows "crash_typed (CrashCountAtIndex (az_app a) i (az_currentTime a))"
proof (cases "map_of (app_CrashCounts (az_app a)) i")
  case None
  then show ?thesis using assms now_ok_int64
    by (simp add: CrashCountAtIndex_def crash_typed_def crash_count_ok_def analyzer_typed_def app_typed_def)
next
  case (Some c)
  then have "(i, c) \<in> set (app_CrashCounts (az_app a))" by (rule map_of_SomeD)
  then show ?thesis using assms(1) Some by (auto simp add: CrashCountAtIndex_def analyzer_typed_def app_typed_def)
qed

lemma one_more_crash_typed: "crash_typed c \<Longrightarrow> crash_typed (one_more_crash c)"
  by (simp add: crash_typed_def crash_count_ok_def one_more_crash_def wrap64_range)

lemma crashed_step_typed:
  assumes "analyzer_typed a" and "i \<in> set (desired_indices (az_app a))" and "analysis_typed s"
  shows "analysis_typed (crashed_step rt a (computePendingStartMessagePriority a) i s)"
proof (cases "is_restartable a i")
  case True
  have i: "in_int64 i" using assms(1,2) by (auto intro: desired_index_int64)
  have "start_typed (crashed_message rt a (computePendingStartMessagePriority a) i guid)" for guid
    unfolding crashed_message_def
    using typed_keys [OF assms(1)] assms(2) i priority_ok [of i a] True
    by (intro new_start_typed) (simp_all add: is_restartable_def)
  then have "analysis_typed (snd (appendStartMessageIfNotDuplicate a
      (crashed_message rt a (computePendingStartMessagePriority a) i (next_guid rt s)) (draw s)))"
    using assms(3) by (simp add: append_start_typed)
  moreover have "crash_typed (one_more_crash (CrashCountAtIndex (az_app a) i (az_currentTime a)))"
    by (rule one_more_crash_typed [OF crash_count_typed [OF assms(1) i]])
  ultimately show ?thesis using True by (auto simp: crashed_step_def Let_def analysis_typed_def split: prod.splits)
qed (use assms(3) in \<open>simp add: crashed_step_def\<close>)

lemma stop_step_typed:
  assumes "analyzer_typed a" and "h \<in> set (app_InstanceHeartbeats (az_app a))" and "analysis_typed s"
  shows "analysis_typed (stop_step rt a delay reason h s)"
proof -
  have "read_typed h" using assms(1,2) by (simp add: analyzer_typed_def app_typed_def)
  then have "stop_typed (stop_message a delay h reason guid)" for guid
    unfolding stop_message_def using typed_keys [OF assms(1)]
    by (intro new_stop_typed) (simp_all add: read_typed_def proper_heartbeat_def)
  then show ?thesis using assms(3) by (simp add: stop_step_def append_stop_typed)
qed

lemma stops_typed:
  assumes "analyzer_typed a" and "set hs \<subseteq> set (app_InstanceHeartbeats (az_app a))" and "analysis_typed s"
  shows "analysis_typed (fold (stop_step rt a delay reason) hs s)"
  using assms by (intro fold_invariant_set [where P = analysis_typed]) (auto intro: stop_step_typed)

lemma evacuating_step_typed:
  assumes "analyzer_typed a" and "i \<in> fst ` set (HeartbeatsByIndex (az_app a))" and "analysis_typed s"
  shows "analysis_typed (evacuating_step rt a i s)"
proof -
  have "\<forall>h\<in>set (app_InstanceHeartbeats (az_app a)). in_int64 (hb_InstanceIndex h)"
    using assms(1) by (simp add: analyzer_typed_def app_typed_def read_typed_def)
  then have i: "in_int64 i" using assms(2) by (auto simp: keys_HeartbeatsByIndex)
  have two: "float_ok (Num 2)" by (simp add: float_ok_def float_limit_def)
  have start: "start_typed (evacuating_message a i guid)" for guid
    unfolding evacuating_message_def using typed_keys [OF assms(1)] i two by (intro new_start_typed) simp_all
  have stops: "analysis_typed (addStopMessages rt a i reason t)" if "analysis_typed t" for reason t
    unfolding addStopMessages_def using that
    by (intro stops_typed [OF assms(1)]) (auto simp: EvacuatingInstancesAtIndex_def)
  show ?thesis
    using assms(3) start stops by (auto simp: evacuating_step_def Let_def intro!: append_start_typed)
qed

lemma duplicates_at_typed:
  assumes "analyzer_typed a" and "analysis_typed s"
  shows "analysis_typed (duplicates_at rt a i s)"
proof -
  have ok: "app_ok (az_app a)" using assms(1) by (simp add: analyzer_typed_def app_typed_def)
  let ?hs = "StartingOrRunningInstancesAtIndex (az_app a) i"
  have "analysis_typed (fold (duplicate_step rt a) (enumerate 0 ?hs) s)"
  proof (rule fold_invariant_set [where P = analysis_typed, OF assms(2)])
    fix p s assume p: "p \<in> set (enumerate 0 ?hs)" and s: "analysis_typed s"
    have "snd p \<in> set ?hs" using set_enumerate_snd p by (metis prod.collapse)
    then have "snd p \<in> set (app_InstanceHeartbeats (az_app a))"
      using InstanceHeartbeatsAtIndex_eq [OF ok] by (simp add: StartingOrRunningInstancesAtIndex_def)
    then show "analysis_typed (duplicate_step rt a p s)"
      using stop_step_typed [OF assms(1) _ s] by (simp add: duplicate_step_def case_prod_beta)
  qed
  then show ?thesis using assms(2) by (simp add: duplicates_at_def Let_def)
qed

lemma analyzeApp_typed:
  assumes "analyzer_typed a"
  shows "analysis_typed (analyzeApp rt a (new_analysis n))"
proof -
  let ?p = "computePendingStartMessagePriority a"
  note inv = fold_invariant_set [where P = analysis_typed]
  have 1: "analysis_typed (generatePendingStartsForMissingInstances rt a ?p (new_analysis n))"
    unfolding generatePendingStartsForMissingInstances_def
    by (simp, intro impI inv) (auto intro: missing_step_typed [OF assms])
  have 2: "analysis_typed (generatePendingStartsForCrashedInstances rt a ?p s)" if "analysis_typed s" for s
    unfolding generatePendingStartsForCrashedInstances_def using that
    by (simp, intro impI inv) (auto intro: crashed_step_typed [OF assms])
  have 3: "analysis_typed (generatePendingStartsAndStopsForEvacuatingInstances rt a s)" if "analysis_typed s" for s
    unfolding generatePendingStartsAndStopsForEvacuatingInstances_def using that
    by (intro inv) (auto intro!: evacuating_step_typed [OF assms])
  have 4: "analysis_typed (generatePendingStopsForExtraInstances rt a s)" if "analysis_typed s" for s
    unfolding generatePendingStopsForExtraInstances_def using that
    by (intro stops_typed [OF assms]) (auto simp: ExtraStartingOrRunningInstances_def)
  have 5: "analysis_typed (generatePendingStopsForDuplicateInstances rt a s)" if "analysis_typed s" for s
    unfolding generatePendingStopsForDuplicateInstances_def using that
    by (intro inv) (auto intro: duplicates_at_typed [OF assms])
  show ?thesis by (simp add: analyzeApp_def starts_phase_def Let_def 1 2 3 4 5)
qed

subsection \<open>All apps\<close>

definition env_sane :: "analyze_env \<Rightarrow> bool" where
  "env_sane env \<longleftrightarrow> (\<forall>n. now_ok (ev_clock env n))"

definition queue_typed :: "AppQueue \<Rightarrow> bool" where
  "queue_typed q \<longleftrightarrow> (\<forall>b\<in>set (DesiredApps q). \<forall>d\<in>snd ` set b. desired_typed d)"

definition state_typed :: "analyze_state \<Rightarrow> bool" where
  "state_typed s \<longleftrightarrow> (\<forall>a\<in>snd ` set (al_actualApps s). app_typed a) \<and> (\<forall>a\<in>snd ` set (al_appsPendingRemoval s). app_typed a)
     \<and> (\<forall>m\<in>set (al_newStartMessages s). start_typed m) \<and> (\<forall>m\<in>set (al_newStopMessages s). stop_typed m)
     \<and> (\<forall>c\<in>set (al_crashCounts s). crash_typed c)"

lemma run_analysis_typed:
  assumes "env_sane env" and "app_typed app"
  shows "analysis_typed (run_analysis env conf starts stops app n)"
  unfolding run_analysis_def using assms
  by (intro analyzeApp_typed) (simp add: analyzer_typed_def newAppAnalyzer_def env_sane_def)

lemma state_typed_add:
  assumes "state_typed s" and "analysis_typed result" and "\<forall>a\<in>snd ` set apps. app_typed a" and "\<forall>a\<in>snd ` set removal. app_typed a"
    and "set ms \<subseteq> snd ` set (an_startMessages result)"
  shows "state_typed (s\<lparr>al_actualApps := apps, al_appsPendingRemoval := removal,
     al_newStartMessages := al_newStartMessages s @ ms,
     al_newStopMessages := al_newStopMessages s @ map snd (go_range ch (an_stopMessages result)),
     al_crashCounts := al_crashCounts s @ an_crashCounts result, al_analysed := n\<rparr>)"
  using assms by (auto simp: state_typed_def analysis_typed_def)

lemma analyze_desired_typed:
  assumes "env_sane env" and "desired_typed d" and "state_typed s"
  shows "state_typed (analyze_desired env conf starts stops d s)"
proof -
  let ?key = "DesiredAppState_StoreKey d"
  obtain app removal where app: "(case map_of (al_actualApps s) ?key of
             None \<Rightarrow> (NewApp (ds_AppGuid d) (ds_AppVersion d) d [] [], al_appsPendingRemoval s)
           | Some app \<Rightarrow> (app\<lparr>app_Desired := d\<rparr>, mdel ?key (al_appsPendingRemoval s))) = (app, removal)"
    by fastforce
  have typed: "app_typed app \<and> (\<forall>a\<in>snd ` set removal. app_typed a)"
  proof (cases "map_of (al_actualApps s) ?key")
    case None
    then show ?thesis using app assms(2,3) app_typed_NewApp [of "ds_AppGuid d" "ds_AppVersion d" d "[]" "[]"]
      by (auto simp: desired_typed_def state_typed_def)
  next
    case (Some a)
    have "app_typed a" using map_of_SomeD [OF Some] assms(3) by (force simp: state_typed_def)
    moreover have "set removal \<subseteq> set (al_appsPendingRemoval s)"
      using app Some set_mdel_subset [of ?key "al_appsPendingRemoval s"] by auto
    ultimately show ?thesis using app Some assms(2,3) by (auto simp: state_typed_def intro: app_typed_set_desired)
  qed
  then have "\<forall>a\<in>snd ` set (mput ?key app (al_actualApps s)). app_typed a"
    using assms(3) by (intro values_mput) (simp_all add: state_typed_def)
  then show ?thesis
    unfolding analyze_desired_def Let_def app prod.case
    using typed run_analysis_typed [OF assms(1)] by (intro state_typed_add [OF assms(3)]) auto
qed

lemma analyze_removal_typed:
  assumes "env_sane env" and "app_typed app" and "state_typed s"
  shows "state_typed (analyze_removal env conf starts stops app s)"
proof -
  let ?r = "run_analysis env conf starts stops app (al_analysed s)"
  have "state_typed (s\<lparr>al_actualApps := al_actualApps s, al_appsPendingRemoval := al_appsPendingRemoval s,
     al_newStartMessages := al_newStartMessages s @ [],
     al_newStopMessages := al_newStopMessages s @ map snd (go_range (ev_stops env (al_analysed s)) (an_stopMessages ?r)),
     al_crashCounts := al_crashCounts s @ an_crashCounts ?r, al_analysed := Suc (al_analysed s)\<rparr>)"
    by (rule state_typed_add [OF assms(3) run_analysis_typed [OF assms(1,2)]]) (use assms(3) in \<open>simp_all add: state_typed_def\<close>)
  then show ?thesis by (simp add: analyze_removal_def Let_def)
qed

lemma analyze_batches_typed:
  assumes "env_sane env" and "\<forall>b\<in>set batches. \<forall>d\<in>snd ` set b. desired_typed d" and "\<forall>a\<in>snd ` set apps. app_typed a"
  shows "state_typed (analyze_batches env conf starts stops batches apps)"
  unfolding analyze_batches_def
proof (rule fold_invariant_set [where P = state_typed])
  fix ib s assume ib: "ib \<in> set (enumerate 0 batches)" and s: "state_typed s"
  have b: "snd ib \<in> set batches" using ib by (metis map_snd_enumerate image_eqI set_map)
  show "state_typed (analyze_batch env conf starts stops ib s)"
    unfolding analyze_batch_def case_prod_beta
  proof (rule fold_invariant_set [where P = state_typed, OF s])
    fix d s assume "d \<in> set (map snd (go_range (ev_batch env (fst ib)) (snd ib)))" "state_typed s"
    then show "state_typed (analyze_desired env conf starts stops d s)"
      using assms(1,2) b by (intro analyze_desired_typed) auto
  qed
qed (use assms(3) in \<open>simp add: state_typed_def\<close>)

lemma analyze_removals_typed:
  assumes "env_sane env" and "state_typed s"
  shows "state_typed (analyze_removals env conf starts stops s)"
  unfolding analyze_removals_def
proof (rule fold_invariant_set [where P = state_typed, OF assms(2)])
  fix app t assume "app \<in> set (map snd (go_range (ev_removal env) (al_appsPendingRemoval s)))" "state_typed t"
  then show "state_typed (analyze_removal env conf starts stops app t)"
    using assms by (intro analyze_removal_typed) (auto simp: state_typed_def)
qed

subsection \<open>A run of the analyzer\<close>

text \<open>The errors a run ends with: of the adapter, a stale state, a fetch that failed; never of the decoders.\<close>

definition own_error :: "hm_error \<Rightarrow> bool" where
  "own_error e \<longleftrightarrow> (\<exists>se. e = StoreError se) \<or> e = ActualIsNotFreshError \<or> e = DesiredStateFetcherFailed"

context shared_store begin

lemma save_analysis_typed:
  assumes "st_config store = conf" and "ok w" and "state_typed s"
    and "save_analysis ex store s w = (e, w')"
  shows "ok w'" and "e = Some err \<Longrightarrow> \<exists>se. err = StoreError se"
proof -
  obtain e1 w1 where 1: "SaveCrashCounts ex store (al_crashCounts s) w = (e1, w1)" by fastforce
  obtain e2 w2 where 2: "SavePendingStartMessages ex store (al_newStartMessages s) w1 = (e2, w2)" by fastforce
  obtain e3 w3 where 3: "SavePendingStopMessages ex store (al_newStopMessages s) w2 = (e3, w3)" by fastforce
  have t1: "ok w1"
    by (rule SaveCrashCounts_typed [OF assms(1,2) _ 1]) (use assms(3) in \<open>simp add: state_typed_def\<close>)
  have t2: "ok w2"
    by (rule save_pending_typed(1) [OF assms(1) t1 2]) (use assms(3) in \<open>simp add: state_typed_def\<close>)
  have t3: "ok w3"
    by (rule save_pending_typed(2) [OF assms(1) t2 3]) (use assms(3) in \<open>simp add: state_typed_def\<close>)
  have store_errors: "\<exists>se. err = StoreError se" if "store_result r = (Some err, v)" for r err and v :: 'w
    using that by (auto simp: store_result_def split: prod.splits)
  have errs: "\<exists>se. err = StoreError se" if "e1 = Some err \<or> e2 = Some err \<or> e3 = Some err" for err
    using that 1 2 3 store_errors unfolding SaveCrashCounts_def SavePendingStartMessages_def SavePendingStopMessages_def save_def
    by blast
  show "ok w'" using assms(4) 1 2 3 t1 t2 t3
    by (auto simp: save_analysis_def split: option.splits)
  show "\<exists>se. err = StoreError se" if "e = Some err"
    by (rule errs) (use assms(4) that 1 2 3 in \<open>auto simp: save_analysis_def split: option.splits\<close>)
qed

lemma Analyze_typed:
  assumes store: "st_config store = conf" and typed: "ok w" and env: "env_sane env" and q: "queue_typed q"
    and run: "Analyze ex env now q store w = (r, store', w')"
  shows "st_config store' = conf \<and> ok w' \<and> (case r of
      Inl e \<Rightarrow> own_error e
    | Inr (apps, ms, xs) \<Rightarrow> (\<forall>a\<in>snd ` set apps. app_typed a) \<and> (\<forall>m\<in>set ms. start_typed m) \<and> (\<forall>x\<in>set xs. stop_typed x))"
    (is "?P r store' w'")
proof -
  obtain f w1 where 1: "VerifyFreshness ex store now w = (f, w1)" by fastforce
  note v = VerifyFreshness_typed [OF store typed 1]
  have fe: "own_error e" if "f = Some e" for e
    using v that 1 by (auto simp: own_error_def VerifyFreshness_def IsActualStateFresh_def
        split: prod.splits sum.splits store_error.splits option.splits if_splits)
  obtain r2 store2 w2 where 2: "GetApps ex now (ev_apps env) store w1 = (r2, store2, w2)" by (metis surj_pair)
  note apps = GetApps_typed [OF store v [THEN conjunct1] 2]
  have store2: "st_config store2 = conf" and w2: "ok w2" using apps by simp_all
  obtain r3 w3 where 3: "GetPendingStartMessages ex store2 w2 = (r3, w3)" by fastforce
  note starts = GetPending_typed(1) [OF store2 w2 3]
  obtain r4 w4 where 4: "GetPendingStopMessages ex store2 w3 = (r4, w4)" by fastforce
  note stops = GetPending_typed(2) [OF store2 starts [THEN conjunct1] 4]
  have own: "own_error (StoreError se)" for se by (simp add: own_error_def)
  show ?thesis
  proof (cases f)
    case (Some e)
    then have "r = Inl e \<and> store' = store \<and> w' = w1" using run 1 by (simp add: Analyze_def)
    then show ?thesis using store v fe [OF Some] by simp
  next
    case f: None
    show ?thesis
    proof (cases r2)
      case (Inl e)
      then have "r = Inl e \<and> store' = store2 \<and> w' = w2" using run 1 2 f by (simp add: Analyze_def)
      then show ?thesis using apps Inl own by auto
    next
      case r2: (Inr actual)
      show ?thesis
      proof (cases r3)
        case (Inl e)
        then have "r = Inl e \<and> store' = store2 \<and> w' = w3" using run 1 2 3 f r2 by (simp add: Analyze_def)
        then show ?thesis using store2 starts Inl own by auto
      next
        case r3: (Inr ms)
        show ?thesis
        proof (cases r4)
          case (Inl e)
          then have "r = Inl e \<and> store' = store2 \<and> w' = w4" using run 1 2 3 4 f r2 r3 by (simp add: Analyze_def)
          then show ?thesis using store2 stops Inl own by auto
        next
          case r4: (Inr xs)
          let ?s = "analyze_batches env (st_config store) ms xs (DesiredApps q) actual"
          let ?s' = "analyze_removals env (st_config store) ms xs ?s"
          have s': "state_typed ?s'"
            using apps r2 q by (intro analyze_removals_typed [OF env] analyze_batches_typed [OF env]) (simp_all add: queue_typed_def)
          show ?thesis
          proof (cases "fetchDesiredAppsSuccess q")
            case False
            then have "r = Inl DesiredStateFetcherFailed \<and> store' = store2 \<and> w' = w4"
              using run 1 2 3 4 f r2 r3 r4 by (simp add: Analyze_def)
            then show ?thesis using store2 stops by (simp add: own_error_def)
          next
            case ok: True
            obtain e w5 where save: "save_analysis ex store2 ?s' w4 = (e, w5)" by fastforce
            note kept = save_analysis_typed [OF store2 stops [THEN conjunct1] s' save]
            have out: "(r, store', w') = (case e of Some err \<Rightarrow> (Inl err, store2, w5)
              | None \<Rightarrow> (Inr (al_actualApps ?s', map snd (go_range (ev_pendingStarts env) ms) @ al_newStartMessages ?s',
                  map snd (go_range (ev_pendingStops env) xs) @ al_newStopMessages ?s'), store2, w5))"
              using run 1 2 3 4 f r2 r3 r4 ok save by (simp add: Analyze_def Let_def)
            have "\<forall>m\<in>snd ` set ms. start_typed m" "\<forall>x\<in>snd ` set xs. stop_typed x" using starts stops r3 r4 by simp_all
            then show ?thesis using out store2 kept s' own by (cases e) (auto simp: state_typed_def)
          qed
        qed
      qed
    qed
  qed
qed

end

end
