(* ===== verification/Services_Typed.thy ===== *)
theory Services_Typed imports Analysis_Typed Actual_State_Syncer_Facts Evacuator App_State_Api Desired_State_Manager Component_Runner begin

text \<open>
  The services over a typed store: a call of \<open>Send\<close>, a pass of the syncer, a message of the
  evacuator, a round of the analyzer, a request to the API server and a run of the shredder leave the
  store typed, whatever fails on the way and whatever the other processes write between their calls.
\<close>

subsection \<open>The sender\<close>

definition sender_typed :: "sender \<Rightarrow> bool" where
  "sender_typed s \<longleftrightarrow> (\<forall>m\<in>set (startMessagesToSave s). start_typed m) \<and> (\<forall>m\<in>set (stopMessagesToSave s). stop_typed m)"

lemma sender_typed_new [simp]: "sender_typed (new_sender conf)"
  by (simp add: sender_typed_def new_sender_def)

lemma mark_typed:
  "start_typed m \<Longrightarrow> in_int64 s \<Longrightarrow> start_typed (m\<lparr>SentOn := s\<rparr>)"
  "stop_typed x \<Longrightarrow> in_int64 s \<Longrightarrow> stop_typed (x\<lparr>SentOn := s\<rparr>)"
  by (simp_all add: start_typed_def stop_typed_def start_message_ok_def pending_ints_ok_def
      PendingStartMessage_StoreKey_def PendingStopMessage_StoreKey_def)

lemma ideal_step_typed:
  assumes "sender_typed s" and "in_int64 (Unix (currentTime s))"
  shows "start_typed m \<Longrightarrow> sender_typed (ideal_start m s)" and "stop_typed x \<Longrightarrow> sender_typed (ideal_stop x s)"
  using assms by (auto simp: sender_typed_def ideal_start_def ideal_stop_def sender_defs mark_typed)

lemma ideal_step_time [simp]:
  "currentTime (ideal_start m s) = currentTime s" "currentTime (ideal_stop x s) = currentTime s"
  by (simp_all add: ideal_start_def ideal_stop_def sender_defs)

lemma sending_typed:
  assumes "sender_typed s" and "in_int64 (Unix (currentTime s))" and "\<forall>m\<in>set ms. start_typed m" and "\<forall>x\<in>set xs. stop_typed x"
  shows "sender_typed (fst (sendStopMessages ex xs (sendStartMessages ex ch ms (s, w))))"
proof -
  let ?P = "\<lambda>t. sender_typed t \<and> currentTime t = currentTime s"
  have ms: "set (SortStartMessagesByPriority ch ms) = set ms"
    by (metis mset_SortStartMessagesByPriority set_mset_mset)
  have "?P (fst (sendStartMessages ex ch ms (s, w)))"
    unfolding sendStartMessages_def
    by (rule fold_starts_keep [where P = ?P])
      (use assms ms in \<open>auto simp: ideal_step_typed, auto simp: sender_typed_def\<close>)
  then have "?P (fst (sendStopMessages ex xs (sendStartMessages ex ch ms (s, w))))"
    unfolding sendStopMessages_def
    by (rule fold_stops_keep [where P = ?P, rotated 2])
      (use assms in \<open>auto simp: ideal_step_typed, auto simp: sender_typed_def\<close>)
  then show ?thesis by simp
qed

context shared_services begin

lemma try_write_typed:
  assumes "ok (snd sw)"
    and "\<And>v e v'. write v = (e, v') \<Longrightarrow> ok v \<Longrightarrow> ok v'"
  shows "ok (snd (try_write write sw))"
  using assms by (cases sw) (auto simp: try_write_def split: prod.splits option.splits)

lemma write_messages_typed:
  assumes "st_config store = conf" and "ok w" and "sender_typed s"
  shows "ok (snd (write_messages ex ch store (s, w)))"
proof -
  have starts: "ok v'"
    if "SavePendingStartMessages ex store (startMessagesToSave s) v = (e, v')" "ok v" for v e v'
    by (rule save_pending_typed(1) [OF assms(1) that(2,1)]) (use assms(3) in \<open>simp add: sender_typed_def\<close>)
  have stops: "ok v'"
    if "SavePendingStopMessages ex store (stopMessagesToSave s) v = (e, v')" "ok v" for v e v'
    by (rule save_pending_typed(2) [OF assms(1) that(2,1)]) (use assms(3) in \<open>simp add: sender_typed_def\<close>)
  show ?thesis
    unfolding write_messages_def prod.case
    by (rule try_write_typed)+ (simp add: assms(2), erule metrics_keep [rotated], assumption, erule (1) starts,
      erule (1) delete_pending_typed(1) [rotated], erule (1) stops, erule (1) delete_pending_typed(2) [rotated])
qed

lemma Send_typed:
  assumes store: "st_config store = conf" and typed: "ok w" and "sender_typed s"
    and "now_ok now" and "\<forall>m\<in>set ms. start_typed m" and "\<forall>x\<in>set xs. stop_typed x"
    and run: "Send ex ch chm store now apps ms xs s w = (r, s', w')"
  shows "sender_typed s'" and "ok w'"
proof -
  let ?s0 = "s\<lparr>currentTime := now, se_apps := apps\<rparr>"
  obtain f w1 where f: "VerifyFreshness ex store now w = (f, w1)" by fastforce
  have w1: "ok w1" using VerifyFreshness_typed [OF store typed f] by simp
  let ?sw = "sendStopMessages ex xs (sendStartMessages ex ch ms (?s0, w1))"
  have s0: "sender_typed ?s0" using assms(3) by (simp add: sender_typed_def)
  have sent: "sender_typed (fst ?sw)"
    by (rule sending_typed [OF s0]) (use assms(4-6) now_ok_int64 in simp_all)
  have "ok (snd ?sw)"
    unfolding sendStopMessages_def sendStartMessages_def by (intro fold_send_keep) (simp add: w1)
  then have kept: "ok (snd (write_messages ex chm store ?sw))"
    using write_messages_typed [OF store _ sent, of "snd ?sw" chm] by simp
  obtain b where "fst (write_messages ex chm store ?sw) = (fst ?sw)\<lparr>didSucceed := b\<rparr>"
    using write_messages_frame(1) by blast
  then have sent: "sender_typed (fst (write_messages ex chm store ?sw))" using sent by (simp add: sender_typed_def)
  have "(s', w') = (case f of Some e \<Rightarrow> (?s0, w1) | None \<Rightarrow> write_messages ex chm store ?sw)"
    using run f by (cases f) (auto simp: Send_def Let_def split: prod.splits)
  then have "sender_typed s' \<and> ok w'"
    using s0 w1 kept sent by (cases f) (auto dest!: prod_eq_iff [THEN iffD1])
  then show "sender_typed s'" and "ok w'" by simp_all
qed

end

subsection \<open>The syncer and the evacuator\<close>

lemma evacuation_start_typed:
  assumes "now_ok now" and "proper_key g" and "proper_key v" and "in_int64 i"
  shows "start_typed (evacuation_start conf now guid g v i)"
proof -
  have "float_ok (Num 2)" by (rule two_float_ok)
  from new_start_typed [OF assms(1) grace_int64 assms(2-4) this, of guid 0 conf PendingStartMessageReasonEvacuating]
  show ?thesis
    by (simp add: evacuation_start_def start_typed_def start_message_ok_def pending_ints_ok_def PendingStartMessage_StoreKey_def)
qed

text \<open>The readings of the clock during a pass.\<close>

definition pass_sane :: "pass_env \<Rightarrow> bool" where
  "pass_sane env \<longleftrightarrow> now_ok (pe_bump env) \<and> now_ok (pe_send env) \<and> (\<forall>i. now_ok (pe_message env i))"

lemma evacuation_starts_typed:
  assumes "pass_sane env" and "\<forall>h\<in>set hs. instance_typed h"
  shows "\<forall>m\<in>set (evacuation_starts conf env hs). start_typed m"
proof
  fix m assume "m \<in> set (evacuation_starts conf env hs)"
  then obtain i h where m: "(i, h) \<in> set (enumerate 0 hs)"
    "m = evacuation_start conf (pe_message env i) (pe_guid env i) (hb_AppGuid h) (hb_AppVersion h) (hb_InstanceIndex h)"
    by (auto simp: evacuation_starts_def)
  have "h \<in> set hs" using set_enumerate_snd [OF m(1)] .
  then have "instance_typed h" using assms(2) by simp
  then show "start_typed m" unfolding m(2) using assms(1)
    by (intro evacuation_start_typed) (simp_all add: pass_sane_def instance_typed_def proper_heartbeat_def csv_ok_def)
qed

definition syncer_typed :: "Config \<Rightarrow> syncer \<Rightarrow> bool" where
  "syncer_typed conf y \<longleftrightarrow> ys_config y = conf \<and> st_config (ys_store y) = conf \<and> sender_typed (ys_sender y)
     \<and> (\<forall>hb\<in>set (heartbeatsToSave y). heartbeat_typed hb)"

context shared_services begin

lemma after_sync_typed:
  assumes "st_config store = conf" and w: "ok w" and "pass_sane env"
  shows "ok (after_sync ex env conf n e store w)"
proof (cases e)
  case None
  let ?w = "if time_Sub (pe_saved env) (pe_start env) < HeartbeatDuration conf then syncer_bumpFreshness ex (pe_bump env) store w else w"
  have "ok ?w"
    using assms BumpActualFreshness_typed [OF assms(1,2) _ surjective_pairing] now_ok_int64
    by (simp add: syncer_bumpFreshness_def pass_sane_def)
  then show ?thesis
    using value_keeps [OF _ surjective_pairing] by (simp add: None after_sync_def Let_def TrackSavedHeartbeats_def)
qed (use RevokeActualFreshness_typed [OF w surjective_pairing] in \<open>simp add: after_sync_def\<close>)

lemma save_heartbeats_typed:
  assumes y: "syncer_typed conf y" and typed: "ok w"
    and hbs: "\<forall>hb\<in>set hbs. heartbeat_typed hb" and env: "pass_sane env" and run: "save_heartbeats ex env hbs y w = (y', w')"
  shows "syncer_typed conf y' \<and> ok w'"
proof -
  have y_conf: "ys_config y = conf" "st_config (ys_store y) = conf" using y by (simp_all add: syncer_typed_def)
  obtain evac e store w1 where sync: "SyncHeartbeats ex (pe_store_now env) (pe_choice env) hbs (ys_store y) w = ((evac, e), store, w1)"
    by (metis surj_pair)
  note s = SyncHeartbeats_typed [OF y_conf(2) typed hbs sync]
  have s_conf: "st_config store = conf" using s by simp
  let ?w2 = "after_sync ex env (ys_config y) (length hbs) e store w1"
  have w2: "ok ?w2"
    using after_sync_typed [OF s_conf _ env, of w1] s y_conf by simp
  obtain starts where starts: "starts = evacuation_starts (ys_config y) env evac" by simp
  obtain r sndr w3 where send: "Send ex (pe_choice env) (pe_choice env) store (pe_send env) [] starts [] (ys_sender y) ?w2 = (r, sndr, w3)"
    by (metis surj_pair)
  have "\<forall>m\<in>set starts. start_typed m" unfolding starts by (rule evacuation_starts_typed [OF env]) (use s in simp)
  then have sent: "sender_typed sndr \<and> ok w3"
    using Send_typed [OF s_conf w2 _ _ _ _ send] y env by (simp add: syncer_typed_def pass_sane_def)
  have "(y', w') = (if length starts > 0 then (y\<lparr>ys_store := store, ys_sender := sndr\<rparr>, w3) else (y\<lparr>ys_store := store\<rparr>, ?w2))"
    using run sync send by (auto simp: save_heartbeats_def Let_def starts [symmetric])
  then show ?thesis using y s_conf sent w2 by (auto simp: syncer_typed_def split: if_splits)
qed

lemma sync_pass_typed:
  assumes "syncer_typed conf y" and "ok w"
    and "\<forall>hb\<in>set hbs. heartbeat_typed hb" and "pass_sane env" and run: "sync_pass ex env hbs y w = (y', w')"
  shows "syncer_typed conf y' \<and> ok w'"
proof -
  obtain y1 w1 where 1: "(if length hbs > 0 then save_heartbeats ex env hbs y w else (y, w)) = (y1, w1)" by fastforce
  have "syncer_typed conf y1 \<and> ok w1"
    using save_heartbeats_typed [OF assms(1-4)] 1 assms(1,2) by (auto split: if_splits)
  then show ?thesis
    using run 1 value_keeps [OF _ surjective_pairing] by (auto simp: sync_pass_def TrackReceivedHeartbeats_def)
qed

end

text \<open>A message of a DEA that names an app with a guid and a version without slashes.\<close>

definition exit_message_ok :: "bytes \<Rightarrow> bool" where
  "exit_message_ok b \<longleftrightarrow> (case NewDropletExitedFromJSON b of
     None \<Rightarrow> True | Some d \<Rightarrow> proper_key (de_AppGuid d) \<and> proper_key (de_AppVersion d))"

definition exit_sane :: "exit_env \<Rightarrow> bool" where
  "exit_sane env \<longleftrightarrow> now_ok (xe_now env) \<and> now_ok (xe_send env)"

lemma decoded_exit_index:
  assumes "NewDropletExitedFromJSON b = Some d"
  shows "in_int64 (de_InstanceIndex d)"
  using assms unfolding NewDropletExitedFromJSON_def
  by (rule unmarshal_structE)
    (auto simp: decode_DropletExited_def zero_DropletExited_def intro: jfield_ranges split: Option.bind_splits)

context shared_services begin

lemma handleExited_typed:
  assumes store: "st_config store = conf" and typed: "ok w" and env: "exit_sane env"
    and "proper_key (de_AppGuid d)" and "proper_key (de_AppVersion d)" and "in_int64 (de_InstanceIndex d)"
  shows "ok (handleExited ex env conf' store d w)"
proof -
  let ?m = "exit_start conf' env d"
  have start: "start_typed ?m"
    unfolding exit_start_def using env assms(4-6) by (intro evacuation_start_typed) (simp_all add: exit_sane_def)
  obtain e w1 where save: "SavePendingStartMessages ex store [?m] w = (e, w1)" by fastforce
  have w1: "ok w1" by (rule save_pending_typed(1) [OF store typed save]) (simp add: start)
  obtain r s w2 where send: "Send ex (xe_choice env) (xe_choice env) store (xe_send env) [] [?m] []
      (new_sender conf') w1 = (r, s, w2)" by (metis surj_pair)
  have "ok w2"
    by (rule Send_typed(2) [OF store w1 _ _ _ _ send]) (use env start in \<open>simp_all add: exit_sane_def\<close>)
  then show ?thesis using typed save send by (simp add: handleExited_def Let_def)
qed

lemma handle_message_typed:
  assumes "st_config store = conf" and "ok w" and "exit_sane env" and "exit_message_ok b"
  shows "ok (handle_message ex env conf' store b w)"
  using assms decoded_exit_index [of b] handleExited_typed
  by (auto simp: handle_message_def exit_message_ok_def split: option.splits)

subsection \<open>The API server and the shredder\<close>

lemma lookup_apps_typed:
  "st_config store = conf \<Longrightarrow> ok w \<Longrightarrow> lookup_apps ex clock n rs apps store w = (apps', store', w') \<Longrightarrow>
   st_config store' = conf \<and> ok w'"
proof (induction rs arbitrary: n apps store w)
  case (Cons r rs)
  obtain res store1 w1 where get: "GetApp ex (clock n) (rq_AppGuid r) (rq_AppVersion r) store w = (res, store1, w1)"
    by (metis surj_pair)
  note g = GetApp_typed [OF Cons.prems(1,2) get]
  show ?case using Cons.IH [of store1 w1] Cons.prems(3) get g by (cases res) auto
qed simp

lemma bulk_ServeHTTP_typed:
  assumes "st_config store = conf" and "ok w"
    and "bulk_ServeHTTP ex ch now clock err body store w = (out, store', w')"
  shows "ok w'"
proof -
  obtain f w1 where f: "VerifyFreshness ex store now w = (f, w1)" by fastforce
  have w1: "ok w1" using VerifyFreshness_typed [OF assms(1,2) f] by simp
  show ?thesis using assms(2,3) f w1 lookup_apps_typed [OF assms(1) w1]
    by (auto simp: bulk_ServeHTTP_def Let_def split: option.splits prod.splits)
qed

lemma Shred_typed: "ok w \<Longrightarrow> ok (snd (Shred ex other w))"
  using Compact_typed [OF _ surjective_pairing] by (simp add: Shred_def)

end

subsection \<open>A round of the analyzer\<close>

definition round_sane :: "round_env \<Rightarrow> bool" where
  "round_sane env \<longleftrightarrow> env_sane (re_analyze env) \<and> now_ok (re_send_now env)"

text \<open>The apps that the cloud controller hands over have guids and versions without slashes.\<close>

definition pages_typed :: "'w externals \<Rightarrow> Config \<Rightarrow> round_env \<Rightarrow> 'w \<Rightarrow> bool" where
  "pages_typed ex conf env w \<longleftrightarrow>
     (\<forall>fetch q w1. fetchDesiredState ex conf (re_stopped env) (re_pages env) NewAppQueue w = Some (fetch, q, w1)
        \<longrightarrow> queue_typed q)"

context shared_services begin

lemma analyzeState_typed:
  assumes "st_config store = conf" and "ok w" and "env_sane env" and "queue_typed q"
    and "analyzeState ex env cha ch now q store w = (r, store', w')"
  shows "st_config store' = conf \<and> ok w' \<and> (case r of
      Inl e \<Rightarrow> own_error e
    | Inr (apps, ms, xs) \<Rightarrow> (\<forall>a\<in>snd ` set apps. app_typed a) \<and> (\<forall>m\<in>set ms. start_typed m) \<and> (\<forall>x\<in>set xs. stop_typed x))"
proof -
  obtain r1 store1 w1 where run: "Analyze ex env now q store w = (r1, store1, w1)" by (metis surj_pair)
  note an = Analyze_typed [OF assms(1-4) run]
  have "r = r1 \<and> store' = store1 \<and> ok w'"
    using assms(5) run an SendMetrics_keep by (cases r1) (auto simp: analyzeState_def)
  then show ?thesis using an by simp
qed

lemma analyze_round_typed:
  assumes store: "st_config store = conf" and typed: "ok w" and env: "round_sane env"
    and pages: "pages_typed ex conf env w" and run: "analyze_round ex env store w r w'"
  shows "ok w'"
  using run
proof cases
  case (round_failed fetch q w1 analysis store' err)
  have q: "queue_typed q" using pages round_failed(2) store by (auto simp: pages_typed_def)
  have "ok w1" by (rule fetchDesiredState_keep [OF typed round_failed(2)])
  from analyzeState_typed [OF store this _ q round_failed(3)] show ?thesis using env by (simp add: round_sane_def)
next
  case (round_sent fetch q w1 analysis store' w2 out r s)
  have q: "queue_typed q" using pages round_sent(2) store by (auto simp: pages_typed_def)
  have "ok w1" by (rule fetchDesiredState_keep [OF typed round_sent(2)])
  from analyzeState_typed [OF store this _ q round_sent(3)] env
  have an: "st_config store' = conf \<and> ok w2 \<and> (case analysis of
      Inl e \<Rightarrow> own_error e
    | Inr (apps, ms, xs) \<Rightarrow> (\<forall>a\<in>snd ` set apps. app_typed a) \<and> (\<forall>m\<in>set ms. start_typed m) \<and> (\<forall>x\<in>set xs. stop_typed x))"
    by (simp add: round_sane_def)
  have "analysis = Inr out" using loop_reaches_inv [OF round_sent(4)] by (simp add: loop_inv_def)
  moreover obtain apps ms xs where out: "out = (apps, ms, xs)" by (cases out)
  ultimately have msgs: "\<forall>m\<in>set ms. start_typed m" "\<forall>x\<in>set xs. stop_typed x" using an by simp_all
  show ?thesis
    by (rule Send_typed(2) [OF _ _ sender_typed_new _ msgs round_sent(5) [unfolded send_output_def out prod.case]])
      (use an env in \<open>simp_all add: round_sane_def\<close>)
qed

end

end
