(* ===== verification/System.thy ===== *)
theory System imports Services_Typed Store_Metrics begin

text \<open>
  The whole system over one store: the heartbeat listener with its syncer, the evacuator, the analyzer,
  the API server, the shredder and the usage tracker are processes of their own that share nothing but
  the store. \<open>system_step\<close> interleaves their operations in any order, with expiry of entries, with the
  arrival of heartbeats, and with anything the outside does to the rest of the world. Each process has a
  store client of its own, whose caches may hold anything.

  A rule lets one process run a whole operation: a pass, a round, a request. In the program the calls of
  two such operations interleave. That is what \<open>with_others\<close> adds: before every single call of an
  operation others may call the store, with typed nodes; and the invariant says of each operation that
  the nodes it writes itself are typed, so that it is one of those others to the rest.
\<close>

inductive system_step :: "'w externals \<Rightarrow> ('w \<Rightarrow> 'w \<Rightarrow> bool) \<Rightarrow> Config \<Rightarrow> 'w listener \<Rightarrow> 'w listener \<Rightarrow> bool"
  for ex :: "'w externals" and outside :: "'w \<Rightarrow> 'w \<Rightarrow> bool" and conf :: Config where
  heartbeat_arrives: "heartbeat_typed h \<Longrightarrow>
     system_step ex outside conf l (l\<lparr>li_syncer := Syncer_Heartbeat h (li_syncer l), arrived := arrived l @ [h]\<rparr>)"
| listener_collects: "li_phase l = Collecting \<Longrightarrow>
     system_step ex outside conf l (l\<lparr>li_phase := Saving (heartbeatsToSave (li_syncer l)),
       li_syncer := (li_syncer l)\<lparr>heartbeatsToSave := []\<rparr>\<rparr>)"
| listener_saves: "li_phase l = Saving hbs \<Longrightarrow> pass_sane env \<Longrightarrow>
     sync_pass ex env hbs (li_syncer l) (li_world l) = (y, w) \<Longrightarrow>
     system_step ex outside conf l (l\<lparr>li_syncer := y, li_world := w, li_phase := Selecting, passed := passed l @ hbs\<rparr>)"
| listener_ticks: "li_phase l = Selecting \<Longrightarrow> system_step ex outside conf l (l\<lparr>li_phase := Collecting\<rparr>)"
| droplet_exits: "st_config store = conf \<Longrightarrow> exit_sane exit_env \<Longrightarrow> exit_message_ok b \<Longrightarrow>
     system_step ex outside conf l (l\<lparr>li_world := handle_message ex exit_env conf store b (li_world l)\<rparr>)"
| analyzer_runs: "st_config store = conf \<Longrightarrow> round_sane round_env \<Longrightarrow> pages_typed ex conf round_env (li_world l) \<Longrightarrow>
     analyze_round ex round_env store (li_world l) r w \<Longrightarrow> system_step ex outside conf l (l\<lparr>li_world := w\<rparr>)"
| api_answers: "st_config store = conf \<Longrightarrow>
     bulk_ServeHTTP ex ch now clock err body store (li_world l) = (answer, store', w) \<Longrightarrow>
     system_step ex outside conf l (l\<lparr>li_world := w\<rparr>)"
| shredder_runs: "st_config store = conf \<Longrightarrow>
     system_step ex outside conf l (l\<lparr>li_world := snd (Shred ex store (li_world l))\<rparr>)"
| usage_saved: "st_config store = conf \<Longrightarrow>
     system_step ex outside conf l (l\<lparr>li_world := snd (SaveMetric ex store metric usage (li_world l))\<rparr>)"
| world_changes: "outside (li_world l) w \<Longrightarrow>
     system_step ex outside conf l (l\<lparr>li_world := w\<rparr>)"

inductive_cases system_stepE: "system_step ex outside conf l l'"

definition system_reaches :: "'w externals \<Rightarrow> ('w \<Rightarrow> 'w \<Rightarrow> bool) \<Rightarrow> Config \<Rightarrow> 'w listener \<Rightarrow> 'w listener \<Rightarrow> bool" where
  "system_reaches ex outside conf = (system_step ex outside conf)\<^sup>*\<^sup>*"

subsection \<open>The invariant\<close>

text \<open>In every state of the world that is as it should be, the heartbeats on their way are typed.\<close>

definition system_ok :: "('w \<Rightarrow> bool) \<Rightarrow> Config \<Rightarrow> 'w listener \<Rightarrow> bool" where
  "system_ok ok conf l \<longleftrightarrow> ok (li_world l) \<and> syncer_typed conf (li_syncer l)
     \<and> (case li_phase l of Saving hbs \<Rightarrow> \<forall>hb\<in>set hbs. heartbeat_typed hb | _ \<Rightarrow> True)"

lemma world_ok: "system_ok ok conf l \<Longrightarrow> ok w \<Longrightarrow> system_ok ok conf (l\<lparr>li_world := w\<rparr>)"
  by (simp add: system_ok_def)

lemma system_ok_world [simp]: "system_ok ok conf l \<Longrightarrow> ok (li_world l)"
  by (simp add: system_ok_def)

text \<open>The listener starts with an empty syncer.\<close>

lemma listener_start_ok:
  assumes "ok w" and "st_config store = conf"
  shows "system_ok ok conf (listener_start (NewSyncer conf store (new_sender conf)) w)"
  using assms by (simp add: system_ok_def listener_start_def NewSyncer_def syncer_typed_def)

locale shared_system = shared_services ex ok conf
  for ex :: "'w externals" and ok :: "'w \<Rightarrow> bool" and conf :: Config +
  fixes outside :: "'w \<Rightarrow> 'w \<Rightarrow> bool"
  assumes outside_keeps: "ok w \<Longrightarrow> outside w w' \<Longrightarrow> ok w'"
begin

lemma system_step_ok:
  assumes "system_step ex outside conf l l'" and "system_ok ok conf l"
  shows "system_ok ok conf l'"
  using assms
proof (induction rule: system_step.induct)
  case (heartbeat_arrives h l)
  then show ?case by (auto simp: system_ok_def syncer_typed_def Syncer_Heartbeat_def)
next
  case (listener_collects l)
  then show ?case by (simp add: system_ok_def syncer_typed_def)
next
  case (listener_saves l hbs env y w)
  from sync_pass_typed [OF _ _ _ listener_saves(2,3)] listener_saves(1,4) show ?case by (simp add: system_ok_def)
next
  case (listener_ticks l)
  then show ?case by (simp add: system_ok_def)
next
  case (droplet_exits store exit_env b l)
  then show ?case by (intro world_ok handle_message_typed) simp_all
next
  case (analyzer_runs store round_env l r w)
  then show ?case by (intro world_ok analyze_round_typed [OF _ _ _ _ analyzer_runs(4)]) simp_all
next
  case (api_answers store ch now clock err body l answer store' w)
  then show ?case by (intro world_ok bulk_ServeHTTP_typed [OF _ _ api_answers(2)]) simp_all
next
  case (shredder_runs store l)
  then show ?case by (intro world_ok Shred_typed) simp_all
next
  case (usage_saved store l metric usage)
  then show ?case by (intro world_ok SaveMetric_typed [OF _ _ surjective_pairing]) simp_all
next
  case (world_changes w l)
  then show ?case by (intro world_ok outside_keeps [OF _ world_changes(1)]) simp_all
qed

lemma system_reaches_ok:
  assumes "system_reaches ex outside conf l l'" and "system_ok ok conf l"
  shows "system_ok ok conf l'"
  using assms unfolding system_reaches_def by (induction rule: rtranclp_induct) (use system_step_ok in blast)+

lemma system_start_ok:
  assumes "ok w" and "st_config store = conf"
    and "system_reaches ex outside conf (listener_start (NewSyncer conf store (new_sender conf)) w) l"
  shows "ok (li_world l)"
  using system_reaches_ok [OF assms(3) listener_start_ok [of ok w store conf, OF assms(1,2)]] by simp

end

subsection \<open>One store, many processes\<close>

text \<open>What the outside may do to the store: entries expire.\<close>

definition expires :: "('w \<Rightarrow> string \<Rightarrow> entry option) \<Rightarrow> 'w shared_run \<Rightarrow> 'w shared_run \<Rightarrow> bool" where
  "expires entries s s' \<longleftrightarrow> sr_written s' = sr_written s
     \<and> (\<forall>k. entries (sr_world s') k = entries (sr_world s) k \<or> entries (sr_world s') k = None)"

lemma store_typed_fewer:
  assumes "store_typed store es" and "\<forall>k. es' k = es k \<or> es' k = None"
  shows "store_typed store es'"
  unfolding store_typed_def
proof (intro allI impI)
  fix cs e assume "proper_path cs" "es' (path_at store cs) = Some e"
  moreover then have "es (path_at store cs) = Some e" using assms(2) by (metis option.distinct(1))
  ultimately show "path_typed store cs e" using store_typedD [OF assms(1)] by blast
qed

lemma system_among_others:
  assumes "quiet_externals ex entries" and "fresh_key_ok conf" and "\<forall>n. \<forall>c\<in>set (others n). other_typed conf c"
  shows "shared_system (with_others ex others) (run_typed (typed_world entries conf) conf) conf (expires entries)"
proof (rule shared_system.intro)
  show "shared_services (with_others ex others) (run_typed (typed_world entries conf) conf) conf"
    by (rule shared_services.others_shared [OF alone_shared [OF assms(1,2)] assms(3)])
  show "shared_system_axioms (run_typed (typed_world entries conf) conf) (expires entries)"
    by (rule shared_system_axioms.intro)
      (auto simp: run_typed_def typed_world_def expires_def intro: store_typed_fewer)
qed

interpretation memory_system: shared_system "with_others mem_externals (\<lambda>_. [])"
    "run_typed (typed_world mem_view defaults) defaults" defaults "expires mem_view"
  by (rule system_among_others [OF quiet_memory.quiet_externals_axioms fresh_key_defaults]) simp

end
