(* ===== verification/Analysis_Complete.thy ===== *)
theory Analysis_Complete imports Analysis_Properties Analyzer_Properties Services_Typed begin

text \<open>
  What a run of the analyzer does not leave out: which starts and stops are pending after it. The facts
  about one app are those of \<open>App_Analyzer_Facts\<close> and \<open>Analyzer_Properties\<close>; here they are carried through
  the loop over the batches of desired apps, the loop over the apps that are not desired, and the three
  writes at the end.
\<close>

subsection \<open>Starts that are wanted\<close>

lemma run_analysis_wanted:
  assumes "start_wanted app i" and "map_of starts (instance_key app i) = None"
  shows "\<exists>m\<in>snd ` set (an_startMessages (run_analysis env conf starts stops app n)).
     PendingStartMessage_StoreKey m = instance_key app i"
proof -
  let ?a = "newAppAnalyzer app (ev_clock env n) starts stops conf"
  have "expected_start (ev_runtime env n) ?a i \<noteq> None" using assms unfolding expected_start_wanted by simp
  then obtain m where m: "map_of (an_startMessages (run_analysis env conf starts stops app n)) (start_key ?a i) = Some m"
    using analyzeApp_expected [of "ev_runtime env n" ?a 0 i] by (auto simp: run_analysis_def start_view_def)
  have "PendingStartMessage_StoreKey m = start_key ?a i"
    using queued_start_sound [OF m [unfolded run_analysis_def]] by simp
  then show ?thesis using map_of_SomeD [OF m] by (force simp: start_key_def instance_key_def newAppAnalyzer_def)
qed

subsection \<open>The loop over the desired apps\<close>

text \<open>The app of \<open>d\<close> has been analysed, and every start it wants was pending or is new.\<close>

definition analysed :: "(string, PendingStartMessage) gomap \<Rightarrow> DesiredAppState \<Rightarrow> analyze_state \<Rightarrow> bool" where
  "analysed starts d s \<longleftrightarrow> (\<exists>app. map_of (al_actualApps s) (DesiredAppState_StoreKey d) = Some app \<and> app_Desired app = d
     \<and> (\<forall>i. start_wanted app i \<longrightarrow> map_of starts (instance_key app i) \<noteq> None
          \<or> (\<exists>m\<in>set (al_newStartMessages s). PendingStartMessage_StoreKey m = instance_key app i)))"

lemma analysed_here: "analysed starts d (analyze_desired env conf starts stops d s)"
proof -
  let ?key = "DesiredAppState_StoreKey d"
  obtain app removal where app: "(case map_of (al_actualApps s) ?key of
             None \<Rightarrow> (NewApp (ds_AppGuid d) (ds_AppVersion d) d [] [], al_appsPendingRemoval s)
           | Some app \<Rightarrow> (app\<lparr>app_Desired := d\<rparr>, mdel ?key (al_appsPendingRemoval s))) = (app, removal)"
    by fastforce
  then have "app_Desired app = d" by (auto simp: NewApp_def [of _ _ d] split: option.splits)
  moreover have "(\<exists>m\<in>set (al_newStartMessages (analyze_desired env conf starts stops d s)).
      PendingStartMessage_StoreKey m = instance_key app i)"
    if "start_wanted app i" "map_of starts (instance_key app i) = None" for i
    using run_analysis_wanted [OF that, of env conf stops "al_analysed s"]
    by (auto simp: analyze_desired_def Let_def app)
  ultimately show ?thesis by (auto simp: analysed_def analyze_desired_def Let_def app)
qed

lemma analysed_other:
  assumes "analysed starts d s" and "DesiredAppState_StoreKey d' \<noteq> DesiredAppState_StoreKey d"
  shows "analysed starts d (analyze_desired env conf starts stops d' s)"
  using assms by (fastforce simp: analysed_def analyze_desired_def Let_def split: prod.splits)

lemma fold_reached:
  assumes "x \<in> set xs" and "\<And>s. P (f x s)" and "\<And>y s. y \<in> set xs \<Longrightarrow> P s \<Longrightarrow> P (f y s)"
  shows "P (fold f xs s)"
proof -
  obtain ys zs where xs: "xs = ys @ x # zs" using split_list [OF assms(1)] by blast
  have "P (fold f zs t)" if "P t" for t
    using that assms(3) by (intro fold_invariant_set [where P = P]) (auto simp: xs)
  then show ?thesis by (simp add: xs assms(2))
qed

lemma analysed_step:
  assumes "\<forall>d'\<in>D. DesiredAppState_StoreKey d' = DesiredAppState_StoreKey d \<longrightarrow> d' = d" and "d' \<in> D" and "analysed starts d s"
  shows "analysed starts d (analyze_desired env conf starts stops d' s)"
  using assms analysed_here analysed_other by (cases "d' = d") auto

lemma analysed_batches:
  assumes "d \<in> desired_apps batches"
    and "\<forall>d'\<in>desired_apps batches. DesiredAppState_StoreKey d' = DesiredAppState_StoreKey d \<longrightarrow> d' = d"
  shows "analysed starts d (analyze_batches env conf starts stops batches apps)"
proof -
  obtain b p where b: "b \<in> set batches" "p \<in> set b" "d = snd p" using assms(1) by (auto simp: desired_apps_def)
  then obtain i where "i < length batches" "batches ! i = b" by (auto simp: in_set_conv_nth)
  then have ib: "(i, b) \<in> set (enumerate 0 batches)" by (simp add: in_set_enumerate_eq)
  have member: "d' \<in> desired_apps batches" if "(j, c) \<in> set (enumerate 0 batches)" "d' \<in> snd ` set c" for j c d'
    using that by (auto simp: desired_apps_def dest!: set_enumerate_snd)
  show ?thesis
    unfolding analyze_batches_def
  proof (rule fold_reached [where P = "analysed starts d", OF ib])
    fix s show "analysed starts d (analyze_batch env conf starts stops (i, b) s)"
      unfolding analyze_batch_def prod.case
    proof (rule fold_reached [where P = "analysed starts d" and x = d])
      fix d' s assume "d' \<in> set (map snd (go_range (ev_batch env i) b))" "analysed starts d s"
      then show "analysed starts d (analyze_desired env conf starts stops d' s)"
        by (intro analysed_step [OF assms(2) member [OF ib]]) auto
    qed (use b in \<open>auto intro: analysed_here\<close>)
  next
    fix jc s assume jc: "jc \<in> set (enumerate 0 batches)" and s: "analysed starts d s"
    then show "analysed starts d (analyze_batch env conf starts stops jc s)"
      unfolding analyze_batch_def case_prod_beta
      by (intro fold_invariant_set [where P = "analysed starts d", OF s] analysed_step [OF assms(2) member [of "fst jc" "snd jc"]])
        auto
  qed
qed

lemma analysed_removals:
  assumes "analysed starts d s"
  shows "analysed starts d (analyze_removals env conf starts' stops s)"
  unfolding analyze_removals_def
  by (rule fold_invariant_set [where P = "analysed starts d", OF assms])
    (simp add: analysed_def analyze_removal_def Let_def)

text \<open>What is read is filed under its own key, so a start that is pending already is handed on.\<close>

lemma decode_nodes_keys:
  "decode_nodes key dec ns m = Inr m' \<Longrightarrow> \<forall>(k, x)\<in>set m. k = key x \<Longrightarrow> \<forall>(k, x)\<in>set m'. k = key x"
proof (induction key dec ns m rule: decode_nodes.induct)
  case (2 key dec n ns m)
  then obtain x where x: "dec (sn_Value n) = Some x" "decode_nodes key dec ns (mput (key x) x m) = Inr m'"
    by (auto split: option.splits)
  have "\<forall>(k, y)\<in>set (mput (key x) x m). k = key y"
    using 2(3) set_mput_subset [of "key x" x m] by fastforce
  then show ?case using 2(1) [OF x] by blast
qed simp

lemma get_keys: "get ex key dec dir w = (Inr m, w') \<Longrightarrow> (k, x) \<in> set m \<Longrightarrow> k = key x"
  using decode_nodes_keys [of key dec _ "[]" m] by (fastforce simp: get_def split: prod.splits sum.splits)

lemma Analyze_wants:
  assumes "Analyze ex env now q store w = (Inr (apps, ss, xs), store', w')" and "d \<in> desired_apps (DesiredApps q)"
    and "\<forall>d'\<in>desired_apps (DesiredApps q). DesiredAppState_StoreKey d' = DesiredAppState_StoreKey d \<longrightarrow> d' = d"
  shows "\<exists>app. map_of apps (DesiredAppState_StoreKey d) = Some app \<and> app_Desired app = d
     \<and> (\<forall>i. start_wanted app i \<longrightarrow> (\<exists>m\<in>set ss. PendingStartMessage_StoreKey m = instance_key app i))"
proof -
  obtain actual store2 w1 w2 starts w3 stops w4 s where run:
    "GetPendingStartMessages ex store2 w2 = (Inr starts, w3)"
    "s = analyze_removals env (st_config store) starts stops
       (analyze_batches env (st_config store) starts stops (DesiredApps q) actual)"
    "ss = map snd (go_range (ev_pendingStarts env) starts) @ al_newStartMessages s" "apps = al_actualApps s"
    by (rule Analyze_run [OF assms(1)])
  have "analysed starts d s" unfolding run(2) by (intro analysed_removals analysed_batches assms(2,3))
  then obtain app where app: "map_of apps (DesiredAppState_StoreKey d) = Some app" "app_Desired app = d"
    and wanted: "\<And>i. start_wanted app i \<Longrightarrow> map_of starts (instance_key app i) \<noteq> None
      \<or> (\<exists>m\<in>set (al_newStartMessages s). PendingStartMessage_StoreKey m = instance_key app i)"
    by (auto simp: analysed_def run(4))
  have "\<exists>m\<in>set ss. PendingStartMessage_StoreKey m = instance_key app i" if i: "start_wanted app i" for i
  proof (cases "map_of starts (instance_key app i)")
    case None
    then show ?thesis using wanted [OF i] by (auto simp: run(3))
  next
    case (Some m)
    then have "(instance_key app i, m) \<in> set starts" by (rule map_of_SomeD)
    moreover then have "instance_key app i = PendingStartMessage_StoreKey m"
      using get_keys run(1) unfolding GetPendingStartMessages_def by metis
    ultimately show ?thesis by (force simp: run(3))
  qed
  with app show ?thesis by blast
qed

subsection \<open>Apps that are not desired\<close>

text \<open>An app as it is built from the store: nothing is desired of it.\<close>

lemma run_analysis_stopped:
  assumes "app_ok app" and "undesired app" and "\<forall>h\<in>set (app_InstanceHeartbeats app). 0 \<le> hb_InstanceIndex h"
    and "h \<in> set (app_InstanceHeartbeats app)" and "IsStartingOrRunning h" and "map_of stops (hb_InstanceGuid h) = None"
  shows "\<exists>x\<in>snd ` set (an_stopMessages (run_analysis env conf starts stops app n)).
     PendingStopMessage_StoreKey x = hb_InstanceGuid h"
proof -
  let ?a = "newAppAnalyzer app (ev_clock env n) starts stops conf"
  have az: "az_app ?a = app" "\<not> stop_queued ?a (hb_InstanceGuid h)"
    using assms(6) by (simp_all add: newAppAnalyzer_def stop_queued_def)
  have "\<not> start_wanted app i" for i
    using assms(3) undesired_facts [OF assms(2)]
    by (fastforce simp: start_wanted_def HasEvacuatingInstanceAtIndex_iff)
  then have "expected_start (ev_runtime env n) ?a i = None" for i using expected_start_wanted by metis
  moreover have "is_extra ?a h" using assms(3-5) undesired_facts [OF assms(2)] by (auto simp: is_extra_def az(1))
  ultimately have "hb_InstanceGuid h \<in> dom (stop_view (analyzeApp (ev_runtime env n) ?a (new_analysis 0)))"
    using assms(1,4) az by (subst analyzeApp_stop_dom) (auto simp: expected_stop_def)
  then obtain x where x: "map_of (an_stopMessages (run_analysis env conf starts stops app n)) (hb_InstanceGuid h) = Some x"
    by (auto simp: stop_view_def run_analysis_def)
  moreover have "stops_all ?a (stop_justified ?a) (run_analysis env conf starts stops app n)"
    unfolding run_analysis_def by (rule analyzeApp_stops(1)) (simp add: az(1) assms(1))
  ultimately have "PendingStopMessage_StoreKey x = hb_InstanceGuid h"
    by (simp add: stops_all_def PendingStopMessage_StoreKey_def)
  then show ?thesis using map_of_SomeD [OF x] by force
qed

text \<open>No batch touches the apps under other keys.\<close>

lemma untouched_apps:
  assumes "\<forall>d\<in>desired_apps batches. DesiredAppState_StoreKey d \<noteq> k"
  shows "map_of (al_actualApps (analyze_batches env conf starts stops batches apps)) k = map_of apps k
     \<and> map_of (al_appsPendingRemoval (analyze_batches env conf starts stops batches apps)) k = map_of apps k"
    (is "?P (analyze_batches env conf starts stops batches apps)")
  unfolding analyze_batches_def
proof (rule fold_invariant_set [where P = ?P])
  fix ib s assume ib: "ib \<in> set (enumerate 0 batches)" and s: "?P s"
  have other: "DesiredAppState_StoreKey (snd p) \<noteq> k" if "p \<in> set (snd ib)" for p
    using assms ib that set_enumerate_snd [of "fst ib" "snd ib" 0 batches] by (auto simp: desired_apps_def)
  show "?P (analyze_batch env conf starts stops ib s)"
    unfolding analyze_batch_def case_prod_beta
    by (rule fold_invariant_set [where P = ?P, OF s])
      (use other in \<open>auto simp: analyze_desired_def Let_def split: prod.splits option.splits\<close>)
qed simp

lemma removals_stop:
  assumes "map_of (al_appsPendingRemoval s) k = Some app" and "app_ok app" and "undesired app"
    and "\<forall>h\<in>set (app_InstanceHeartbeats app). 0 \<le> hb_InstanceIndex h"
    and "h \<in> set (app_InstanceHeartbeats app)" and "IsStartingOrRunning h" and "map_of stops (hb_InstanceGuid h) = None"
  shows "\<exists>x\<in>set (al_newStopMessages (analyze_removals env conf starts stops s)).
     PendingStopMessage_StoreKey x = hb_InstanceGuid h"
  unfolding analyze_removals_def
proof (rule fold_reached [where x = app])
  show "app \<in> set (map snd (go_range (ev_removal env) (al_appsPendingRemoval s)))"
    using map_of_SomeD [OF assms(1)] by force
  fix t show "\<exists>x\<in>set (al_newStopMessages (analyze_removal env conf starts stops app t)).
     PendingStopMessage_StoreKey x = hb_InstanceGuid h"
    using run_analysis_stopped [OF assms(2-7), of env conf starts "al_analysed t"]
    by (auto simp: analyze_removal_def Let_def)
qed (auto simp: analyze_removal_def Let_def)

subsection \<open>The writes at the end\<close>

context kv_adapter begin

lemma crash_counts_elsewhere:
  assumes "SaveCrashCounts ex store cs w = (None, w')"
  shows "entries w' (start_dir store @ ''/'' @ k) = entries w (start_dir store @ ''/'' @ k)"
    and "entries w' (stop_dir store @ ''/'' @ k) = entries w (stop_dir store @ ''/'' @ k)"
proof -
  have set: "ad_SetMulti ex (map (\<lambda>crashCount. leaf_node (crashCountStoreKey store crashCount) (CrashCount_ToJSON crashCount)
      (crash_count_ttl (st_config store))) cs) w = (None, w')"
    using assms by (simp add: SaveCrashCounts_def store_result_def split: prod.splits)
  show "entries w' (start_dir store @ ''/'' @ k) = entries w (start_dir store @ ''/'' @ k)"
    by (rule set_multi_frame [OF set]) (auto simp: start_dir_def crashCountStoreKey_def below_def prefix_def)
  show "entries w' (stop_dir store @ ''/'' @ k) = entries w (stop_dir store @ ''/'' @ k)"
    by (rule set_multi_frame [OF set]) (auto simp: stop_dir_def crashCountStoreKey_def below_def prefix_def)
qed

lemma save_analysis_pending:
  assumes "save_analysis ex store s w = (None, w')"
    and "\<forall>m\<in>set (al_newStartMessages s). start_typed m" and "\<forall>x\<in>set (al_newStopMessages s). stop_typed x"
    and "distinct (map PendingStartMessage_StoreKey (al_newStartMessages s))"
    and "distinct (map PendingStopMessage_StoreKey (al_newStopMessages s))"
  shows "pending_starts store (entries w') =
      pending_starts store (entries w) ++ map_of (map (\<lambda>m. (PendingStartMessage_StoreKey m, m)) (al_newStartMessages s))"
    and "pending_stops store (entries w') =
      pending_stops store (entries w) ++ map_of (map (\<lambda>x. (PendingStopMessage_StoreKey x, x)) (al_newStopMessages s))"
proof -
  note ms = start_message_store [OF kv_adapter_axioms] and xs = stop_message_store [OF kv_adapter_axioms]
  obtain w1 w2 where 1: "SaveCrashCounts ex store (al_crashCounts s) w = (None, w1)"
    and 2: "save ex PendingStartMessage_StoreKey PendingStartMessage_ToJSON (al_newStartMessages s) (start_dir store) 0 w1 = (None, w2)"
    and 3: "save ex PendingStopMessage_StoreKey PendingStopMessage_ToJSON (al_newStopMessages s) (stop_dir store) 0 w2 = (None, w')"
    using assms(1) by (auto simp: save_analysis_def SavePendingStartMessages_def SavePendingStopMessages_def start_dir_eq
        split: option.splits prod.splits)
  have starts_ok: "message_store.message_keys_ok PendingStartMessage_StoreKey start_message_ok (al_newStartMessages s)"
    using assms(2,4) by (simp add: message_store.message_keys_ok_def [OF ms] start_typed_def)
  have stops_ok: "message_store.message_keys_ok PendingStopMessage_StoreKey pending_ints_ok (al_newStopMessages s)"
    using assms(3,5) by (simp add: message_store.message_keys_ok_def [OF xs] stop_typed_def)
  have "pending_starts store (entries w1) = pending_starts store (entries w)"
    "pending_stops store (entries w1) = pending_stops store (entries w)"
    by (intro stored_cong crash_counts_elsewhere [OF 1])+
  moreover have "pending_starts store (entries w') = pending_starts store (entries w2)"
    by (intro stored_cong message_store.save_elsewhere [OF xs 3] dirs_apart)
  moreover have "pending_stops store (entries w2) = pending_stops store (entries w1)"
    by (intro stored_cong message_store.save_elsewhere [OF ms 2] dirs_apart dirs_apart(1) [symmetric])
  ultimately show "pending_starts store (entries w') =
      pending_starts store (entries w) ++ map_of (map (\<lambda>m. (PendingStartMessage_StoreKey m, m)) (al_newStartMessages s))"
    "pending_stops store (entries w') =
      pending_stops store (entries w) ++ map_of (map (\<lambda>x. (PendingStopMessage_StoreKey x, x)) (al_newStopMessages s))"
    using message_store.save_stored [OF ms 2 starts_ok] message_store.save_stored [OF xs 3 stops_ok] by simp_all
qed

end

subsection \<open>After a run\<close>

text \<open>What a run computed, with its messages typed; \<open>starts\<close> and \<open>stops\<close> are those that were pending.\<close>

lemma pending_after:
  assumes "es' = es ++ map_of (map (\<lambda>m. (key m, m)) new)" and "ms = map snd (go_range ch old) @ new"
    and "distinct (map key ms)" and "map_of old = es" and "gomap_ok old"
    and "\<And>k m. es k = Some m \<Longrightarrow> key m = k" and "m \<in> set ms"
  shows "es' (key m) = Some m"
proof (cases "m \<in> set new")
  case True
  then have "map_of (map (\<lambda>m. (key m, m)) new) (key m) = Some m"
    using assms(2,3) by (intro map_of_is_SomeI) (auto simp: comp_def)
  then show ?thesis by (simp add: assms(1) map_add_def)
next
  case False
  then have m: "m \<in> set (map snd (go_range ch old))" using assms(2,7) by simp
  then obtain k where k: "(k, m) \<in> set old" by auto
  then have "es k = Some m" using map_of_Some_iff [OF assms(5)] assms(4) by blast
  then have "es (key m) = Some m" using assms(6) by blast
  moreover have "key m \<notin> key ` set new" using assms(2,3) m by auto
  then have "map_of (map (\<lambda>m. (key m, m)) new) (key m) = None" by (simp add: map_of_eq_None_iff image_image)
  ultimately show ?thesis by (simp add: assms(1) map_add_def)
qed

context kv_adapter begin

text \<open>What a run over a typed store has read, and the writes at its end.\<close>

lemma Analyze_reads:
  assumes "store_typed store (entries w)" and "Analyze ex env now q store w = (Inr (apps, ss, xs), store', w')"
  obtains actual starts stops s store2 w2 where
    "GetApps ex now (ev_apps env) store w = (Inr actual, store2, w2)"
    "s = analyze_removals env (st_config store) starts stops
       (analyze_batches env (st_config store) starts stops (DesiredApps q) actual)"
    "apps = al_actualApps s"
    "ss = map snd (go_range (ev_pendingStarts env) starts) @ al_newStartMessages s"
    "xs = map snd (go_range (ev_pendingStops env) stops) @ al_newStopMessages s"
    "map_of starts = pending_starts store (entries w)" "gomap_ok starts"
    "map_of stops = pending_stops store (entries w)" "gomap_ok stops"
    "start_dir store2 = start_dir store" "stop_dir store2 = stop_dir store"
    "pending_starts store (entries w2) = pending_starts store (entries w)"
    "pending_stops store (entries w2) = pending_stops store (entries w)"
    "save_analysis ex store2 s w2 = (None, w')"
proof -
  obtain actual store2 w1 w2 starts w3 stops w4 s where run:
    "VerifyFreshness ex store now w = (None, w1)" "GetApps ex now (ev_apps env) store w1 = (Inr actual, store2, w2)"
    "GetPendingStartMessages ex store2 w2 = (Inr starts, w3)" "GetPendingStopMessages ex store2 w3 = (Inr stops, w4)"
    "s = analyze_removals env (st_config store) starts stops
       (analyze_batches env (st_config store) starts stops (DesiredApps q) actual)"
    "ss = map snd (go_range (ev_pendingStarts env) starts) @ al_newStartMessages s"
    "xs = map snd (go_range (ev_pendingStops env) stops) @ al_newStopMessages s"
    "save_analysis ex store2 s w4 = (None, w')" "apps = al_actualApps s"
    by (rule Analyze_run [OF assms(2)])
  note ms = start_message_store [OF kv_adapter_axioms] and st = stop_message_store [OF kv_adapter_axioms]
  have w1: "w1 = w" using VerifyFreshness_pure [OF run(1)] .
  note kept = start_values_kept [OF run(2)] and pending = GetApps_pending [OF run(2)]
  have dirs: "start_dir store2 = start_dir store" "stop_dir store2 = stop_dir store"
    by (simp_all add: kept(1) stop_dir_def pending(3))
  have stops_kept: "entries w2 (stop_dir store @ ''/'' @ k) = entries w (stop_dir store @ ''/'' @ k)" for k
    using pending(2) [of k] by (simp add: stop_dir_def w1)
  have stops_same: "pending_stops store (entries w2) = pending_stops store (entries w)"
    "values_ok PendingStopMessage_StoreKey NewPendingStopMessageFromJSON (stop_dir store) (entries w2) =
     values_ok PendingStopMessage_StoreKey NewPendingStopMessageFromJSON (stop_dir store) (entries w)"
    by (rule stored_cong, rule stops_kept) (rule values_ok_cong, rule stops_kept)
  have ok2: "values_ok PendingStartMessage_StoreKey NewPendingStartMessageFromJSON (start_dir store2) (entries w2)"
    using typed_values(1) [OF assms(1)] by (simp add: kept(1,2) w1)
  have sok2: "values_ok PendingStopMessage_StoreKey NewPendingStopMessageFromJSON (stop_dir store2) (entries w2)"
    using typed_values(2) [OF assms(1)] stops_same(2) unfolding dirs by blast
  have get: "get ex PendingStartMessage_StoreKey NewPendingStartMessageFromJSON (start_dir store2) w2 = (Inr starts, w3)"
    using run(3) by (simp add: GetPendingStartMessages_def start_dir_eq)
  have starts: "map_of starts = pending_starts store (entries w)" "gomap_ok starts" "w3 = w2"
    using read_starts [OF ok2 run(3)] message_store.get_stored [OF ms ok2 dirs_proper(1) get] by (simp_all add: kept(1,3) w1)
  have get': "get ex PendingStopMessage_StoreKey NewPendingStopMessageFromJSON (stop_dir store2) w2 = (Inr stops, w4)"
    using run(4) starts(3) by (simp add: GetPendingStopMessages_def start_dir_eq)
  have stops: "map_of stops = pending_stops store (entries w)" "w4 = w2"
    using message_store.get_stored [OF st sok2 dirs_proper(2) get'] stops_same(1) by (simp_all add: dirs)
  have stops_ok: "gomap_ok stops" by (rule get_gomap_ok [OF get'])
  have w: "GetApps ex now (ev_apps env) store w = (Inr actual, store2, w2)" using run(2) by (simp add: w1)
  have same: "pending_starts store (entries w2) = pending_starts store (entries w)" by (simp add: kept(3) w1)
  have save: "save_analysis ex store2 s w2 = (None, w')" using run(8) by (simp add: stops(2))
  show thesis by (rule that [OF w run(5,9,6,7) starts(1,2) stops(1) stops_ok dirs same stops_same(1) save])
qed

end

context quiet_externals begin

lemma Analyze_complete_run:
  assumes "fresh_key_ok (st_config store)" and "store_typed store (entries w)" and "env_sane env" and "queue_typed q"
    and "Analyze ex env now q store w = (Inr (apps, ss, xs), store', w')"
    and "distinct (map PendingStartMessage_StoreKey ss)" and "distinct (map PendingStopMessage_StoreKey xs)"
  obtains actual starts stops s store2 w1 w2 where
    "s = analyze_removals env (st_config store) starts stops
       (analyze_batches env (st_config store) starts stops (DesiredApps q) actual)"
    "GetApps ex now (ev_apps env) store w1 = (Inr actual, store2, w2)" "apps = al_actualApps s"
    "ss = map snd (go_range (ev_pendingStarts env) starts) @ al_newStartMessages s"
    "xs = map snd (go_range (ev_pendingStops env) stops) @ al_newStopMessages s"
    "map_of starts = pending_starts store (entries w)" "map_of stops = pending_stops store (entries w)"
    "\<forall>m\<in>set ss. pending_starts store (entries w') (PendingStartMessage_StoreKey m) = Some m"
    "\<forall>x\<in>set xs. pending_stops store (entries w') (PendingStopMessage_StoreKey x) = Some x"
proof -
  obtain actual starts stops s store2 w2 where run:
    "GetApps ex now (ev_apps env) store w = (Inr actual, store2, w2)"
    "s = analyze_removals env (st_config store) starts stops
       (analyze_batches env (st_config store) starts stops (DesiredApps q) actual)"
    "apps = al_actualApps s"
    "ss = map snd (go_range (ev_pendingStarts env) starts) @ al_newStartMessages s"
    "xs = map snd (go_range (ev_pendingStops env) stops) @ al_newStopMessages s"
    "map_of starts = pending_starts store (entries w)" "gomap_ok starts"
    "map_of stops = pending_stops store (entries w)" "gomap_ok stops"
    "start_dir store2 = start_dir store" "stop_dir store2 = stop_dir store"
    "pending_starts store (entries w2) = pending_starts store (entries w)"
    "pending_stops store (entries w2) = pending_stops store (entries w)"
    "save_analysis ex store2 s w2 = (None, w')"
    by (rule Analyze_reads [OF assms(2,5)])
  have world: "typed_world entries (st_config store) w" unfolding client_world [OF refl] by (rule assms(2))
  have "\<forall>m\<in>set ss. start_typed m" "\<forall>x\<in>set xs. stop_typed x"
    using shared_store.Analyze_typed [OF shared_services.axioms(1) [OF alone_shared [OF quiet_externals_axioms assms(1)]] refl world assms(3-5)] by simp_all
  then have new_typed: "\<forall>m\<in>set (al_newStartMessages s). start_typed m" "\<forall>x\<in>set (al_newStopMessages s). stop_typed x"
    by (simp_all add: run(4,5))
  have new_distinct: "distinct (map PendingStartMessage_StoreKey (al_newStartMessages s))"
    "distinct (map PendingStopMessage_StoreKey (al_newStopMessages s))"
    using assms(6,7) by (simp_all add: run(4,5))
  note saved = save_analysis_pending [OF run(14) new_typed new_distinct]
  have after: "pending_starts store (entries w') = pending_starts store (entries w) ++
        map_of (map (\<lambda>m. (PendingStartMessage_StoreKey m, m)) (al_newStartMessages s))"
    "pending_stops store (entries w') = pending_stops store (entries w) ++
        map_of (map (\<lambda>x. (PendingStopMessage_StoreKey x, x)) (al_newStopMessages s))"
    using saved by (simp_all add: run(10-13))
  have start_keys: "PendingStartMessage_StoreKey m = k" if "pending_starts store (entries w) k = Some m" for k m
    by (rule stored_key [OF typed_values(1) [OF assms(2)] that])
  have stop_keys: "PendingStopMessage_StoreKey x = k" if "pending_stops store (entries w) k = Some x" for k x
    by (rule stored_key [OF typed_values(2) [OF assms(2)] that])
  have "\<forall>m\<in>set ss. pending_starts store (entries w') (PendingStartMessage_StoreKey m) = Some m"
    using pending_after [OF after(1) run(4) assms(6) run(6,7) start_keys] by blast
  moreover have "\<forall>x\<in>set xs. pending_stops store (entries w') (PendingStopMessage_StoreKey x) = Some x"
    using pending_after [OF after(2) run(5) assms(7) run(8,9) stop_keys] by blast
  ultimately show thesis by (rule that [OF run(2,1,3-6,8)])
qed

end

end
