(* ===== verification/System_Properties.thy ===== *)
theory System_Properties imports System Analysis_Complete Samples begin

text \<open>
  The properties of the whole system: whatever the processes do in whatever order, and however their
  writes fail, the store stays typed, and so every reader can read all of it.
\<close>

subsection \<open>A short run\<close>

definition running_report :: Heartbeat where
  "running_report = \<lparr>DeaGuid = ''dea'', InstanceHeartbeats = [sample_heartbeat ''a'' 0 InstanceStateRunning]\<rparr>"

definition running_env :: pass_env where
  "running_env = \<lparr>pe_start = time_Unix 1000, pe_store_now = time_Unix 1000, pe_saved = time_Unix 1001,
     pe_bump = time_Unix 1001, pe_message = (\<lambda>_. time_Unix 1001), pe_guid = (\<lambda>_. ''id''),
     pe_send = time_Unix 1001, pe_choice = (\<lambda>_. 0)\<rparr>"

text \<open>Another listener reports its DEA before the second call of each pass.\<close>

definition sample_others :: "nat \<Rightarrow> other_call list" where
  "sample_others n = (if n = 1 then [Other_Set [deaPresenceNode (NewStore defaults) ''dea-2'']] else [])"

definition shared_externals :: "memory shared_run externals" where
  "shared_externals = with_others mem_externals sample_others"

definition empty_run :: "memory shared_run" where
  "empty_run = \<lparr>sr_world = empty_memory, sr_calls = 0, sr_written = []\<rparr>"

definition idle_system :: "memory shared_run listener" where
  "idle_system = listener_start (NewSyncer defaults sample_store (new_sender defaults)) empty_run"

definition running_run :: "memory shared_run" where
  "running_run = snd (sync_pass shared_externals running_env [running_report]
     (NewSyncer defaults sample_store (new_sender defaults)) empty_run)"

definition running_world :: memory where
  "running_world = sr_world running_run"

definition running_system :: "memory shared_run listener" where
  "running_system = \<lparr>li_syncer = fst (sync_pass shared_externals running_env [running_report]
       (NewSyncer defaults sample_store (new_sender defaults)) empty_run),
     li_world = running_run, li_phase = Selecting, run_returned = False,
     arrived = [running_report], passed = [running_report]\<rparr>"

lemma sample_others_typed: "\<forall>n. \<forall>c\<in>set (sample_others n). other_typed defaults c"
  using presence_node_typed [of "NewStore defaults"] fresh_key_defaults by (simp add: sample_others_def NewStore_def)

lemma running_report_typed: "heartbeat_typed running_report"
  by (simp add: heartbeat_typed_def running_report_def sample_heartbeat_def instance_typed_def proper_heartbeat_def
      proper_key_def csv_ok_def in_int64_def InstanceStateRunning_def round1_def round_half_even_def float_limit_def)

lemma running_env_sane: "pass_sane running_env"
  by (simp add: pass_sane_def running_env_def now_ok_def)

lemma running_reached: "system_reaches shared_externals (expires mem_view) defaults idle_system running_system"
proof -
  let ?step = "system_step shared_externals (expires mem_view) defaults"
  let ?y = "NewSyncer defaults sample_store (new_sender defaults)"
  let ?l1 = "idle_system\<lparr>li_syncer := Syncer_Heartbeat running_report ?y, arrived := [running_report]\<rparr>"
  let ?l2 = "?l1\<lparr>li_phase := Saving [running_report], li_syncer := ?y\<rparr>"
  have 1: "?step idle_system ?l1"
    using heartbeat_arrives [OF running_report_typed, of shared_externals "expires mem_view" defaults idle_system]
    by (simp add: idle_system_def listener_start_def NewSyncer_def)
  have 2: "?step ?l1 ?l2"
    using listener_collects [of ?l1 shared_externals "expires mem_view" defaults]
    by (simp add: idle_system_def listener_start_def NewSyncer_def Syncer_Heartbeat_def)
  have 3: "?step ?l2 running_system"
    using listener_saves [of ?l2 "[running_report]" running_env shared_externals _ _ "expires mem_view" defaults, OF _ running_env_sane surjective_pairing]
    by (simp add: idle_system_def listener_start_def running_system_def running_run_def)
  show ?thesis
    unfolding system_reaches_def
    by (rule rtranclp.rtrancl_into_rtrancl [OF rtranclp.rtrancl_into_rtrancl [OF r_into_rtranclp [of ?step]]]) (fact 1 2 3)+
qed

subsection \<open>The type of the store\<close>


lemma idle_facts:
  "fresh_key_ok defaults" "st_config sample_store = defaults" "mem_view (sr_world empty_run) = (\<lambda>_. None)" "sr_written empty_run = []"
  by (rule fresh_key_defaults) (simp_all add: sample_store_def NewStore_def mem_view_def empty_run_def empty_memory_def fun_eq_iff)

lemmas running_reached_shared = running_reached [unfolded idle_system_def shared_externals_def]


subsection \<open>What a reader sees\<close>




definition later_env :: analyze_env where
  "later_env = \<lparr>ev_clock = (\<lambda>_. time_Unix 1100), ev_apps = (\<lambda>_. 0), ev_pendingStarts = (\<lambda>_. 0),
     ev_pendingStops = (\<lambda>_. 0), ev_batch = (\<lambda>_ _. 0), ev_removal = (\<lambda>_. 0),
     ev_runtime = (\<lambda>_. \<lparr>rt_Guid = (\<lambda>_. ''id''), rt_range = (\<lambda>_. 0), rt_unrep = 0\<rparr>),
     ev_starts = (\<lambda>_ _. 0), ev_stops = (\<lambda>_ _. 0)\<rparr>"

definition wanted_queue :: AppQueue where
  "wanted_queue = \<lparr>DesiredApps = [[(''app,v1'', sample_desired 2)]], fetchDesiredAppsSuccess = True\<rparr>"

lemma later_env_sane: "env_sane later_env"
  by (simp add: env_sane_def later_env_def now_ok_def)

lemma wanted_queue_typed: "queue_typed wanted_queue"
  by (simp add: queue_typed_def wanted_queue_def desired_typed_def sample_desired_def in_int64_def proper_key_def)


subsection \<open>What a run leaves pending\<close>

text \<open>
  C17. After a run of the analyzer over a typed store every start that is wanted is pending: for every
  desired app of the queue, with the apps as the run returns them, and every desired index without
  a starting or running instance that is not held back, the store holds a start message for that index,
  and the same message is handed to the sender. The keys of the messages have to differ, which they do for guids
  of one length.
\<close>

theorem wanted_starts_are_pending:
  assumes "quiet_externals ex entries" and "fresh_key_ok (st_config store)" and "store_typed store (entries w)"
    and "env_sane env" and "queue_typed q" and "Analyze ex env now q store w = (Inr (apps, ss, xs), store', w')"
    and "distinct (map PendingStartMessage_StoreKey ss)" and "distinct (map PendingStopMessage_StoreKey xs)"
    and "d \<in> desired_apps (DesiredApps q)"
    and "\<forall>d'\<in>desired_apps (DesiredApps q). DesiredAppState_StoreKey d' = DesiredAppState_StoreKey d \<longrightarrow> d' = d"
  shows "\<exists>app. map_of apps (DesiredAppState_StoreKey d) = Some app \<and> app_Desired app = d
     \<and> (\<forall>i. start_wanted app i \<longrightarrow>
          (\<exists>m\<in>set ss. PendingStartMessage_StoreKey m = instance_key app i
             \<and> pending_starts store (entries w') (instance_key app i) = Some m))"
proof -
  have stored: "\<forall>m\<in>set ss. pending_starts store (entries w') (PendingStartMessage_StoreKey m) = Some m"
    by (rule quiet_externals.Analyze_complete_run [OF assms(1-8)]) simp
  with Analyze_wants [OF assms(6,9,10)] show ?thesis by metis
qed

lemma running_typed: "store_typed sample_store (mem_view running_world)"
  using shared_system.system_start_ok [OF system_among_others [OF quiet_memory.quiet_externals_axioms idle_facts(1) sample_others_typed]
      _ idle_facts(2) running_reached_shared]
  by (simp add: idle_facts(3,4) running_system_def running_world_def run_typed_def typed_world_def client_types [OF idle_facts(2)])

theorem wanted_starts_are_pending_witness:
  "\<exists>m. pending_starts sample_store
       (mem_view (snd (snd (Analyze mem_externals later_env (time_Unix 1100) wanted_queue sample_store running_world))))
       ''app-v1-1'' = Some m \<and> PendingStartMessage_StoreKey m = ''app-v1-1''"
proof -
  let ?run = "Analyze mem_externals later_env (time_Unix 1100) wanted_queue sample_store running_world"
  have "(case fst ?run of
      Inr (apps, ss, xs) \<Rightarrow> distinct (map PendingStartMessage_StoreKey ss) \<and> distinct (map PendingStopMessage_StoreKey xs)
        \<and> (case map_of apps ''app,v1'' of
             Some app \<Rightarrow> start_wanted app 1 \<and> instance_key app 1 = ''app-v1-1'' | None \<Rightarrow> False)
    | Inl e \<Rightarrow> False)" by code_simp
  then obtain apps ss xs app where result: "fst ?run = Inr (apps, ss, xs)"
    and distinct: "distinct (map PendingStartMessage_StoreKey ss)" "distinct (map PendingStopMessage_StoreKey xs)"
    and app: "map_of apps ''app,v1'' = Some app" "start_wanted app 1" "instance_key app 1 = ''app-v1-1''"
    by (auto split: sum.splits prod.splits option.splits)
  have run: "?run = (Inr (apps, ss, xs), fst (snd ?run), snd (snd ?run))"
    by (simp add: result [symmetric])
  have "DesiredAppState_StoreKey (sample_desired 2) = ''app,v1''" by code_simp
  moreover have "desired_apps (DesiredApps wanted_queue) = {sample_desired 2}"
    by (simp add: desired_apps_def wanted_queue_def)
  ultimately show ?thesis
    using wanted_starts_are_pending [OF quiet_memory.quiet_externals_axioms _ running_typed later_env_sane wanted_queue_typed run
        distinct, of "sample_desired 2"] idle_facts(1,2) app by auto
qed


definition empty_queue :: AppQueue where
  "empty_queue = SetFetchDesiredAppsSuccess True NewAppQueue"


subsection \<open>Why an instance is stopped\<close>

text \<open>
  C20. Over a typed store an analysis stops no instance without grounds: every stop that it returns was
  pending already, or names an instance whose heartbeat is in the store and for which nothing was pending,
  of an app as the run returns it, with a desired state of the queue or none. The instance evacuates, and
  its index is not to run, runs elsewhere or has crashed; or it starts or runs at an index that is not
  desired or beside another one there, and every start that is wanted for this app was already pending.
\<close>

theorem Analyze_stops_sound:
  assumes "kv_adapter ex entries" and "store_typed store (entries w)"
    and "Analyze ex env now q store w = (Inr (apps, ss, xs), store', w')" and "x \<in> set xs"
  shows "pending_stops store (entries w) (InstanceGuid x) = Some x
    \<or> pending_stops store (entries w) (InstanceGuid x) = None
      \<and> (\<exists>app. (app_desired_as (desired_apps (DesiredApps q)) apps app \<or> (\<exists>k. map_of apps k = Some app) \<and> undesired app)
          \<and> AppGuid x = app_AppGuid app \<and> AppVersion x = app_AppVersion app
          \<and> (\<forall>h\<in>set (app_InstanceHeartbeats app). stored_heartbeat store (entries w) h)
          \<and> (\<exists>h\<in>set (app_InstanceHeartbeats app). hb_InstanceGuid h = InstanceGuid x
               \<and> stop_grounds (pending_starts store (entries w)) app h))"
proof -
  obtain actual starts stops s store2 w2 where run:
    "GetApps ex now (ev_apps env) store w = (Inr actual, store2, w2)"
    "s = analyze_removals env (st_config store) starts stops
       (analyze_batches env (st_config store) starts stops (DesiredApps q) actual)"
    "apps = al_actualApps s" "xs = map snd (go_range (ev_pendingStops env) stops) @ al_newStopMessages s"
    "map_of starts = pending_starts store (entries w)" "map_of stops = pending_stops store (entries w)" "gomap_ok stops"
    by (rule kv_adapter.Analyze_reads [OF assms(1-3)]) blast
  show ?thesis
  proof (cases "x \<in> snd ` set stops")
    case True
    then obtain k where "(k, x) \<in> set stops" by auto
    then have k: "pending_stops store (entries w) k = Some x"
      unfolding run(6) [symmetric] using map_of_Some_iff [OF run(7)] by blast
    then show ?thesis using stored_key [OF typed_values(2) [OF assms(2)] k] by (simp add: PendingStopMessage_StoreKey_def)
  next
    case False
    then have new: "x \<in> set (al_newStopMessages s)" using assms(4) run(4) by auto
    obtain hs store1 w1 where hs: "GetInstanceHeartbeats ex now store w = (Inr hs, store1, w1)"
      and "analyze_inv starts stops (desired_apps (DesiredApps q)) (set hs)
        (analyze_batches env (st_config store) starts stops (DesiredApps q) actual)"
      by (rule GetApps_heartbeats [OF run(1)]) (blast intro: analyze_inv_batches)
    from analyze_removals_sound [OF this(2) new [unfolded run(2)]] obtain app where app:
      "set (app_InstanceHeartbeats app) \<subseteq> set hs" "sound_stop starts stops app x"
      "app_desired_as (desired_apps (DesiredApps q)) apps app \<or> (\<exists>k. map_of apps k = Some app) \<and> undesired app"
      by (auto simp: run(2,3) removals_apps)
    have "\<forall>h\<in>set (app_InstanceHeartbeats app). stored_heartbeat store (entries w) h"
      using app(1) kv_adapter.GetInstanceHeartbeats_exact [OF assms(1,2) hs] by blast
    then show ?thesis using app(2,3) unfolding sound_stop_def run(5,6) by blast
  qed
qed

theorem Analyze_stops_sound_witness:
  "\<exists>app. \<exists>h\<in>set (app_InstanceHeartbeats app). stored_heartbeat sample_store (mem_view running_world) h
     \<and> hb_InstanceGuid h = ''a'' \<and> stop_grounds (pending_starts sample_store (mem_view running_world)) app h"
proof -
  let ?run = "Analyze mem_externals later_env (time_Unix 1100) empty_queue sample_store running_world"
  have "(case fst ?run of Inr (apps, ss, xs) \<Rightarrow> map InstanceGuid xs = [''a''] | Inl e \<Rightarrow> False)" by code_simp
  then obtain apps ss xs x where result: "fst ?run = Inr (apps, ss, xs)" and x: "x \<in> set xs" "InstanceGuid x = ''a''"
    by (auto split: sum.splits prod.splits)
  have run: "?run = (Inr (apps, ss, xs), fst (snd ?run), snd (snd ?run))" by (simp add: result [symmetric])
  have "list_all (\<lambda>k. \<not> below (stop_dir sample_store) k) (map fst (mem_entries running_world))" by code_simp
  note none = no_entry_below [OF this]
  have "pending_stops sample_store (mem_view running_world) k = None" for k
    unfolding stored_def none by simp
  then show ?thesis
    using Analyze_stops_sound [OF memory.kv_adapter_axioms running_typed run x(1)] x(2) by fastforce
qed

end
