(* ===== verification/Usage_Tracker.thy ===== *)
theory Usage_Tracker imports Go_Runtime begin

text \<open>
  \<open>hm/usage_tracker.go\<close>: how much of the time of its workers a component spends working. The clock is
  read before and after each piece of work and once per measurement; the readings are arguments.
\<close>

subsection \<open>The tracker\<close>

record usageTracker =
  ut_workerCount :: int
  ut_startTime :: time
  ut_timeSpentWorking :: duration

definition newUsageTracker :: "int \<Rightarrow> time \<Rightarrow> usageTracker" where
  "newUsageTracker workerCount now =
     \<lparr>ut_workerCount = workerCount, ut_startTime = now, ut_timeSpentWorking = 0\<rparr>"

definition Around :: "time \<Rightarrow> time \<Rightarrow> usageTracker \<Rightarrow> usageTracker" where
  "Around start finish u =
     (let workTime = time_Sub finish start
      in u\<lparr>ut_timeSpentWorking := wrap64 (ut_timeSpentWorking u + workTime)\<rparr>)"

text \<open>\<open>Seconds()\<close> of a duration, which is always finite, and the quotient of two finite numbers.\<close>

definition Seconds :: "duration \<Rightarrow> rat" where
  "Seconds d = of_int d / of_int second"

definition float_quotient :: "rat \<Rightarrow> rat \<Rightarrow> float64" where
  "float_quotient a b =
     (if b \<noteq> 0 then Num (a / b) else if 0 < a then PosInf else if a < 0 then NegInf else NaN)"

definition resetUsageMetrics :: "time \<Rightarrow> usageTracker \<Rightarrow> (rat \<times> duration) \<times> usageTracker" where
  "resetUsageMetrics t u =
     (let lastStart = ut_startTime u; timeSpentWorking = ut_timeSpentWorking u
      in ((Seconds timeSpentWorking, time_Sub t lastStart),
          u\<lparr>ut_startTime := t, ut_timeSpentWorking := 0\<rparr>))"

definition StartTrackingUsage :: "time \<Rightarrow> usageTracker \<Rightarrow> usageTracker" where
  "StartTrackingUsage t u = snd (resetUsageMetrics t u)"

definition MeasureUsage :: "time \<Rightarrow> usageTracker \<Rightarrow> (float64 \<times> duration) \<times> usageTracker" where
  "MeasureUsage t u =
     (case resetUsageMetrics t u of
        ((timeSpentWorking, timeSinceStartTime), u') \<Rightarrow>
          ((float_quotient timeSpentWorking (Seconds timeSinceStartTime * of_int (ut_workerCount u)),
            timeSinceStartTime), u'))"

text \<open>The pieces of work, in the order in which they end.\<close>

definition track :: "(time \<times> time) list \<Rightarrow> usageTracker \<Rightarrow> usageTracker" where
  "track works u = fold (\<lambda>(start, finish). Around start finish) works u"

subsection \<open>Workers\<close>

text \<open>One worker does one piece of work after the other, all of them between \<open>s\<close> and \<open>t\<close>.\<close>

fun one_by_one :: "time \<Rightarrow> time \<Rightarrow> (time \<times> time) list \<Rightarrow> bool" where
  "one_by_one s t [] \<longleftrightarrow> s \<le> t"
| "one_by_one s t ((start, finish) # ws) \<longleftrightarrow> s \<le> start \<and> start \<le> finish \<and> one_by_one finish t ws"

definition total_work :: "(time \<times> time) list \<Rightarrow> int" where
  "total_work ws = (\<Sum>(start, finish)\<leftarrow>ws. finish - start)"

lemma total_work_simps [simp]:
  "total_work [] = 0" "total_work ((a, b) # ws) = b - a + total_work ws"
  "total_work (ws @ vs) = total_work ws + total_work vs"
  by (simp_all add: total_work_def)

lemma one_by_one_total: "one_by_one s t ws \<Longrightarrow> 0 \<le> total_work ws \<and> total_work ws \<le> t - s"
  by (induction s t ws rule: one_by_one.induct) auto

lemma one_by_one_inside: "one_by_one s t ws \<Longrightarrow> (a, b) \<in> set ws \<Longrightarrow> s \<le> a \<and> a \<le> b \<and> b \<le> t"
proof (induction s t ws rule: one_by_one.induct)
  case (2 s t start finish ws)
  have "finish \<le> t" using one_by_one_total [of finish t ws] 2(2) by simp
  then show ?case using 2 by auto
qed simp

lemma workers_total:
  "\<forall>ws\<in>set workers. one_by_one s t ws \<Longrightarrow>
   0 \<le> total_work (concat workers) \<and> total_work (concat workers) \<le> int (length workers) * (t - s)"
  by (induction workers) (auto simp: algebra_simps dest!: one_by_one_total)

lemma total_work_mset: "mset ws = mset vs \<Longrightarrow> total_work ws = total_work vs"
  unfolding total_work_def by (metis mset_map sum_mset_sum_list)

lemma track_tail: "(\<And>a b. (a, b) \<in> set ws \<Longrightarrow> a \<le> b) \<Longrightarrow> 0 \<le> total_work ws"
  by (induction ws) force+

text \<open>While the sum stays in range, the tracker adds up the lengths of the pieces of work.\<close>

lemma track_sum:
  assumes "\<And>a b. (a, b) \<in> set ws \<Longrightarrow> a \<le> b" and "0 \<le> ut_timeSpentWorking u"
    and "ut_timeSpentWorking u + total_work ws < 2 ^ 63"
  shows "track ws u = u\<lparr>ut_timeSpentWorking := ut_timeSpentWorking u + total_work ws\<rparr>"
  using assms
proof (induction ws arbitrary: u)
  case (Cons x ws)
  obtain a b where x: "x = (a, b)" by fastforce
  have ab: "a \<le> b" and rest: "0 \<le> total_work ws" using Cons.prems(1) track_tail [of ws] by (auto simp: x)
  then have "time_Sub b a = b - a" using Cons.prems(2,3) by (simp add: time_Sub_def x)
  moreover have "in_int64 (ut_timeSpentWorking u + (b - a))"
    using Cons.prems(2,3) ab rest by (simp add: in_int64_def x)
  ultimately have "Around a b u = u\<lparr>ut_timeSpentWorking := ut_timeSpentWorking u + (b - a)\<rparr>"
    by (simp add: Around_def wrap64_id)
  then show ?case
    using Cons.IH [of "u\<lparr>ut_timeSpentWorking := ut_timeSpentWorking u + (b - a)\<rparr>"] Cons.prems ab
    by (simp add: track_def x)
qed (simp add: track_def)

text \<open>The share of the time that was worked.\<close>

lemma MeasureUsage_ratio:
  assumes "ut_startTime u < t" and "t - ut_startTime u < 2 ^ 63" and "0 < ut_workerCount u"
  shows "fst (MeasureUsage t u) =
     (Num (of_int (ut_timeSpentWorking u) / of_int ((t - ut_startTime u) * ut_workerCount u)), t - ut_startTime u)"
  using assms
  by (simp add: MeasureUsage_def resetUsageMetrics_def Let_def time_Sub_def Seconds_def float_quotient_def second_def)

lemma StartTrackingUsage_new: "StartTrackingUsage s u = newUsageTracker (ut_workerCount u) s"
  by (cases u) (simp add: StartTrackingUsage_def resetUsageMetrics_def newUsageTracker_def)

lemma MeasureUsage_reset: "snd (MeasureUsage t u) = newUsageTracker (ut_workerCount u) t"
  by (cases u) (simp add: MeasureUsage_def resetUsageMetrics_def newUsageTracker_def)

end
