(* ===== verification/Start_Up.thy ===== *)
theory Start_Up imports Go_Format Usage_Tracker Component_Runner begin

text \<open>
  \<open>hm/common.go\<close> and what the commands of \<open>hm/\<close> put together: the clock, which an environment variable
  can stop, the connection strings of the message bus, the options of the store adapter, the groups
  of processes with their order, the intervals of the polling components and the exit codes. The
  libraries that connect and run the groups are outside.
\<close>

subsection \<open>The clock\<close>

datatype clock = RealClock | FixedClock time

text \<open>The value of \<open>HM9000_FAKE_TIME\<close>; a text that is not a number ends the process with code 1.\<close>

definition buildClock :: "string \<Rightarrow> nat + clock" where
  "buildClock fake_time =
     (if fake_time = [] then Inr RealClock
      else case atoi fake_time of
             None \<Rightarrow> Inl 1
           | Some timestamp \<Rightarrow> Inr (FixedClock (time_Unix timestamp)))"

text \<open>A reading of the clock when the time is \<open>t\<close>.\<close>

definition clock_Now :: "clock \<Rightarrow> time \<Rightarrow> time" where
  "clock_Now c t = (case c of RealClock \<Rightarrow> t | FixedClock now \<Rightarrow> now)"

definition clock_Since :: "clock \<Rightarrow> time \<Rightarrow> time \<Rightarrow> duration" where
  "clock_Since c t u = (case c of RealClock \<Rightarrow> time_Sub t u | FixedClock now \<Rightarrow> time_Sub now u)"

subsection \<open>The message bus\<close>

definition nats_url :: "NATSServer \<Rightarrow> string" where
  "nats_url natsConf =
     ''nats://'' @ escape_user (nats_User natsConf) @ '':'' @ escape_user (nats_Password natsConf) @ ''@''
     @ escape_host (nats_Host natsConf @ '':'' @ itoa (nats_Port natsConf))"

text \<open>The list is made with one empty string per server before the URLs are appended.\<close>

definition bus_members :: "Config \<Rightarrow> string list" where
  "bus_members conf =
     fold (\<lambda>natsConf members. members @ [nats_url natsConf]) (NATS conf) (replicate (length (NATS conf)) [])"

record bus_options =
  bo_Members :: "string list"
  bo_PingInterval :: duration

text \<open>Connecting is an argument: it gives the client or an error, which ends the process.\<close>

definition connectToMessageBus :: "(bus_options \<Rightarrow> string + 'c) \<Rightarrow> Config \<Rightarrow> nat + 'c" where
  "connectToMessageBus connect conf =
     (case connect \<lparr>bo_Members = bus_members conf,
                    bo_PingInterval = dur_mult (NatsClientPingInterval conf) second\<rparr> of
        Inl err \<Rightarrow> Inl 1
      | Inr client \<Rightarrow> Inr client)"

subsection \<open>The store\<close>

record ETCDOptions =
  eo_ClusterUrls :: "string list"
  eo_CertFile :: string
  eo_KeyFile :: string
  eo_CAFile :: string
  eo_IsSSL :: bool
  eo_MaxIdleConns :: int

definition etcd_options :: "Config \<Rightarrow> ETCDOptions" where
  "etcd_options conf =
     (let options =
        (if ETCDRequireSSL conf
         then \<lparr>eo_ClusterUrls = StoreURLs conf, eo_CertFile = CertFile (ETCDSSLOptions conf),
               eo_KeyFile = KeyFile (ETCDSSLOptions conf), eo_CAFile = CACertFile (ETCDSSLOptions conf),
               eo_IsSSL = True, eo_MaxIdleConns = 0\<rparr>
         else \<lparr>eo_ClusterUrls = StoreURLs conf, eo_CertFile = [], eo_KeyFile = [], eo_CAFile = [],
               eo_IsSSL = False, eo_MaxIdleConns = 0\<rparr>)
      in options\<lparr>eo_MaxIdleConns := wrap64 (StoreMaxConcurrentRequests conf + 5)\<rparr>)"

text \<open>The pool of workers, the adapter and its connection; each failure ends the process.\<close>

definition connectToStoreAdapter :: "(int \<Rightarrow> string + 'p) \<Rightarrow> (ETCDOptions \<Rightarrow> 'p \<Rightarrow> string + 'a)
    \<Rightarrow> ('a \<Rightarrow> string option) \<Rightarrow> Config \<Rightarrow> nat + 'a" where
  "connectToStoreAdapter new_pool new_adapter connect conf =
     (case new_pool (StoreMaxConcurrentRequests conf) of
        Inl err \<Rightarrow> Inl 1
      | Inr workPool \<Rightarrow>
          (case new_adapter (etcd_options conf) workPool of
             Inl err \<Rightarrow> Inl 1
           | Inr adapter \<Rightarrow> (case connect adapter of Some err \<Rightarrow> Inl 1 | None \<Rightarrow> Inr adapter)))"

definition connectToStore :: "(int \<Rightarrow> string + 'p) \<Rightarrow> (ETCDOptions \<Rightarrow> 'p \<Rightarrow> string + 'a)
    \<Rightarrow> ('a \<Rightarrow> string option) \<Rightarrow> Config \<Rightarrow> nat + RealStore \<times> 'a" where
  "connectToStore new_pool new_adapter connect conf =
     (case connectToStoreAdapter new_pool new_adapter connect conf of
        Inl code \<Rightarrow> Inl code
      | Inr adapter \<Rightarrow> Inr (NewStore conf, adapter))"

definition connectToStoreAndTrack :: "(int \<Rightarrow> string + 'p) \<Rightarrow> (ETCDOptions \<Rightarrow> 'p \<Rightarrow> string + 'a)
    \<Rightarrow> ('a \<Rightarrow> string option) \<Rightarrow> Config \<Rightarrow> time \<Rightarrow> nat + (RealStore \<times> 'a) \<times> usageTracker" where
  "connectToStoreAndTrack new_pool new_adapter connect conf now =
     (let tracker = newUsageTracker (StoreMaxConcurrentRequests conf) now
      in case connectToStoreAdapter new_pool new_adapter connect conf of
           Inl code \<Rightarrow> Inl code
         | Inr adapter \<Rightarrow> Inr ((NewStore conf, adapter), tracker))"

subsection \<open>Groups of processes\<close>

text \<open>The names of the members, in the order in which they are started.\<close>

definition ifritize_members :: "string \<Rightarrow> 'r \<Rightarrow> 'r list \<Rightarrow> (string \<times> 'r) list" where
  "ifritize_members name runner lockRunner =
     (case lockRunner of
        lock # _ \<Rightarrow> [(name @ ''.lock'', lock), (name, runner)]
      | [] \<Rightarrow> [(name, runner)])"

text \<open>The members of the group of the listener: the lock comes first, the HTTP server last.\<close>

definition listener_members :: "'r \<Rightarrow> 'r \<Rightarrow> 'r \<Rightarrow> 'r \<Rightarrow> 'r \<Rightarrow> (string \<times> 'r) list" where
  "listener_members lockRunner syncer registrationRunner natsListener httpServer =
     [(''lockRunner'', lockRunner), (''syncer'', syncer), (''router_registration'', registrationRunner),
      (''nats_heartbeat_listener'', natsListener), (''http_heartbeat_listener'', httpServer)]"

text \<open>Where the servers listen.\<close>

definition heartbeat_listenAddr :: "Config \<Rightarrow> string" where
  "heartbeat_listenAddr conf = HttpHeartbeatServerAddress conf @ '':'' @ itoa (HttpHeartbeatPort conf)"

definition api_listenAddr :: "Config \<Rightarrow> string" where
  "api_listenAddr conf = APIServerAddress conf @ '':'' @ itoa (APIServerPort conf)"

definition shredder_component :: "Config \<Rightarrow> Component" where
  "shredder_component conf = \<lparr>co_component = ''shredder'',
     co_pollingInterval = ShredderPollingInterval conf, co_timeout = ShredderTimeout conf\<rparr>"

definition analyzer_component :: "Config \<Rightarrow> Component" where
  "analyzer_component conf = \<lparr>co_component = ''analyzer'',
     co_pollingInterval = FetcherPollingInterval conf, co_timeout = FetcherTimeout conf\<rparr>"

subsection \<open>Exit codes\<close>

text \<open>With \<open>poll\<close> the code depends on the result of the group, without it on the one run.\<close>

definition Shred_command :: "'w externals \<Rightarrow> bool \<Rightarrow> string option \<Rightarrow> RealStore \<Rightarrow> 'w \<Rightarrow> nat \<times> 'w" where
  "Shred_command ex poll group_err store w =
     (if poll then (case group_err of Some err \<Rightarrow> (197, w) | None \<Rightarrow> (1, w))
      else (case Shred ex store w of (Some err, w') \<Rightarrow> (1, w') | (None, w') \<Rightarrow> (0, w')))"

definition process_exit_code :: "string option \<Rightarrow> nat" where
  "process_exit_code group_err = (case group_err of Some err \<Rightarrow> 197 | None \<Rightarrow> 0)"

definition Analyze_exit_code :: "bool \<Rightarrow> string option \<Rightarrow> 'e option \<Rightarrow> nat" where
  "Analyze_exit_code poll group_err analyze_err =
     (if poll then process_exit_code group_err else (case analyze_err of Some err \<Rightarrow> 1 | None \<Rightarrow> 0))"

definition ServeAPI_exit_code :: "string option \<Rightarrow> nat" where
  "ServeAPI_exit_code group_err = (case group_err of Some err \<Rightarrow> 1 | None \<Rightarrow> 0)"

text \<open>
  The listener makes its HTTP listener, a random id and the settings of TLS before the group is run; a
  missing id is fatal, which is a panic and ends the process with code 2.
\<close>

definition StartListening_exit_code :: "string option \<Rightarrow> string option \<Rightarrow> string option \<Rightarrow> string option \<Rightarrow> nat" where
  "StartListening_exit_code listener_err uuid_err tls_err group_err =
     (case listener_err of
        Some err \<Rightarrow> 1
      | None \<Rightarrow> (case uuid_err of
          Some err \<Rightarrow> 2
        | None \<Rightarrow> (case tls_err of
            Some err \<Rightarrow> 1
          | None \<Rightarrow> process_exit_code group_err)))"

subsection \<open>What is put together\<close>

lemma append_each: "fold (\<lambda>x acc. acc @ [f x]) xs acc = acc @ map f xs"
  by (induction xs arbitrary: acc) auto

lemma bus_members_eq: "bus_members conf = replicate (length (NATS conf)) [] @ map nats_url (NATS conf)"
  by (simp add: bus_members_def append_each)

text \<open>A component with the default configuration never waits for a timeout that is not positive.\<close>

lemma default_components:
  "0 < co_timeout (shredder_component defaults)" "0 < co_timeout (analyzer_component defaults)"
  by (simp_all add: shredder_component_def analyzer_component_def ShredderTimeout_def FetcherTimeout_def
      HeartbeatDuration_def defaults_def dur_mult_def second_def wrap64_def)

text \<open>With a fixed clock no time passes.\<close>

lemma fixed_clock_stands_still: "clock_Since (FixedClock now) t (clock_Now (FixedClock now) u) = 0"
  by (simp add: clock_Since_def clock_Now_def time_Sub_def)

end
