(* ===== verification/Store_Dump.thy ===== *)
theory Store_Dump imports Go_Format Store_Apps Store_Freshness "HOL-Library.List_Lexorder" begin

text \<open>
  \<open>hm/store.go\<close>: the command that prints what is in the store. The output is the string that has been
  printed when the command ends, together with the way it ends. The texts of errors of other packages
  are the argument \<open>err_text\<close>, the readings of the clock the arguments \<open>now\<close> and \<open>clk\<close>: \<open>clk k i\<close> is the
  reading for the \<open>i\<close>-th message of the \<open>k\<close>-th app.
\<close>

subsection \<open>Printing\<close>

datatype dump_end = DumpDone | DumpExit nat | DumpPanic

abbreviation newline :: string where "newline \<equiv> [CHR 0x0A]"

definition and_then :: "string \<times> dump_end \<Rightarrow> string \<times> dump_end \<Rightarrow> string \<times> dump_end" where
  "and_then a b = (if snd a = DumpDone then (fst a @ fst b, snd b) else a)"

text \<open>\<open>DeaGuid[0:5]\<close> panics on a shorter guid, before the line is printed.\<close>

fun dump_heartbeats :: "InstanceHeartbeat list \<Rightarrow> string \<times> dump_end" where
  "dump_heartbeats [] = ([], DumpDone)"
| "dump_heartbeats (heartbeat # hs) =
     (if length (hb_DeaGuid heartbeat) < 5 then ([], DumpPanic)
      else and_then
        (''    ['' @ itoa (hb_InstanceIndex heartbeat) @ '' '' @ hb_State heartbeat @ ''] ''
           @ hb_InstanceGuid heartbeat @ '' on '' @ take 5 (hb_DeaGuid heartbeat) @ newline, DumpDone)
        (dump_heartbeats hs))"

definition dump_crash_counts :: "choice \<Rightarrow> App \<Rightarrow> string" where
  "dump_crash_counts ch app =
     (if app_CrashCounts app \<noteq> []
      then ''  CrashCounts:''
           @ concat (map (\<lambda>(_, crashCount). '' ['' @ itoa (cc_InstanceIndex crashCount) @ '']:''
                                           @ itoa (cc_CrashCount crashCount))
                       (go_range ch (app_CrashCounts app)))
           @ newline
      else [])"

text \<open>When a message is sent or, once sent, deleted.\<close>

definition message_times :: "time \<Rightarrow> 'a PendingMessage_scheme \<Rightarrow> string list" where
  "message_times now m =
     (if SentOn m \<noteq> 0
      then [''send:SENT'',
            ''delete:'' @ duration_string (time_Sub (time_Unix (wrap64 (SentOn m + KeepAlive m))) now)]
      else [''send:'' @ duration_string (time_Sub (time_Unix (SendOn m)) now)])"

definition dump_start :: "time \<Rightarrow> PendingStartMessage \<Rightarrow> string" where
  "dump_start now start = ''    '' @ join_with '' ''
     ([''['' @ itoa (IndexToStart start) @ '']'', ''priority:'' @ format_fixed 2 (Priority start)]
      @ (if SkipVerification start then [''NO VERIFICATION''] else [])
      @ message_times now start) @ newline"

definition dump_stop :: "time \<Rightarrow> PendingStopMessage \<Rightarrow> string" where
  "dump_stop now stop = ''    '' @ join_with '' '' (InstanceGuid stop # message_times now stop) @ newline"

definition of_app :: "App \<Rightarrow> 'a PendingMessage_scheme \<Rightarrow> bool" where
  "of_app app m \<longleftrightarrow> AppGuid m = app_AppGuid app \<and> AppVersion m = app_AppVersion app"

definition dump_desired :: "App \<Rightarrow> string" where
  "dump_desired app =
     (if IsDesired app
      then ''  Desired: ['' @ itoa (ds_NumberOfInstances (app_Desired app)) @ ''] instances, (''
           @ ds_State (app_Desired app) @ '', '' @ ds_PackageState (app_Desired app) @ '')'' @ newline
      else ''  Desired: NO'' @ newline)"

definition dumpApp :: "choice \<Rightarrow> (nat \<Rightarrow> time) \<Rightarrow> App \<Rightarrow> (string, PendingStartMessage) gomap
    \<Rightarrow> (string, PendingStopMessage) gomap \<Rightarrow> string \<times> dump_end" where
  "dumpApp ch clk app starts stops =
     (let appStarts = filter (of_app app) (map snd (go_range ch starts));
          appStops = filter (of_app app) (map snd (go_range ch stops));
          head = newline @ ''Guid: '' @ app_AppGuid app @ '' | Version: '' @ app_AppVersion app @ newline
             @ dump_desired app;
          heartbeats = (if length (app_InstanceHeartbeats app) = 0 then (''  Heartbeats: NONE'' @ newline, DumpDone)
             else and_then (''  Heartbeats:'' @ newline, DumpDone) (dump_heartbeats (app_InstanceHeartbeats app)));
          starts_text = (if length appStarts > 0
             then ''  Pending Starts:'' @ newline
                  @ concat (map (\<lambda>(i, start). dump_start (clk i) start) (enumerate 0 appStarts)) else []);
          stops_text = (if length appStops > 0
             then ''  Pending Stops:'' @ newline
                  @ concat (map (\<lambda>(i, stop). dump_stop (clk i) stop) (enumerate (length appStarts) appStops))
             else [])
      in and_then (and_then (head, DumpDone) heartbeats)
           (dump_crash_counts ch app @ starts_text @ stops_text, DumpDone))"

definition dump_apps :: "choice \<Rightarrow> (nat \<Rightarrow> nat \<Rightarrow> time) \<Rightarrow> (string, App) gomap \<Rightarrow> (string, PendingStartMessage) gomap
    \<Rightarrow> (string, PendingStopMessage) gomap \<Rightarrow> string \<times> dump_end" where
  "dump_apps ch clk apps starts stops =
     (let appKeys = sort (map fst apps)
      in foldl and_then ([], DumpDone)
           (map (\<lambda>(k, appKey). case map_of apps appKey of
                    None \<Rightarrow> ([], DumpDone) | Some app \<Rightarrow> dumpApp ch (clk k) app starts stops)
              (enumerate 0 appKeys)))"

text \<open>The command reads freshness, apps, starts and stops, each of which may end it.\<close>

definition dump_exit :: "string \<Rightarrow> string \<Rightarrow> string \<Rightarrow> string \<times> dump_end" where
  "dump_exit header what err = (header @ ''Failed to fetch '' @ what @ '': '' @ err @ newline, DumpExit 1)"

definition dump_header :: "(hm_error \<Rightarrow> string) \<Rightarrow> time \<Rightarrow> hm_error option \<Rightarrow> string" where
  "dump_header err_text now freshness =
     ''Dump - Current timestamp '' @ itoa (Unix now) @ newline
     @ (case freshness of None \<Rightarrow> ''Store is fresh'' | Some err \<Rightarrow> ''STORE IS NOT FRESH: '' @ err_text err)
     @ newline @ ''===================='' @ newline"

definition dumpStructured :: "'w externals \<Rightarrow> (hm_error \<Rightarrow> string) \<Rightarrow> choice \<Rightarrow> time \<Rightarrow> time \<Rightarrow> time \<Rightarrow> (nat \<Rightarrow> nat \<Rightarrow> time)
    \<Rightarrow> RealStore \<Rightarrow> 'w \<Rightarrow> (string \<times> dump_end) \<times> 'w" where
  "dumpStructured ex err_text ch now fresh_now apps_now clk store w =
     (case VerifyFreshness ex store fresh_now w of
        (freshness, w1) \<Rightarrow>
          (let header = dump_header err_text now freshness in
           case GetApps ex apps_now ch store w1 of
             (Inl err, store2, w2) \<Rightarrow> (dump_exit header ''apps'' (err_text err), w2)
           | (Inr apps, store2, w2) \<Rightarrow>
               (case GetPendingStartMessages ex store2 w2 of
                  (Inl err, w3) \<Rightarrow> (dump_exit header ''starts'' (err_text err), w3)
                | (Inr starts, w3) \<Rightarrow>
                    (case GetPendingStopMessages ex store2 w3 of
                       (Inl err, w4) \<Rightarrow> (dump_exit header ''stops'' (err_text err), w4)
                     | (Inr stops, w4) \<Rightarrow>
                         (and_then (header, DumpDone) (dump_apps ch clk apps starts stops), w4)))))"

subsection \<open>The raw dump\<close>

text \<open>The files below a node, in the order of the listing.\<close>

fun walk :: "store_node \<Rightarrow> store_node list" where
  "walk (StoreNode k v ttl dir children) = concat (map (\<lambda>n. if sn_Dir n then walk n else [n]) children)"

definition raw_ttl :: "store_node \<Rightarrow> string" where
  "raw_ttl node =
     (if sn_TTL node = 0 then ''[TTL: '' @ [CHR 0xE2, CHR 0x88, CHR 0x9E] @ '']''
      else ''[TTL:'' @ itoa (uint (sn_TTL node)) @ ''s]'')"

text \<open>\<open>indent\<close> gives the indented text of a JSON document, or nothing for other texts.\<close>

definition raw_entry :: "(bytes \<Rightarrow> string option) \<Rightarrow> store_node \<Rightarrow> string" where
  "raw_entry indent node = sn_Key node @ '' '' @ raw_ttl node @ '':'' @ newline @ ''    ''
     @ (case indent (sn_Value node) of Some text \<Rightarrow> text | None \<Rightarrow> raw_text (sn_Value node))"

definition raw_entries :: "(bytes \<Rightarrow> string option) \<Rightarrow> store_node \<Rightarrow> string list" where
  "raw_entries indent node = sort (map (raw_entry indent) (walk node))"

subsection \<open>What is printed\<close>

lemma walk_files: "n \<in> set (walk node) \<Longrightarrow> \<not> sn_Dir n"
proof (induction node rule: walk.induct)
  case (1 k v ttl dir children)
  then show ?case by (auto split: if_splits)
qed

text \<open>A listing shows every file below a directory to the walk, and nothing else.\<close>

lemma walk_listing:
  assumes "listing_ok es node" and "sn_Dir node" and "n \<in> set (walk node)"
  shows "es (sn_Key n) = Some (File (sn_Value n)) \<and> below (sn_Key node) (sn_Key n)"
  using assms
proof (induction node rule: walk.induct)
  case (1 k v ttl dir children)
  then obtain c where c: "c \<in> set children" "n \<in> set (if sn_Dir c then walk c else [c])" by auto
  note ch = listing_children [OF 1(2,3)]
  have lc: "listing_ok es c" using ch(3) c(1) by simp
  have "child_of k (sn_Key c)" using ch(2) c(1) by auto
  then have bc: "below k (sn_Key c)" by (simp add: child_of_def)
  show ?case
  proof (cases "sn_Dir c")
    case True
    then have "es (sn_Key n) = Some (File (sn_Value n)) \<and> below (sn_Key c) (sn_Key n)"
      using 1(1) [OF c(1) True lc True] c(2) by simp
    then show ?thesis using bc below_trans by auto
  next
    case False
    then show ?thesis using c(2) listing_file [OF lc False] bc by simp
  qed
qed

text \<open>The apps that the store hands out carry no desired state.\<close>

lemma add_app_not_desired:
  assumes "\<forall>app\<in>snd ` set m. \<not> IsDesired app"
  shows "\<forall>app\<in>snd ` set (add_app (key, rep) m). \<not> IsDesired app"
proof -
  have "\<not> IsDesired app" if "buildApp rep = Some app" for app
    using that by (auto simp: buildApp_def Let_def IsDesired_def NewApp_def zero_DesiredAppState_def
        split: prod.splits if_splits list.splits)
  moreover have "\<forall>a\<in>snd ` set (mput k app m). \<not> IsDesired a" if "\<not> IsDesired app" for k app
    using values_mput_subset [of k app m] assms that by blast
  ultimately show ?thesis using assms by (auto simp: add_app_def split: option.splits)
qed

lemma build_apps_not_desired:
  assumes "app \<in> snd ` set (build_apps ch hs cs)"
  shows "\<not> IsDesired app"
proof -
  have "\<forall>app\<in>snd ` set (build_apps ch hs cs). \<not> IsDesired app"
    unfolding build_apps_def
  proof (rule fold_invariant_set [where P = "\<lambda>m. \<forall>app\<in>snd ` set m. \<not> IsDesired app"])
    fix x and m :: "(string, App) gomap"
    assume "\<forall>app\<in>snd ` set m. \<not> IsDesired app"
    then show "\<forall>app\<in>snd ` set (add_app x m). \<not> IsDesired app"
      using add_app_not_desired [of m "fst x" "snd x"] by simp
  qed simp
  then show ?thesis using assms by blast
qed

lemma GetApps_not_desired:
  assumes "GetApps ex now ch store w = (Inr apps, store', w')" and "app \<in> snd ` set apps"
  shows "\<not> IsDesired app"
  using assms build_apps_not_desired
  by (fastforce simp: GetApps_def split: prod.splits sum.splits)

text \<open>A short guid of a DEA ends the listing of the heartbeats.\<close>

lemma dump_heartbeats_end:
  "snd (dump_heartbeats hs) = (if \<exists>h\<in>set hs. length (hb_DeaGuid h) < 5 then DumpPanic else DumpDone)"
  by (induction hs) (auto simp: and_then_def)

lemma and_then_simps:
  "and_then (a, DumpDone) b = (a @ fst b, snd b)"
  "e \<noteq> DumpDone \<Longrightarrow> and_then (a, e) b = (a, e)"
  "snd (and_then c b) = (if snd c = DumpDone then snd b else snd c)"
  by (simp_all add: and_then_def)

lemma dumpApp_end:
  "snd (dumpApp ch clk app starts stops) =
     (if \<exists>h\<in>set (app_InstanceHeartbeats app). length (hb_DeaGuid h) < 5 then DumpPanic else DumpDone)"
  using dump_heartbeats_end [of "app_InstanceHeartbeats app"]
  by (auto simp: dumpApp_def Let_def and_then_simps split: if_splits)

lemma foldl_and_then_end:
  assumes "\<forall>b\<in>set bs. snd b \<in> {DumpDone, DumpPanic}" and "snd a \<in> {DumpDone, DumpPanic}"
  shows "snd (foldl and_then a bs) =
     (if snd a = DumpPanic \<or> (\<exists>b\<in>set bs. snd b \<noteq> DumpDone) then DumpPanic else DumpDone)"
  using assms
proof (induction bs arbitrary: a)
  case (Cons b bs)
  have e: "snd (and_then a b) = (if snd a = DumpDone then snd b else snd a)" by (rule and_then_simps)
  then have "snd (and_then a b) \<in> {DumpDone, DumpPanic}" using Cons.prems by auto
  then show ?case using Cons.IH [of "and_then a b"] Cons.prems e by (auto split: if_splits)
qed auto

text \<open>The dump ends early exactly when some app has a heartbeat from a DEA with a short guid.\<close>

lemma dump_apps_end:
  assumes "gomap_ok apps"
  shows "snd (dump_apps ch clk apps starts stops) =
     (if \<exists>app\<in>snd ` set apps. \<exists>h\<in>set (app_InstanceHeartbeats app). length (hb_DeaGuid h) < 5
      then DumpPanic else DumpDone)"
proof -
  let ?short = "\<lambda>app. \<exists>h\<in>set (app_InstanceHeartbeats app). length (hb_DeaGuid h) < 5"
  let ?f = "\<lambda>(k, appKey). case map_of apps appKey of
      None \<Rightarrow> ([], DumpDone) | Some app \<Rightarrow> dumpApp ch (clk k) app starts stops"
  let ?bs = "map ?f (enumerate 0 (sort (map fst apps)))"
  have ends: "snd b \<in> {DumpDone, DumpPanic}" if "b \<in> set ?bs" for b
  proof -
    have "b \<in> ?f ` set (enumerate 0 (sort (map fst apps)))" using that by simp
    then obtain i key where "b = ?f (i, key)" by fast
    then show ?thesis by (cases "map_of apps key") (simp_all add: dumpApp_end)
  qed
  have "(\<exists>b\<in>set ?bs. snd b \<noteq> DumpDone) \<longleftrightarrow> (\<exists>app\<in>snd ` set apps. ?short app)"
  proof
    assume "\<exists>b\<in>set ?bs. snd b \<noteq> DumpDone"
    then obtain app key where "map_of apps key = Some app" "?short app"
      by (auto simp: dumpApp_end split: option.splits if_splits)
    then show "\<exists>app\<in>snd ` set apps. ?short app" by (metis image_eqI map_of_SomeD snd_conv)
  next
    assume "\<exists>app\<in>snd ` set apps. ?short app"
    then obtain p where p: "p \<in> set apps" "?short (snd p)" by blast
    obtain key app where "p = (key, app)" by fastforce
    then have a: "(key, app) \<in> set apps" "?short app" using p by simp_all
    then have m: "map_of apps key = Some app" using assms by (simp add: map_of_Some_iff)
    have "key \<in> set (sort (map fst apps))" using a(1) by force
    then obtain i where i: "i < length (sort (map fst apps))" "sort (map fst apps) ! i = key"
      by (metis in_set_conv_nth)
    then have "(i, key) \<in> set (enumerate 0 (sort (map fst apps)))"
      by (auto simp: in_set_enumerate_eq)
    then have "?f (i, key) \<in> set ?bs" unfolding set_map by (rule imageI)
    moreover have "snd (?f (i, key)) = DumpPanic" using m a(2) by (simp add: dumpApp_end)
    ultimately show "\<exists>b\<in>set ?bs. snd b \<noteq> DumpDone" by (metis dump_end.distinct(3))
  qed
  moreover have "snd (dump_apps ch clk apps starts stops) =
      (if \<exists>b\<in>set ?bs. snd b \<noteq> DumpDone then DumpPanic else DumpDone)"
    using foldl_and_then_end [of ?bs "([], DumpDone)"] ends unfolding dump_apps_def Let_def by simp
  ultimately show ?thesis by simp
qed

lemma dumpApp_head:
  assumes "\<not> IsDesired app"
  shows "\<exists>rest. fst (dumpApp ch clk app starts stops) =
     newline @ ''Guid: '' @ app_AppGuid app @ '' | Version: '' @ app_AppVersion app @ newline
     @ ''  Desired: NO'' @ newline @ rest"
proof -
  have "\<exists>rest. fst (and_then (and_then (a, DumpDone) b) c) = a @ rest" for a b c
    by (auto simp: and_then_def)
  then have "\<exists>rest. fst (dumpApp ch clk app starts stops) =
      (newline @ ''Guid: '' @ app_AppGuid app @ '' | Version: '' @ app_AppVersion app @ newline
       @ dump_desired app) @ rest"
    unfolding dumpApp_def Let_def by blast
  then show ?thesis using assms by (simp add: dump_desired_def)
qed

end
