(* ===== verification/Command_Line.thy ===== *)
theory Command_Line imports Start_Up begin

text \<open>
  \<open>hm9000.go\<close>: the commands with their flags, what each of them does before its component starts, and
  the file the configuration comes from. The values of the flags come from the command-line library;
  reading the file, the client of the metrics and the debug server are functions of the world. Every
  failure of a start ends the process with code 1 and is a value here.
\<close>

subsection \<open>Flags and failures\<close>

record cli_Context =
  c_String :: "string \<Rightarrow> string"
  c_Bool :: "string \<Rightarrow> bool"

text \<open>The name of a flag and how it is described; a text is empty when the flag is not given.\<close>

datatype cli_Flag = StringFlag string string | BoolFlag string string

datatype start_error =
    EmptyComponent
  | ConfigPathRequired
  | FailedToLoadConfig string
  | InvalidLogLevel string
  | FailedDropsonde string
  | FailedDebugServer string

text \<open>What is written to the standard error, or to the log for the last two.\<close>

fun start_message :: "start_error \<Rightarrow> string" where
  "start_message EmptyComponent = ''Empty component name''"
| "start_message ConfigPathRequired = ''Config path required''"
| "start_message (FailedToLoadConfig configPath) = ''Failed to load config: '' @ configPath"
| "start_message (InvalidLogLevel err) = ''Invalid log level in config: '' @ err"
| "start_message (FailedDropsonde err) = ''Failed to initialize dropsonde''"
| "start_message (FailedDebugServer err) = ''Failed to start debug server''"

record 'w start_externals =
  read_file :: "string \<Rightarrow> 'w \<Rightarrow> (string + bytes) \<times> 'w"
  dropsonde_Initialize :: "string \<Rightarrow> string \<Rightarrow> 'w \<Rightarrow> string option \<times> 'w"
  debugserver_Run :: "string \<Rightarrow> 'w \<Rightarrow> string option \<times> 'w"

text \<open>A step of a start gives its value or the failure; the steps after a failure are not taken.\<close>

type_synonym ('a, 'w) start = "'w \<Rightarrow> (start_error + 'a) \<times> 'w"

definition then_start :: "('a, 'w) start \<Rightarrow> ('a \<Rightarrow> ('b, 'w) start) \<Rightarrow> ('b, 'w) start" where
  "then_start m k w = (case m w of (Inl e, w') \<Rightarrow> (Inl e, w') | (Inr x, w') \<Rightarrow> k x w')"

definition started :: "'a \<Rightarrow> ('a, 'w) start" where "started x w = (Inr x, w)"
definition stops_with :: "start_error \<Rightarrow> ('a, 'w) start" where "stops_with e w = (Inl e, w)"

subsection \<open>Reading the configuration\<close>

definition FromFile :: "'w start_externals \<Rightarrow> string \<Rightarrow> 'w \<Rightarrow> Config option \<times> 'w" where
  "FromFile sx path w =
     (case read_file sx path w of
        (Inl err, w') \<Rightarrow> (None, w')
      | (Inr json, w') \<Rightarrow> (FromJSON json, w'))"

definition loadConfig :: "'w start_externals \<Rightarrow> cli_Context \<Rightarrow> string \<Rightarrow> (Config, 'w) start" where
  "loadConfig sx c component w =
     (if component = [] then (Inl EmptyComponent, w)
      else
        let configPath = c_String c ''config''
        in if configPath = [] then (Inl ConfigPathRequired, w)
           else (case FromFile sx configPath w of
                   (None, w') \<Rightarrow> (Inl (FailedToLoadConfig configPath), w')
                 | (Some conf, w') \<Rightarrow> (Inr conf, w')))"

subsection \<open>Metrics and the debug server\<close>

definition startDebugServer :: "'w start_externals \<Rightarrow> cli_Context \<Rightarrow> (unit, 'w) start" where
  "startDebugServer sx c w =
     (let debugAddr = c_String c ''debugAddr''
      in if debugAddr \<noteq> []
         then (case debugserver_Run sx debugAddr w of
                 (Some err, w') \<Rightarrow> (Inl (FailedDebugServer err), w')
               | (None, w') \<Rightarrow> (Inr (), w'))
         else (Inr (), w))"

definition dropsondeDestination :: "Config \<Rightarrow> string" where
  "dropsondeDestination conf = ''127.0.0.1:'' @ itoa (DropsondePort conf)"

definition startDropsond :: "'w start_externals \<Rightarrow> string \<Rightarrow> Config \<Rightarrow> (unit, 'w) start" where
  "startDropsond sx component conf w =
     (case dropsonde_Initialize sx (dropsondeDestination conf) component w of
        (Some err, w') \<Rightarrow> (Inl (FailedDropsonde err), w')
      | (None, w') \<Rightarrow> (Inr (), w'))"

text \<open>The name of the logger and its level.\<close>

definition check_level :: "Config \<Rightarrow> (LogLevelValue, 'w) start" where
  "check_level conf = (case LogLevel conf of Inl err \<Rightarrow> stops_with (InvalidLogLevel err) | Inr level \<Rightarrow> started level)"

definition loadLoggerAndConfig :: "'w start_externals \<Rightarrow> cli_Context \<Rightarrow> string
    \<Rightarrow> ((string \<times> LogLevelValue) \<times> Config, 'w) start" where
  "loadLoggerAndConfig sx c component =
     (if component = [] then stops_with EmptyComponent
      else then_start (loadConfig sx c component) (\<lambda>conf.
           then_start (check_level conf) (\<lambda>logLevel.
           then_start (startDropsond sx component conf) (\<lambda>_.
           then_start (startDebugServer sx c) (\<lambda>_. started ((component, logLevel), conf))))))"

subsection \<open>The commands\<close>

text \<open>The component a command hands over to, with the flag it passes on.\<close>

datatype task =
    TaskAnalyze bool
  | TaskListen
  | TaskEvacuate
  | TaskServeAPI
  | TaskShred bool
  | TaskDump bool

type_synonym 'w action = "cli_Context \<Rightarrow> ((string \<times> LogLevelValue) \<times> Config \<times> task, 'w) start"

record 'w Command =
  cmd_Name :: string
  cmd_Description :: string
  cmd_Usage :: string
  cmd_Flags :: "cli_Flag list"
  cmd_Action :: "'w action"

text \<open>\<open>analyze\<close> spells its steps out; the others share them.\<close>

definition analyze_action :: "'w start_externals \<Rightarrow> 'w action" where
  "analyze_action sx c =
     then_start (loadConfig sx c ''analyzer'') (\<lambda>conf.
     then_start (check_level conf) (\<lambda>logLevel.
     then_start (startDropsond sx ''analyzer'' conf) (\<lambda>_.
     then_start (startDebugServer sx c) (\<lambda>_.
       started ((''analyzer'', logLevel), conf, TaskAnalyze (c_Bool c ''poll''))))))"

definition shared_action :: "'w start_externals \<Rightarrow> string \<Rightarrow> (cli_Context \<Rightarrow> task) \<Rightarrow> 'w action" where
  "shared_action sx component task_of c =
     then_start (loadLoggerAndConfig sx c component) (\<lambda>(logger, conf). started (logger, conf, task_of c))"

definition config_flag :: cli_Flag where
  "config_flag = StringFlag ''config'' ''Path to config file''"

definition poll_flag :: cli_Flag where
  "poll_flag = BoolFlag ''poll'' ''If true, poll repeatedly with an interval defined in config''"

definition debug_flag :: cli_Flag where
  "debug_flag = StringFlag ''debugAddr'' ''address to serve debug info''"

definition commands :: "'w start_externals \<Rightarrow> 'w Command list" where
  "commands sx = [
     \<lparr>cmd_Name = ''analyze'', cmd_Description = ''Analyzes desired state'',
      cmd_Usage = ''hm analyze --config=/path/to/config --poll'',
      cmd_Flags = [config_flag, poll_flag, debug_flag],
      cmd_Action = analyze_action sx\<rparr>,

     \<lparr>cmd_Name = ''listen'', cmd_Description = ''Listens for the actual state over NATS and via HTTP'',
      cmd_Usage = ''hm listen --config=/path/to/config'',
      cmd_Flags = [config_flag, debug_flag],
      cmd_Action = shared_action sx ''listener'' (\<lambda>c. TaskListen)\<rparr>,

     \<lparr>cmd_Name = ''evacuator'', cmd_Description = ''Send NATS start message for evacuated apps'',
      cmd_Usage = ''hm evacuator --config=/path/to/config'',
      cmd_Flags = [config_flag, debug_flag],
      cmd_Action = shared_action sx ''evacuator'' (\<lambda>c. TaskEvacuate)\<rparr>,

     \<lparr>cmd_Name = ''serve_api'', cmd_Description = ''Serve app API over http'',
      cmd_Usage = ''hm serve_api --config=/path/to/config'',
      cmd_Flags = [config_flag, debug_flag],
      cmd_Action = shared_action sx ''apiserver'' (\<lambda>c. TaskServeAPI)\<rparr>,

     \<lparr>cmd_Name = ''shred'', cmd_Description = ''Deletes empty directories from the store'',
      cmd_Usage = ''hm shred --config=/path/to/config --poll'',
      cmd_Flags = [config_flag, poll_flag, debug_flag],
      cmd_Action = shared_action sx ''shredder'' (\<lambda>c. TaskShred (c_Bool c ''poll''))\<rparr>,

     \<lparr>cmd_Name = ''dump'', cmd_Description = ''Dumps contents of the data store'',
      cmd_Usage = ''hm dump --config=/path/to/config'',
      cmd_Flags = [config_flag, BoolFlag ''raw'' ''If set, dump the unstructured contents of the database'', debug_flag],
      cmd_Action = shared_action sx ''dumper'' (\<lambda>c. TaskDump (c_Bool c ''raw''))\<rparr>]"

subsection \<open>What every command does first\<close>

text \<open>The name under which a command logs.\<close>

fun component_of :: "task \<Rightarrow> string" where
  "component_of (TaskAnalyze _) = ''analyzer''"
| "component_of TaskListen = ''listener''"
| "component_of TaskEvacuate = ''evacuator''"
| "component_of TaskServeAPI = ''apiserver''"
| "component_of (TaskShred _) = ''shredder''"
| "component_of (TaskDump _) = ''dumper''"

lemmas start_steps = then_start_def started_def stops_with_def check_level_def

lemma analyze_is_shared: "analyze_action sx = shared_action sx ''analyzer'' (\<lambda>c. TaskAnalyze (c_Bool c ''poll''))"
  by (rule ext, rule ext)
    (simp add: analyze_action_def shared_action_def loadLoggerAndConfig_def then_start_def started_def
      split: prod.splits sum.splits)

lemma shared_actions:
  "list_all (\<lambda>cmd. \<exists>task_of component. cmd_Action cmd = shared_action sx component task_of \<and> component \<noteq> []
     \<and> (\<forall>c. component_of (task_of c) = component)) (commands sx)"
  unfolding commands_def analyze_is_shared
  by (simp only: list.pred_inject Command.simps simp_thms)
    (intro conjI; intro exI, rule conjI, rule refl, simp)

lemma command_shared:
  assumes "cmd \<in> set (commands sx)"
  obtains component task_of where "component \<noteq> []" "cmd_Action cmd = shared_action sx component task_of"
    "\<And>c. component_of (task_of c) = component"
  using shared_actions [of sx] assms that unfolding list_all_iff by blast

text \<open>A start that succeeds has read a configuration with a known level; it logs under its own name.\<close>

lemma command_starts:
  assumes "cmd \<in> set (commands sx)" and "cmd_Action cmd c w = (Inr ((name, level), conf, t), w')"
  shows "\<exists>json w1. read_file sx (c_String c ''config'') w = (Inr json, w1) \<and> FromJSON json = Some conf"
    and "LogLevel conf = Inr level" and "name = component_of t" and "c_String c ''config'' \<noteq> []"
proof -
  obtain component task_of where shared: "component \<noteq> []" "cmd_Action cmd = shared_action sx component task_of"
    "\<And>c. component_of (task_of c) = component"
    using command_shared [OF assms(1)] by blast
  note run = assms(2) [unfolded shared(2)]
  show "\<exists>json w1. read_file sx (c_String c ''config'') w = (Inr json, w1) \<and> FromJSON json = Some conf"
    and "LogLevel conf = Inr level" and "name = component_of t" and "c_String c ''config'' \<noteq> []"
    using run shared(1,3)
    by (auto simp: shared_action_def loadLoggerAndConfig_def loadConfig_def FromFile_def start_steps Let_def
        split: prod.splits sum.splits option.splits if_splits)
qed

text \<open>Without a configuration no command goes on, and nothing has been done.\<close>

lemma command_needs_config:
  assumes "cmd \<in> set (commands sx)" and "c_String c ''config'' = []"
  shows "cmd_Action cmd c w = (Inl ConfigPathRequired, w)"
proof -
  obtain component task_of where "component \<noteq> []" "cmd_Action cmd = shared_action sx component task_of"
    using command_shared [OF assms(1)] by blast
  then show ?thesis
    using assms(2) by (simp add: shared_action_def loadLoggerAndConfig_def loadConfig_def start_steps)
qed

end
