(* ===== verification/Desired_State_Server.thy ===== *)
theory Desired_State_Server imports Go_Format Desired_State_Fetcher begin

text \<open>
  \<open>testhelpers/desiredstateserver/\<close>: the bulk API of a cloud controller as the repository itself writes
  it down, against which the whole program is run. It hands out its list of apps in slices; the token of
  a page is the index of the next app, and the page after the last app is empty.

  The text of a query is split and unescaped as \<open>net/url\<close> does it. How the JSON text of a token is read
  is the argument \<open>json_text\<close>, since the model keeps JSON as values elsewhere. A number in it becomes a
  \<open>float64\<close>, so indices are exact up to \<open>2 ^ 53\<close>; what the conversion back to \<open>int\<close> makes of a number
  outside 64 bits is the argument \<open>unrep\<close>. Panics of a handler end the one request: its connection is
  closed without an answer.
\<close>

record DesiredStateServer =
  dss_Apps :: "DesiredAppState list"
  dss_NumberOfCompleteFetches :: int

definition SetDesiredState :: "DesiredAppState list \<Rightarrow> DesiredStateServer \<Rightarrow> DesiredStateServer" where
  "SetDesiredState newState server = server\<lparr>dss_Apps := newState\<rparr>"

definition server_Reset :: "DesiredStateServer \<Rightarrow> DesiredStateServer" where
  "server_Reset server = server\<lparr>dss_Apps := [], dss_NumberOfCompleteFetches := 0\<rparr>"

definition GetNumberOfCompleteFetches :: "DesiredStateServer \<Rightarrow> int" where
  "GetNumberOfCompleteFetches server = dss_NumberOfCompleteFetches server"

definition server_URL :: "int \<Rightarrow> string" where
  "server_URL port = ''http://127.0.0.1:'' @ itoa port"

subsection \<open>The query of a request\<close>

definition hex_val :: "char \<Rightarrow> nat option" where
  "hex_val c = (if is_digit c then Some (digit_val c)
     else (let n = of_char c :: nat in
           if 65 \<le> n \<and> n \<le> 70 then Some (n - 55) else if 97 \<le> n \<and> n \<le> 102 then Some (n - 87) else None))"

text \<open>\<open>QueryUnescape\<close>: \<open>%\<close> and two hexadecimal digits are a byte, \<open>+\<close> is a blank.\<close>

fun unescape_query :: "string \<Rightarrow> string option" where
  "unescape_query [] = Some []"
| "unescape_query (c # s) =
     (if c = CHR ''%''
      then (case s of
              a # b # t \<Rightarrow> (case (hex_val a, hex_val b) of
                             (Some x, Some y) \<Rightarrow> map_option ((#) (char_of (16 * x + y))) (unescape_query t)
                           | _ \<Rightarrow> None)
            | _ \<Rightarrow> None)
      else map_option ((#) (if c = CHR ''+'' then CHR '' '' else c)) (unescape_query s))"

definition query_entry :: "string \<Rightarrow> (string \<times> string) list" where
  "query_entry s =
     (if s = [] then []
      else case (unescape_query (takeWhile (\<lambda>c. c \<noteq> CHR ''='') s),
                 unescape_query (drop 1 (dropWhile (\<lambda>c. c \<noteq> CHR ''='') s))) of
             (Some key, Some val) \<Rightarrow> [(key, val)]
           | _ \<Rightarrow> [])"

definition url_Query :: "string \<Rightarrow> (string \<times> string) list" where
  "url_Query raw = concat (map query_entry (split_on CHR ''&'' raw))"

text \<open>\<open>Query()[key][0]\<close>; there is no first value under a key that is missing, and the index panics.\<close>

definition first_value :: "string \<Rightarrow> (string \<times> string) list \<Rightarrow> string option" where
  "first_value key q = map_of q key"

subsection \<open>Batch size and token\<close>

text \<open>The error of \<open>Atoi\<close> is ignored: a number out of range becomes the nearest one, any other text 0.\<close>

definition extractBatchSize :: "(string \<times> string) list \<Rightarrow> int option" where
  "extractBatchSize q =
     (case first_value ''batch_size'' q of
        None \<Rightarrow> None
      | Some text \<Rightarrow> (case signed_digits text of
                       None \<Rightarrow> Some 0
                     | Some n \<Rightarrow> Some (max (- (2 ^ 63)) (min (2 ^ 63 - 1) n))))"

text \<open>The entry \<open>id\<close> of the token; a token that is no JSON object has none.\<close>

fun token_entry :: "json option \<Rightarrow> json" where
  "token_entry (Some (JObj fs)) = (case map_of (rev fs) ''id'' of Some j \<Rightarrow> j | None \<Rightarrow> JNull)"
| "token_entry _ = JNull"

fun is_number :: "json \<Rightarrow> bool" where
  "is_number (JInt n) \<longleftrightarrow> True"
| "is_number (JDec r) \<longleftrightarrow> True"
| "is_number _ \<longleftrightarrow> False"

text \<open>
  The assertion that the entry is a \<open>float64\<close> panics for any other value than a number; a number out of
  the range of a \<open>float64\<close> is not stored.
\<close>

definition extractBulkToken :: "(string \<Rightarrow> json option) \<Rightarrow> int \<Rightarrow> (string \<times> string) list \<Rightarrow> int option" where
  "extractBulkToken json_text unrep q =
     (case first_value ''bulk_token'' q of
        None \<Rightarrow> None
      | Some text \<Rightarrow>
          (let bulkToken = token_entry (json_text text)
           in if bulkToken = JNull then Some 0
              else if is_number bulkToken
              then Some (case jfloat bulkToken of None \<Rightarrow> 0 | Some x \<Rightarrow> int_of_float unrep x)
              else None))"

subsection \<open>The handler\<close>

datatype server_answer =
    Aborted
  | Answer nat bytes

definition server_credentials :: string where
  "server_credentials = ''Basic bWNhdDp0ZXN0aW5n''"

definition handleApps :: "(string \<Rightarrow> json option) \<Rightarrow> int \<Rightarrow> string \<Rightarrow> (string \<times> string) list
    \<Rightarrow> DesiredStateServer \<Rightarrow> server_answer \<times> DesiredStateServer" where
  "handleApps json_text unrep credentials q server =
     (if credentials \<noteq> server_credentials then (Answer 401 (Raw []), server)
      else case extractBatchSize q of
        None \<Rightarrow> (Aborted, server)
      | Some batchSize \<Rightarrow>
         (case extractBulkToken json_text unrep q of
            None \<Rightarrow> (Aborted, server)
          | Some bulkToken \<Rightarrow>
             (let apps = dss_Apps server;
                  endIndex = min (wrap64 (bulkToken + batchSize)) (int (length apps))
              in if bulkToken < 0 \<or> endIndex < bulkToken then (Aborted, server)
                 else
                   let results = fold (\<lambda>app results. mput (ds_AppGuid app) app results)
                                   (drop (nat bulkToken) (take (nat endIndex) apps)) [];
                       server' = (if bulkToken = int (length apps)
                                  then server\<lparr>dss_NumberOfCompleteFetches :=
                                                wrap64 (dss_NumberOfCompleteFetches server + 1)\<rparr>
                                  else server)
                   in (Answer 200 (Response_ToJSON \<lparr>rs_Results = results, rs_BulkToken = endIndex\<rparr>),
                       server'))))"

text \<open>The routes of the server; \<open>target\<close> is what follows its URL.\<close>

definition serve :: "(string \<Rightarrow> json option) \<Rightarrow> int \<Rightarrow> string \<Rightarrow> string
    \<Rightarrow> DesiredStateServer \<Rightarrow> server_answer \<times> DesiredStateServer" where
  "serve json_text unrep target credentials server =
     (let path = takeWhile (\<lambda>c. c \<noteq> CHR ''?'') target;
          q = url_Query (drop 1 (dropWhile (\<lambda>c. c \<noteq> CHR ''?'') target))
      in if path = ''/bulk/apps'' then handleApps json_text unrep credentials q server
         else if path = ''/bulk/counts'' then
           (Answer 200 (Doc (JObj [(''counts'', JObj [(''user'', JInt 17)])])), server)
         else (Answer 404 (Raw (''404 page not found'' @ [CHR 0x0A])), server))"

subsection \<open>A client of the server\<close>

text \<open>The server answers every request under its URL; \<open>sv\<close> is its state in the world.\<close>

fun answer_of :: "server_answer \<Rightarrow> http_error + nat \<times> (string + bytes)" where
  "answer_of Aborted = Inl (RequestFailed ''EOF'')"
| "answer_of (Answer status body) = Inr (status, Inr body)"

definition serves :: "'w externals \<Rightarrow> (string \<Rightarrow> json option) \<Rightarrow> int \<Rightarrow> int \<Rightarrow> ('w \<Rightarrow> DesiredStateServer) \<Rightarrow> bool" where
  "serves ex json_text unrep port sv \<longleftrightarrow>
     (\<forall>target auth w.
        fst (http_get ex (server_URL port @ target) auth w) = answer_of (fst (serve json_text unrep target auth (sv w)))
      \<and> sv (snd (http_get ex (server_URL port @ target) auth w)) = snd (serve json_text unrep target auth (sv w)))"

text \<open>What the text of a token means.\<close>

definition reads_tokens :: "(string \<Rightarrow> json option) \<Rightarrow> bool" where
  "reads_tokens json_text \<longleftrightarrow> json_text initialBulkToken = Some (JObj [])
     \<and> (\<forall>r. json_text (BulkTokenRepresentation r) = Some (JObj [(''id'', JInt (rs_BulkToken r))]))"

text \<open>The list in slices of \<open>Suc b\<close> apps, each with the index after it.\<close>

definition guid_entries :: "DesiredAppState list \<Rightarrow> (string, DesiredAppState) gomap" where
  "guid_entries apps = map (\<lambda>app. (ds_AppGuid app, app)) apps"

definition slice_page :: "nat \<Rightarrow> DesiredAppState list \<Rightarrow> DesiredStateServerResponse" where
  "slice_page n apps = \<lparr>rs_Results = sort_key fst (guid_entries apps), rs_BulkToken = int (n + length apps)\<rparr>"

fun slice_pages :: "nat \<Rightarrow> nat \<Rightarrow> DesiredAppState list \<Rightarrow> DesiredStateServerResponse list" where
  "slice_pages b n [] = []"
| "slice_pages b n (app # apps) =
     (let slice = take (Suc b) (app # apps)
      in slice_page n slice # slice_pages b (n + length slice) (drop b apps))"

lemma mput_fresh: "k \<notin> fst ` set m \<Longrightarrow> mput k v m = m @ [(k, v)]"
  by (induction m) (auto simp: mput_def)

lemma guid_entries_fold:
  "distinct (map fst m @ map ds_AppGuid apps) \<Longrightarrow>
     fold (\<lambda>app results. mput (ds_AppGuid app) app results) apps m = m @ guid_entries apps"
  by (induction apps arbitrary: m) (auto simp: mput_fresh guid_entries_def)

lemma decode_results_entries:
  "distinct (map fst m @ map fst xs) \<Longrightarrow> \<forall>(k, d)\<in>set xs. in_int64 (ds_NumberOfInstances d) \<Longrightarrow>
     decode_results m (map (\<lambda>(k, d). (k, DesiredAppState_json d)) xs) = Some (m @ xs)"
proof (induction xs arbitrary: m)
  case (Cons x xs)
  obtain k d where x: "x = (k, d)" by fastforce
  have "in_int64 (ds_NumberOfInstances d)" using Cons.prems by (simp add: x)
  from DesiredAppState_json_roundtrip [OF this]
  have "jstruct decode_DesiredAppState (DesiredAppState_json d) = Some d" "DesiredAppState_json d \<noteq> JNull"
    by (simp_all add: NewDesiredAppStateFromJSON_def DesiredAppState_ToJSON_def DesiredAppState_json_def)
  then show ?case using Cons by (simp add: x mput_fresh)
qed simp

lemma response_decoded:
  assumes "distinct (map fst (rs_Results r))" and "in_int64 (rs_BulkToken r)"
    and "\<forall>(k, d)\<in>set (rs_Results r). in_int64 (ds_NumberOfInstances d)"
  shows "NewDesiredStateServerResponse (Response_ToJSON r) = Some (r\<lparr>rs_Results := sort_key fst (rs_Results r)\<rparr>)"
proof -
  have "distinct (map fst (sort_key fst (rs_Results r)))"
    using assms(1) by (metis distinct_map distinct_sort set_sort)
  then have "decode_results [] (map (\<lambda>(k, d). (k, DesiredAppState_json d)) (sort_key fst (rs_Results r))) =
      Some (sort_key fst (rs_Results r))"
    using decode_results_entries [of "[]" "sort_key fst (rs_Results r)"] assms(3) by simp
  then show ?thesis
    using assms(2)
    by (simp add: NewDesiredStateServerResponse_def Response_ToJSON_def decode_BulkToken_def fold_eq_def lower_def)
qed

subsection \<open>The requests of the fetcher\<close>

lemma unescape_plain: "CHR ''%'' \<notin> set s \<Longrightarrow> CHR ''+'' \<notin> set s \<Longrightarrow> unescape_query s = Some s"
  by (induction s) auto

definition plain_text :: "string \<Rightarrow> bool" where
  "plain_text s \<longleftrightarrow> set s \<inter> set ''%+&=?'' = {}"

lemma plain_itoa [simp]: "plain_text (itoa n)"
proof -
  have "\<not> is_digit c" if "c \<in> set ''%+&=?''" for c using that by (auto simp: is_digit_def)
  moreover have "CHR ''-'' \<notin> set ''%+&=?''" by simp
  ultimately show ?thesis unfolding plain_text_def using itoa_chars by blast
qed

lemma plain_token [simp]: "plain_text (BulkTokenRepresentation r)" "plain_text initialBulkToken"
  using plain_itoa [of "rs_BulkToken r"] by (auto simp: plain_text_def BulkTokenRepresentation_def initialBulkToken_def)

lemma query_entry_plain:
  assumes "plain_text key" and "plain_text val" and "key \<noteq> []"
  shows "query_entry (key @ CHR ''='' # val) = [(key, val)]"
proof -
  have "\<forall>c\<in>set key. c \<noteq> CHR ''=''" using assms(1) by (auto simp: plain_text_def)
  then have "takeWhile (\<lambda>c. c \<noteq> CHR ''='') (key @ CHR ''='' # val) = key"
    "dropWhile (\<lambda>c. c \<noteq> CHR ''='') (key @ CHR ''='' # val) = CHR ''='' # val"
    by (simp_all add: takeWhile_append dropWhile_append)
  then show ?thesis
    using assms by (simp add: query_entry_def unescape_plain plain_text_def)
qed

definition bulk_query :: "string \<Rightarrow> string \<Rightarrow> string" where
  "bulk_query size_text token = ''batch_size='' @ size_text @ ''&bulk_token='' @ token"

lemma url_Query_bulk:
  assumes "plain_text size_text" and "plain_text token"
  shows "url_Query (bulk_query size_text token) = [(''batch_size'', size_text), (''bulk_token'', token)]"
proof -
  have split: "split_on CHR ''&'' (bulk_query size_text token) =
      [''batch_size'' @ CHR ''='' # size_text, ''bulk_token'' @ CHR ''='' # token]"
    using assms by (simp add: bulk_query_def plain_text_def)
  have "query_entry (''batch_size'' @ CHR ''='' # size_text) = [(''batch_size'', size_text)]"
    "query_entry (''bulk_token'' @ CHR ''='' # token) = [(''bulk_token'', token)]"
    using assms by (intro query_entry_plain; simp add: plain_text_def)+
  then show ?thesis unfolding url_Query_def split by simp
qed

lemma bulkURL_target:
  assumes "CCBaseURL conf = server_URL port"
  shows "bulkURL conf b token = server_URL port @ ''/bulk/apps?'' @ bulk_query (itoa b) token"
  by (simp add: bulkURL_def bulk_query_def assms)

lemma serve_bulk:
  assumes "plain_text token"
  shows "serve json_text unrep (''/bulk/apps?'' @ bulk_query (itoa b) token) auth server =
     handleApps json_text unrep auth [(''batch_size'', itoa b), (''bulk_token'', token)] server"
proof -
  have "takeWhile (\<lambda>c. c \<noteq> CHR ''?'') (''/bulk/apps?'' @ s) = ''/bulk/apps''"
    "drop 1 (dropWhile (\<lambda>c. c \<noteq> CHR ''?'') (''/bulk/apps?'' @ s)) = s" for s
    by simp_all
  then show ?thesis
    unfolding serve_def Let_def by (simp only: url_Query_bulk [OF plain_itoa assms] refl if_True)
qed

text \<open>The token for the \<open>n\<close>-th app.\<close>

definition token_for :: "(string \<Rightarrow> json option) \<Rightarrow> nat \<Rightarrow> string \<Rightarrow> bool" where
  "token_for json_text n token \<longleftrightarrow> plain_text token
     \<and> (\<forall>unrep size. extractBulkToken json_text unrep [(''batch_size'', size), (''bulk_token'', token)] = Some (int n))"

lemma finite_float_of_int: "\<bar>n\<bar> < 4294967296 \<Longrightarrow> finite_float (of_int n) = Some (Num (of_int n))"
proof -
  assume "\<bar>n\<bar> < 4294967296"
  then have "\<bar>of_int n :: rat\<bar> < of_int 4294967296" by (metis of_int_abs of_int_less_iff)
  then show ?thesis by (subst finite_float_small) simp
qed

lemma token_for_first: "reads_tokens json_text \<Longrightarrow> token_for json_text 0 initialBulkToken"
  by (simp add: token_for_def reads_tokens_def extractBulkToken_def first_value_def)

lemma token_for_page:
  assumes "reads_tokens json_text" and "rs_BulkToken r = int n" and "n < 4294967296"
  shows "token_for json_text n (BulkTokenRepresentation r)"
proof -
  have "int n < 4294967296" using assms(3) by simp
  then have "finite_float (of_int (int n)) = Some (Num (of_int (int n)))" "in_int64 (int n)"
    by (simp_all only: finite_float_of_int abs_of_nat) (use assms(3) in \<open>simp add: in_int64_def\<close>)
  then show ?thesis
    using assms
    by (simp add: token_for_def reads_tokens_def extractBulkToken_def first_value_def int_of_float_def)
qed

subsection \<open>Slices of the apps\<close>

lemma handleApps_slice:
  assumes "token_for json_text n token" and "n \<le> length (dss_Apps server)"
    and "length (dss_Apps server) < 4294967296" and "0 < b" and "b < 4294967296"
    and "distinct (map ds_AppGuid (dss_Apps server))"
  shows "handleApps json_text unrep server_credentials [(''batch_size'', itoa b), (''bulk_token'', token)] server =
     (Answer 200 (Response_ToJSON
        \<lparr>rs_Results = guid_entries (take (nat b) (drop n (dss_Apps server))),
         rs_BulkToken = min (int n + b) (int (length (dss_Apps server)))\<rparr>),
      (if n = length (dss_Apps server)
       then server\<lparr>dss_NumberOfCompleteFetches := wrap64 (dss_NumberOfCompleteFetches server + 1)\<rparr> else server))"
proof -
  let ?apps = "dss_Apps server"
  let ?stop = "min (int n + b) (int (length ?apps))"
  have batch: "extractBatchSize [(''batch_size'', itoa b), (''bulk_token'', token)] = Some b"
    using assms(4,5) by (simp add: extractBatchSize_def first_value_def)
  have token: "extractBulkToken json_text unrep [(''batch_size'', itoa b), (''bulk_token'', token)] = Some (int n)"
    using assms(1) by (simp add: token_for_def)
  have sum: "wrap64 (int n + b) = int n + b"
    using assms(2-5) by (intro wrap64_id) (simp add: in_int64_def)
  have slice: "drop n (take (nat ?stop) ?apps) = take (nat b) (drop n ?apps)"
  proof (cases "int n + b \<le> int (length ?apps)")
    case True
    then have "nat ?stop = n + nat b" using assms(4) by simp
    then show ?thesis by (simp only: drop_take diff_add_inverse)
  next
    case False
    then have "nat ?stop = length ?apps" "length ?apps - n \<le> nat b" using assms(2) by simp_all
    then show ?thesis by simp
  qed
  have "distinct (map ds_AppGuid (take (nat b) (drop n ?apps)))"
    using assms(6) by (metis distinct_drop distinct_take drop_map take_map)
  then have results: "fold (\<lambda>app results. mput (ds_AppGuid app) app results) (take (nat b) (drop n ?apps)) [] =
      guid_entries (take (nat b) (drop n ?apps))"
    using guid_entries_fold [of "[]"] by simp
  have "\<not> (int n < 0 \<or> ?stop < int n)" using assms(2,4) by simp
  then show ?thesis
    by (simp only: handleApps_def batch token option.case sum Let_def nat_int slice results)
      (simp add: server_credentials_def)
qed

text \<open>What a run of the fetcher needs of the server and its settings.\<close>

definition fetch_setting :: "'w externals \<Rightarrow> (string \<Rightarrow> json option) \<Rightarrow> int \<Rightarrow> int \<Rightarrow> ('w \<Rightarrow> DesiredStateServer)
    \<Rightarrow> Config \<Rightarrow> DesiredAppState list \<Rightarrow> bool" where
  "fetch_setting ex json_text unrep port sv conf apps \<longleftrightarrow>
     serves ex json_text unrep port sv \<and> reads_tokens json_text
   \<and> CCBaseURL conf = server_URL port \<and> CCAuthUser conf = ''mcat'' \<and> CCAuthPassword conf = ''testing''
   \<and> 0 < DesiredStateBatchSize conf \<and> DesiredStateBatchSize conf < 4294967296
   \<and> length apps < 4294967296 \<and> distinct (map ds_AppGuid apps) \<and> distinct (map DesiredAppState_StoreKey apps)
   \<and> (\<forall>app\<in>set apps. in_int64 (ds_NumberOfInstances app))"

lemma guid_entries_keys [simp]: "map fst (guid_entries apps) = map ds_AppGuid apps"
  by (simp add: guid_entries_def comp_def)

lemma guid_entries_range: "\<forall>app\<in>set apps. P app \<Longrightarrow> \<forall>(k, d)\<in>set (guid_entries apps). P d"
  by (auto simp: guid_entries_def)

lemma serves_answer:
  assumes "serves ex json_text unrep port sv" and "serve json_text unrep target auth (sv w) = (Answer status body, s')"
  shows "http_get ex (server_URL port @ target) auth w =
      (Inr (status, Inr body), snd (http_get ex (server_URL port @ target) auth w))"
    and "sv (snd (http_get ex (server_URL port @ target) auth w)) = s'"
proof -
  from assms(1) have "fst (http_get ex (server_URL port @ target) auth w) = answer_of (fst (serve json_text unrep target auth (sv w)))"
    and sv: "sv (snd (http_get ex (server_URL port @ target) auth w)) = snd (serve json_text unrep target auth (sv w))"
    unfolding serves_def by blast+
  then show "http_get ex (server_URL port @ target) auth w =
      (Inr (status, Inr body), snd (http_get ex (server_URL port @ target) auth w))"
    by (intro prod_eqI) (simp_all only: assms(2) fst_conv snd_conv answer_of.simps)
  show "sv (snd (http_get ex (server_URL port @ target) auth w)) = s'" by (simp only: sv assms(2) snd_conv)
qed

lemma page_at_slice:
  assumes "fetch_setting ex json_text unrep port sv conf apps" and "dss_Apps (sv w) = apps"
    and "token_for json_text n token" and "n \<le> length apps"
  obtains w1 where
    "page_at ex conf server_credentials token w =
       Some (slice_page n (take (nat (DesiredStateBatchSize conf)) (drop n apps)), w1)"
    "sv w1 = (if n = length apps
       then (sv w)\<lparr>dss_NumberOfCompleteFetches := wrap64 (dss_NumberOfCompleteFetches (sv w) + 1)\<rparr> else sv w)"
proof -
  note s = assms(1) [unfolded fetch_setting_def]
  let ?slice = "take (nat (DesiredStateBatchSize conf)) (drop n apps)"
  let ?target = "''/bulk/apps?'' @ bulk_query (itoa (DesiredStateBatchSize conf)) token"
  let ?r = "\<lparr>rs_Results = guid_entries ?slice,
             rs_BulkToken = min (int n + DesiredStateBatchSize conf) (int (length apps))\<rparr>"
  let ?sv = "if n = length apps
       then (sv w)\<lparr>dss_NumberOfCompleteFetches := wrap64 (dss_NumberOfCompleteFetches (sv w) + 1)\<rparr> else sv w"
  have plain: "plain_text token" using assms(3) by (simp add: token_for_def)
  have bounds: "n \<le> length (dss_Apps (sv w))" "length (dss_Apps (sv w)) < 4294967296" "0 < DesiredStateBatchSize conf"
    "DesiredStateBatchSize conf < 4294967296" "distinct (map ds_AppGuid (dss_Apps (sv w)))"
    using s unfolding assms(2) by (simp_all add: assms(4))
  have served: "serve json_text unrep ?target server_credentials (sv w) = (Answer 200 (Response_ToJSON ?r), ?sv)"
    unfolding serve_bulk [OF plain] handleApps_slice [OF assms(3) bounds] assms(2) ..
  note get = serves_answer [OF conjunct1 [OF s] served]
  have "distinct (map fst (rs_Results ?r))"
    using bounds(5) unfolding assms(2) DesiredStateServerResponse.simps guid_entries_keys
    by (simp only: take_map [symmetric] drop_map [symmetric] distinct_take distinct_drop)
  moreover have "\<forall>(k, d)\<in>set (rs_Results ?r). in_int64 (ds_NumberOfInstances d)"
    using s by (simp only: DesiredStateServerResponse.simps)
      (intro guid_entries_range, meson in_set_dropD in_set_takeD)
  moreover have "in_int64 (rs_BulkToken ?r)" using bounds unfolding assms(2) by (simp add: in_int64_def)
  ultimately have "NewDesiredStateServerResponse (Response_ToJSON ?r) = Some (?r\<lparr>rs_Results := sort_key fst (rs_Results ?r)\<rparr>)"
    by (intro response_decoded)
  also have "?r\<lparr>rs_Results := sort_key fst (rs_Results ?r)\<rparr> = slice_page n ?slice"
    using bounds unfolding assms(2) by (auto simp: slice_page_def min_def nat_le_iff)
  finally have "page_at ex conf server_credentials token w =
      Some (slice_page n ?slice, snd (http_get ex (server_URL port @ ?target) server_credentials w))"
    unfolding page_at_def bulkURL_target [OF conjunct1 [OF conjunct2 [OF conjunct2 [OF s]]]] by (subst get(1)) simp
  then show thesis using that get(2) by blast
qed

text \<open>From the \<open>n\<close>-th app on the server hands out the remaining slices and then counts a complete fetch.\<close>

lemma slices_run:
  assumes "fetch_setting ex json_text unrep port sv conf apps" and "dss_Apps (sv w) = apps"
    and "token_for json_text n token" and "n \<le> length apps" and "DesiredStateBatchSize conf = int (Suc b)"
  shows "\<exists>w'. page_run ex conf server_credentials token w (slice_pages b n (drop n apps)) w'
     \<and> sv w' = (sv w)\<lparr>dss_NumberOfCompleteFetches := wrap64 (dss_NumberOfCompleteFetches (sv w) + 1)\<rparr>"
  using assms(2-4)
proof (induction "length apps - n" arbitrary: n token w rule: less_induct)
  case less
  obtain w1 where page: "page_at ex conf server_credentials token w =
      Some (slice_page n (take (Suc b) (drop n apps)), w1)"
    and w1: "sv w1 = (if n = length apps
       then (sv w)\<lparr>dss_NumberOfCompleteFetches := wrap64 (dss_NumberOfCompleteFetches (sv w) + 1)\<rparr> else sv w)"
    using page_at_slice [OF assms(1) less.prems] unfolding assms(5) by (metis nat_int)
  show ?case
  proof (cases "n = length apps")
    case True
    then show ?thesis
      using page_run.page_end [OF page] w1 by (auto simp: slice_page_def guid_entries_def)
  next
    case False
    let ?slice = "take (Suc b) (drop n apps)"
    let ?m = "n + length ?slice"
    have slice: "?slice \<noteq> []" "?m \<le> length apps" "length apps - ?m < length apps - n"
      using False less.prems by auto
    have "?m < 4294967296" using slice(2) assms(1) by (simp add: fetch_setting_def)
    moreover have "reads_tokens json_text" using assms(1) by (simp add: fetch_setting_def)
    ultimately have token: "token_for json_text ?m (BulkTokenRepresentation (slice_page n ?slice))"
      by (intro token_for_page) (simp_all add: slice_page_def)
    have "dss_Apps (sv w1) = apps" using w1 False less.prems(1) by simp
    from less.hyps [OF slice(3) this token slice(2)] obtain w' where rest: "page_run ex conf server_credentials (BulkTokenRepresentation (slice_page n ?slice)) w1
        (slice_pages b ?m (drop ?m apps)) w'"
      "sv w' = (sv w1)\<lparr>dss_NumberOfCompleteFetches := wrap64 (dss_NumberOfCompleteFetches (sv w1) + 1)\<rparr>"
      by blast
    have "rs_Results (slice_page n ?slice) \<noteq> []"
      using slice(1) by (simp add: slice_page_def guid_entries_def flip: length_0_conv)
    from page_run.page_more [OF page this rest(1)]
    have "page_run ex conf server_credentials token w (slice_page n ?slice # slice_pages b ?m (drop ?m apps)) w'" .
    moreover have "slice_page n ?slice # slice_pages b ?m (drop ?m apps) = slice_pages b n (drop n apps)"
    proof -
      obtain app rest where "drop n apps = app # rest" using False less.prems by (cases "drop n apps") auto
      moreover have "drop ?m apps = drop (Suc b) (drop n apps)"
      proof (cases "Suc b \<le> length (drop n apps)")
        case True
        then have "?m = n + Suc b" by simp
        then show ?thesis by (simp only: drop_drop add.commute)
      next
        case False
        then have "length apps \<le> ?m" by simp
        then show ?thesis using False by simp
      qed
      ultimately show ?thesis by (simp add: Let_def)
    qed
    ultimately show ?thesis using rest(2) w1 False by auto
  qed
qed

subsection \<open>What the pages hold\<close>

lemma batch_fold:
  assumes "distinct (map fst m @ map (DesiredAppState_StoreKey \<circ> snd) (filter (is_relevant \<circ> snd) xs))"
  shows "fold (\<lambda>(k, d) cache. if is_relevant d then mput (DesiredAppState_StoreKey d) d cache else cache) xs m =
     m @ map (\<lambda>(k, d). (DesiredAppState_StoreKey d, d)) (filter (is_relevant \<circ> snd) xs)"
  using assms
proof (induction xs arbitrary: m)
  case (Cons x xs)
  obtain k d where x: "x = (k, d)" by fastforce
  show ?case
  proof (cases "is_relevant d")
    case True
    then have "DesiredAppState_StoreKey d \<notin> fst ` set m" using Cons.prems by (auto simp: x)
    then show ?thesis using True Cons by (simp add: x mput_fresh)
  qed (use Cons in \<open>simp add: x\<close>)
qed simp

lemma batch_of_slice:
  assumes "distinct (map DesiredAppState_StoreKey part)"
  shows "mset (map snd (batch_of ch (slice_page n part))) = mset (filter is_relevant part)"
proof -
  let ?xs = "go_range ch (sort_key fst (guid_entries part))"
  have ms: "mset (map snd ?xs) = mset part"
    by (simp only: mset_map mset_go_range mset_sort) (simp add: guid_entries_def comp_def flip: mset_map)
  then have "mset (map DesiredAppState_StoreKey (map snd ?xs)) = mset (map DesiredAppState_StoreKey part)"
    by (metis mset_map)
  then have "distinct (map DesiredAppState_StoreKey (map snd ?xs))"
    using assms by (metis mset_eq_imp_distinct_iff)
  then have "distinct (map (DesiredAppState_StoreKey \<circ> snd) (filter (is_relevant \<circ> snd) ?xs))"
    by (simp add: distinct_map_filter)
  then have "batch_of ch (slice_page n part) =
      map (\<lambda>(k, d). (DesiredAppState_StoreKey d, d)) (filter (is_relevant \<circ> snd) ?xs)"
    using batch_fold [of "[]" ?xs] by (simp add: batch_of_def slice_page_def)
  then have "map snd (batch_of ch (slice_page n part)) = filter is_relevant (map snd ?xs)"
    by (simp add: filter_map comp_def case_prod_unfold)
  then show ?thesis using ms by (metis mset_filter)
qed

lemma batches_of_slices:
  assumes "distinct (map DesiredAppState_StoreKey apps)"
  shows "mset (map snd (concat (batches_of ch i (slice_pages b n apps)))) = mset (filter is_relevant apps)"
  using assms
proof (induction b n apps arbitrary: i rule: slice_pages.induct)
  case (2 b n app apps)
  let ?slice = "take (Suc b) (app # apps)"
  have "distinct (map DesiredAppState_StoreKey ?slice)" "distinct (map DesiredAppState_StoreKey (drop b apps))"
    using "2.prems" by (metis distinct_take take_map) (use "2.prems" in \<open>simp add: drop_map [symmetric]\<close>)
  note parts = batch_of_slice [OF this(1), of "ch i" n] "2.IH" [OF refl this(2), of "Suc i"]
  have "mset (filter is_relevant (app # apps)) =
      mset (filter is_relevant ?slice) + mset (filter is_relevant (drop b apps))"
    by (metis append_take_drop_id drop_Suc_Cons filter_append mset_append)
  then show ?case using parts by (simp add: batches_of_def Let_def del: take_Suc_Cons)
qed (simp add: batches_of_def)

lemma total_of_slices:
  assumes "0 \<le> k" and "k + int (length apps) < 2 ^ 63"
  shows "total_results k (slice_pages b n apps) = k + int (length apps)"
  using assms
proof (induction b n apps arbitrary: k rule: slice_pages.induct)
  case (2 b n app apps)
  let ?slice = "take (Suc b) (app # apps)"
  have len: "length (app # apps) = length ?slice + length (drop b apps)" by simp
  have "wrap64 (k + int (length ?slice)) = k + int (length ?slice)"
    using "2.prems" len by (intro wrap64_id) (simp add: in_int64_def)
  moreover have "length (rs_Results (slice_page n ?slice)) = length ?slice"
    by (simp add: slice_page_def guid_entries_def)
  moreover have "total_results (k + int (length ?slice)) (slice_pages b (n + length ?slice) (drop b apps)) =
      k + int (length ?slice) + int (length (drop b apps))"
    using "2.prems" len by (intro "2.IH" [OF refl]) simp_all
  ultimately show ?case using len by (simp add: total_results_def Let_def del: take_Suc_Cons)
qed (simp add: total_results_def)

lemma mcat_credentials: "BasicAuthInfo_Encode \<lparr>User = ''mcat'', Password = ''testing''\<rparr> = server_credentials"
  by code_simp

end
