(* ===== verification/Tool_Properties.thy ===== *)
theory Tool_Properties imports Samples Store_Metrics Usage_Tracker Start_Up Store_Dump Command_Line Desired_State_Server begin

text \<open>
  Properties of the tools around the store: the usage tracker, the metrics in the store, the
  connection strings and the dump.
\<close>

subsection \<open>The usage of the workers\<close>

text \<open>
  When at most \<open>n\<close> workers work between the start of a measurement and its end, one piece of
  work after the other, then the usage that a tracker for \<open>n\<close> workers measures is the share of their
  time that was worked: a number between 0 and 1, in whatever order the pieces end. The measurement
  leaves the tracker as a new one that starts at that time.\<close>

theorem usage_is_share_of_capacity:
  assumes "s < t" and "0 < ut_workerCount u" and "ut_workerCount u * (t - s) < 2 ^ 63"
    and "int (length workers) \<le> ut_workerCount u" and "\<forall>ws\<in>set workers. one_by_one s t ws"
    and "mset works = mset (concat workers)"
  shows "MeasureUsage t (track works (StartTrackingUsage s u)) =
       ((Num (of_int (total_work works) / of_int ((t - s) * ut_workerCount u)), t - s),
        newUsageTracker (ut_workerCount u) t)
     \<and> 0 \<le> total_work works \<and> total_work works \<le> (t - s) * ut_workerCount u"
proof -
  let ?n = "ut_workerCount u" and ?u = "newUsageTracker (ut_workerCount u) s"
  have u: "ut_startTime ?u = s" "ut_timeSpentWorking ?u = 0" "ut_workerCount ?u = ?n"
    by (simp_all add: newUsageTracker_def)
  have total: "total_work works = total_work (concat workers)" using assms(6) by (rule total_work_mset)
  have "int (length workers) * (t - s) \<le> ?n * (t - s)" using assms(1,4) by (simp add: mult_right_mono)
  then have bounds: "0 \<le> total_work works" "total_work works \<le> ?n * (t - s)"
    using workers_total [OF assms(5)] total by auto
  have "a \<le> b" if "(a, b) \<in> set works" for a b
  proof -
    have "(a, b) \<in> set (concat workers)" using that assms(6) by (metis set_mset_mset)
    then show ?thesis using assms(5) one_by_one_inside by fastforce
  qed
  then have tracked: "track works ?u = ?u\<lparr>ut_timeSpentWorking := total_work works\<rparr>"
    using track_sum [of works ?u] bounds assms(3) u by simp
  have "t - s \<le> ?n * (t - s)" using assms(1,2) by (simp add: mult_le_cancel_right1)
  then have "t - s < 2 ^ 63" using assms(3) by simp
  then have "fst (MeasureUsage t (track works ?u)) = (Num (of_int (total_work works) / of_int ((t - s) * ?n)), t - s)"
    using MeasureUsage_ratio [of "track works ?u" t] assms(1,2) u by (simp add: tracked)
  moreover have "snd (MeasureUsage t (track works ?u)) = newUsageTracker ?n t"
    unfolding MeasureUsage_reset tracked by (simp add: newUsageTracker_def)
  ultimately show ?thesis using bounds
    by (metis StartTrackingUsage_new mult.commute prod.collapse)
qed

theorem usage_is_share_of_capacity_witness:
  "MeasureUsage 10 (track [(2, 4), (0, 5)] (StartTrackingUsage 0 (newUsageTracker 2 (- 7)))) =
     ((Num (7 / 20), 10), newUsageTracker 2 10)"
  using usage_is_share_of_capacity [of 0 10 "newUsageTracker 2 (- 7)" "[[(0, 5)], [(2, 4)]]" "[(2, 4), (0, 5)]"]
  by (simp add: newUsageTracker_def)

text \<open>Work that began before the measurement counts in full, so a usage can exceed 1.\<close>

lemma usage_above_one:
  "fst (MeasureUsage 10 (track [(- 90, 5)] (StartTrackingUsage 0 (newUsageTracker 1 (- 100))))) = (Num (19 / 2), 10)"
  by (simp add: newUsageTracker_def StartTrackingUsage_def track_def Around_def MeasureUsage_def
      resetUsageMetrics_def time_Sub_def wrap64_def Seconds_def float_quotient_def second_def)

subsection \<open>Metrics in the store\<close>

text \<open>
  A metric that was saved is read back, unless the store fails, as a number that differs from
  it by at most half a unit of the fifth decimal; the infinities and NaN come back as they are. Saving
  touches no key but the metric's and the directories above it.\<close>

theorem metric_roundtrip:
  assumes "kv_adapter ex entries" and "metric_ok value" and "SaveMetric ex store metric value w = (None, w1)"
    and "GetMetric ex store metric w1 = ((v, err), w2)"
  shows "w2 = w1
     \<and> (case err of
          None \<Rightarrow> (case value of Num r \<Rightarrow> \<exists>r'. v = Num r' \<and> \<bar>r' - r\<bar> \<le> 1 / 200000 | _ \<Rightarrow> v = value)
        | Some e \<Rightarrow> \<exists>se. e = StoreError se \<and> se \<noteq> ErrorKeyNotFound)
     \<and> (\<forall>k. k \<noteq> metric_key store metric \<longrightarrow> \<not> below k (metric_key store metric) \<longrightarrow> entries w1 k = entries w k)"
proof -
  note written = kv_adapter.metric_written [OF assms(1,3)]
  note read = kv_adapter.metric_read [OF assms(1) written(1) assms(2,4)]
  have "case value of Num r \<Rightarrow> \<exists>r'. five_decimals value = Num r' \<and> \<bar>r' - r\<bar> \<le> 1 / 200000
      | _ \<Rightarrow> five_decimals value = value"
    using round_fixed_near [of 5] by (cases "value") simp_all
  then show ?thesis using read written(2) by (auto split: option.splits float64.splits)
qed

lemma sample_metric_saved:
  "\<exists>w1. SaveMetric mem_externals sample_store ''load'' x empty_memory = (None, w1)
     \<and> map_of (mem_entries w1) (metric_key sample_store ''load'') = Some (File (Raw (format_fixed 5 x)))"
proof -
  have k: "metric_key sample_store ''load'' = ''/hm/v0/metrics/load''" by code_simp
  show ?thesis
    by (simp add: SaveMetric_def k mem_externals_def leaf_node_def empty_memory_def list_ex_iff Let_def)
qed

theorem metric_roundtrip_witness:
  "\<exists>w1. SaveMetric mem_externals sample_store ''load'' (Num (1 / 3)) empty_memory = (None, w1)
     \<and> GetMetric mem_externals sample_store ''load'' w1 = ((Num (33333 / 100000), None), w1)
     \<and> \<bar>33333 / 100000 - 1 / 3 :: rat\<bar> \<le> 1 / 200000"
proof -
  have r: "round_fixed 5 (1 / 3) = 33333 / 100000" by code_simp
  then have m: "metric_ok (Num (1 / 3))" by (simp add: metric_ok_def float_limit_def)
  obtain w1 where s: "SaveMetric mem_externals sample_store ''load'' (Num (1 / 3)) empty_memory = (None, w1)"
    and e: "map_of (mem_entries w1) (metric_key sample_store ''load'') = Some (File (Raw (format_fixed 5 (Num (1 / 3)))))"
    using sample_metric_saved by blast
  have g: "GetMetric mem_externals sample_store ''load'' w1 = ((Num (33333 / 100000), None), w1)"
    using e parse_metric [OF m] r
    by (simp add: GetMetric_def mem_externals_def mem_get_def leaf_node_def del: format_fixed.simps)
  show ?thesis using metric_roundtrip [OF memory.kv_adapter_axioms m s g] s g by simp
qed

subsection \<open>The dump\<close>

text \<open>
  When the dump can read the store, it panics exactly when a heartbeat of an app names a DEA
  whose guid has fewer than five bytes, and otherwise ends with the code 0. Whatever is desired, every
  app is printed as not desired.\<close>

theorem dump_end_and_desired:
  assumes "VerifyFreshness ex store fresh_now w = (freshness, w1)"
    and "GetApps ex apps_now ch store w1 = (Inr apps, store2, w2)"
    and "GetPendingStartMessages ex store2 w2 = (Inr starts, w3)"
    and "GetPendingStopMessages ex store2 w3 = (Inr stops, w4)"
  shows "snd (fst (dumpStructured ex err_text ch now fresh_now apps_now clk store w)) =
       (if \<exists>app\<in>snd ` set apps. \<exists>h\<in>set (app_InstanceHeartbeats app). length (hb_DeaGuid h) < 5
        then DumpPanic else DumpDone)
     \<and> (\<forall>app\<in>snd ` set apps. \<forall>i. \<exists>rest. fst (dumpApp ch i app starts stops) =
          newline @ ''Guid: '' @ app_AppGuid app @ '' | Version: '' @ app_AppVersion app @ newline
          @ ''  Desired: NO'' @ newline @ rest)"
proof
  have "gomap_ok apps" using assms(2) by (auto simp: GetApps_def gomap_ok_build_apps split: prod.splits sum.splits)
  then show "snd (fst (dumpStructured ex err_text ch now fresh_now apps_now clk store w)) =
       (if \<exists>app\<in>snd ` set apps. \<exists>h\<in>set (app_InstanceHeartbeats app). length (hb_DeaGuid h) < 5
        then DumpPanic else DumpDone)"
    using assms dump_apps_end [of apps ch clk starts stops]
    by (simp add: dumpStructured_def Let_def and_then_simps)
  show "\<forall>app\<in>snd ` set apps. \<forall>i. \<exists>rest. fst (dumpApp ch i app starts stops) =
          newline @ ''Guid: '' @ app_AppGuid app @ '' | Version: '' @ app_AppVersion app @ newline
          @ ''  Desired: NO'' @ newline @ rest"
  proof (intro ballI allI)
    fix app i assume "app \<in> snd ` set apps"
    then have "\<not> IsDesired app" using GetApps_not_desired [OF assms(2)] by blast
    then show "\<exists>rest. fst (dumpApp ch i app starts stops) =
          newline @ ''Guid: '' @ app_AppGuid app @ '' | Version: '' @ app_AppVersion app @ newline
          @ ''  Desired: NO'' @ newline @ rest"
      by (rule dumpApp_head)
  qed
qed

theorem dump_end_and_desired_witness:
  "snd (fst (dumpStructured mem_externals (\<lambda>_. ''error'') (\<lambda>_. 0) 0 0 (time_Unix 1000) (\<lambda>_ _. 0)
       sample_store app_memory)) = DumpPanic"
proof -
  let ?a = "GetApps mem_externals (time_Unix 1000) (\<lambda>_. 0) sample_store app_memory"
  have v: "VerifyFreshness mem_externals sample_store 0 app_memory =
      (fst (VerifyFreshness mem_externals sample_store 0 app_memory), app_memory)" by code_simp
  have a: "?a = (Inr [(''app,v1'', NewApp ''app'' ''v1'' zero_DesiredAppState
      [sample_heartbeat ''a'' 0 InstanceStateRunning] [])], fst (snd ?a), app_memory)" by code_simp
  have s: "GetPendingStartMessages mem_externals (fst (snd ?a)) app_memory = (Inr [], app_memory)" by code_simp
  have t: "GetPendingStopMessages mem_externals (fst (snd ?a)) app_memory = (Inr [], app_memory)" by code_simp
  show ?thesis
    using dump_end_and_desired [OF v a s t, of "\<lambda>_. ''error''" 0 "\<lambda>_ _. 0"]
    by (simp add: NewApp_def sample_heartbeat_def)
qed

subsection \<open>The message bus\<close>

text \<open>The addresses handed to the message bus: the first half of them are empty strings.\<close>

lemma bus_members_half_empty:
  "take (length (NATS conf)) (bus_members conf) = replicate (length (NATS conf)) []"
  "drop (length (NATS conf)) (bus_members conf) = map nats_url (NATS conf)"
  by (simp_all add: bus_members_eq)

subsection \<open>Fetching from the desired state server\<close>

lemma fetch_served:
  assumes "fetch_setting ex json_text unrep port sv conf (dss_Apps (sv w))" and "\<forall>i. \<not> stopped i"
  shows "\<exists>batches w'.
     Fetch ex conf stopped ch q w =
       Some (fetched (int (length (dss_Apps (sv w)))), q\<lparr>DesiredApps := DesiredApps q @ batches\<rparr>, w')
   \<and> mset (map snd (concat batches)) = mset (filter is_relevant (dss_Apps (sv w)))
   \<and> (\<forall>b\<in>set batches. batch_ok b)
   \<and> sv w' = (sv w)\<lparr>dss_NumberOfCompleteFetches := wrap64 (dss_NumberOfCompleteFetches (sv w) + 1)\<rparr>"
proof -
  let ?apps = "dss_Apps (sv w)"
  note s = assms(1) [unfolded fetch_setting_def]
  obtain b where b: "DesiredStateBatchSize conf = int (Suc b)"
    using s by (metis gr0_implies_Suc zero_less_imp_eq_int)
  have "BasicAuthInfo_Encode \<lparr>User = CCAuthUser conf, Password = CCAuthPassword conf\<rparr> = server_credentials"
    using s by (simp add: mcat_credentials)
  moreover obtain w' where run: "page_run ex conf server_credentials initialBulkToken w (slice_pages b 0 ?apps) w'"
      "sv w' = (sv w)\<lparr>dss_NumberOfCompleteFetches := wrap64 (dss_NumberOfCompleteFetches (sv w) + 1)\<rparr>"
    using slices_run [OF assms(1) refl token_for_first _ b] s by auto
  ultimately have "Fetch ex conf stopped ch q w =
      Some (fetched (total_results 0 (slice_pages b 0 ?apps)),
        q\<lparr>DesiredApps := DesiredApps q @ batches_of ch 0 (slice_pages b 0 ?apps)\<rparr>, w')"
    unfolding Fetch_def using fetchBatch_page_run [OF run(1)] assms(2) by simp
  moreover have "total_results 0 (slice_pages b 0 ?apps) = int (length ?apps)"
    using total_of_slices [of 0 ?apps] s by simp
  moreover have "mset (map snd (concat (batches_of ch 0 (slice_pages b 0 ?apps)))) = mset (filter is_relevant ?apps)"
    using s by (intro batches_of_slices) blast
  moreover have "\<forall>m\<in>set (batches_of ch 0 (slice_pages b 0 ?apps)). batch_ok m"
    by (auto simp: batches_of_def batch_of_ok)
  ultimately show ?thesis using run(2) by auto
qed


text \<open>A server with three apps, of which two are to run, asked for two at a time.\<close>

definition served_apps :: "DesiredAppState list" where
  "served_apps =
     [\<lparr>ds_AppGuid = ''b'', ds_AppVersion = ''1'', ds_NumberOfInstances = 2, ds_State = ''STARTED'', ds_PackageState = ''STAGED''\<rparr>,
      \<lparr>ds_AppGuid = ''a'', ds_AppVersion = ''1'', ds_NumberOfInstances = 1, ds_State = ''STOPPED'', ds_PackageState = ''STAGED''\<rparr>,
      \<lparr>ds_AppGuid = ''c'', ds_AppVersion = ''2'', ds_NumberOfInstances = 3, ds_State = ''STARTED'', ds_PackageState = ''PENDING''\<rparr>]"

definition token_text :: "string \<Rightarrow> json option" where
  "token_text s = (if s = ''{}'' then Some (JObj [])
     else map_option (\<lambda>n. JObj [(''id'', JInt n)]) (signed_digits (butlast (drop 6 s))))"

definition served_externals :: "DesiredStateServer externals" where
  "served_externals = \<lparr>
     ad_SetMulti = (\<lambda>nodes server. (None, server)),
     ad_Get = (\<lambda>key server. (Inl ErrorKeyNotFound, server)),
     ad_ListRecursively = (\<lambda>key server. (Inl ErrorKeyNotFound, server)),
     ad_Delete = (\<lambda>keys server. (None, server)),
     http_post = (\<lambda>url auth body server. (Inr 404, server)),
     http_get = (\<lambda>url auth server.
       let (answer, server') = serve token_text 0 (drop (length (server_URL 6001)) url) auth server
       in (answer_of answer, server')),
     nats_Publish = (\<lambda>subject body server. (None, server)),
     metrics_AddToCounter = (\<lambda>name n server. (None, server)),
     metrics_SendValue = (\<lambda>name v server. (None, server))\<rparr>"

definition served_conf :: Config where
  "served_conf = defaults\<lparr>CCBaseURL := server_URL 6001, CCAuthUser := ''mcat'', CCAuthPassword := ''testing'',
     DesiredStateBatchSize := 2\<rparr>"

lemma token_text_reads: "reads_tokens token_text"
proof -
  have "drop 6 (BulkTokenRepresentation r) = itoa (rs_BulkToken r) @ ''}''" for r
    by (simp add: BulkTokenRepresentation_def)
  then have "butlast (drop 6 (BulkTokenRepresentation r)) = itoa (rs_BulkToken r)" for r
    by (simp add: butlast_append)
  moreover have "BulkTokenRepresentation r \<noteq> ''{}''" for r by (simp add: BulkTokenRepresentation_def)
  ultimately show ?thesis
    by (simp add: reads_tokens_def token_text_def initialBulkToken_def)
qed

lemma served_setting: "fetch_setting served_externals token_text 0 6001 id served_conf served_apps"
proof -
  have "serves served_externals token_text 0 6001 id"
    by (simp add: serves_def served_externals_def case_prod_unfold Let_def)
  then show ?thesis
    using token_text_reads
    by (simp add: fetch_setting_def served_conf_def defaults_def served_apps_def in_int64_def DesiredAppState_StoreKey_def)
qed

definition served_world :: DesiredStateServer where
  "served_world = SetDesiredState served_apps \<lparr>dss_Apps = [], dss_NumberOfCompleteFetches = 0\<rparr>"


end
