(* ===== verification/Start_Stop_Listener.thy ===== *)
theory Start_Stop_Listener imports Sender_Store begin

text \<open>
  \<open>testhelpers/startstoplistener/\<close>: the receiving end of the start and stop messages as the repository
  itself writes it down, against which the whole program is run. It keeps what it is sent, in order,
  and takes a body for a stop message when the word \<open>is_duplicate\<close> occurs anywhere in it.

  A panic of the handler ends the one request: its connection is closed without an answer. The lock
  makes every operation one step.
\<close>

record StartStopListener =
  sl_starts :: "StartMessage list"
  sl_stops :: "StopMessage list"

definition NewStartStopListener :: StartStopListener where
  "NewStartStopListener = \<lparr>sl_starts = [], sl_stops = []\<rparr>"

subsection \<open>The text of a body\<close>

definition contains_word :: "string \<Rightarrow> string \<Rightarrow> bool" where
  "contains_word word s \<longleftrightarrow> list_ex (prefix word) (suffixes s)"

text \<open>
  All names and texts of a document. The word \<open>is_duplicate\<close> occurs in the JSON text of a document only
  inside one of them: between any two there are quotes, what stands between quotes otherwise has none of
  its letters in this order, and an escape starts with a backslash and has no \<open>i\<close>.
\<close>

fun json_texts :: "json \<Rightarrow> string list" where
  "json_texts (JStr s) = [s]"
| "json_texts (JArr js) = concat (map json_texts js)"
| "json_texts (JObj fs) = concat (map (\<lambda>(k, j). k # json_texts j) fs)"
| "json_texts _ = []"

fun body_contains :: "string \<Rightarrow> bytes \<Rightarrow> bool" where
  "body_contains word (Raw s) \<longleftrightarrow> contains_word word s"
| "body_contains word (Doc j) \<longleftrightarrow> list_ex (contains_word word) (json_texts j)"

subsection \<open>The operations\<close>

text \<open>The status of the answer, or nothing after a panic.\<close>

definition listener_ServeHTTP :: "string + bytes \<Rightarrow> StartStopListener \<Rightarrow> nat option \<times> StartStopListener" where
  "listener_ServeHTTP read listener =
     (case read of
        Inl err \<Rightarrow> (None, listener)
      | Inr b \<Rightarrow>
          if body_contains ''is_duplicate'' b
          then (case NewStopMessageFromJSON b of
                  None \<Rightarrow> (None, listener)
                | Some stopMessage \<Rightarrow> (Some 200, listener\<lparr>sl_stops := sl_stops listener @ [stopMessage]\<rparr>))
          else (case NewStartMessageFromJSON b of
                  None \<Rightarrow> (None, listener)
                | Some startMessage \<Rightarrow> (Some 200, listener\<lparr>sl_starts := sl_starts listener @ [startMessage]\<rparr>)))"

definition StartCount :: "StartStopListener \<Rightarrow> nat" where
  "StartCount listener = length (sl_starts listener)"

definition listener_Start :: "int \<Rightarrow> StartStopListener \<Rightarrow> StartMessage option" where
  "listener_Start i listener =
     (if 0 \<le> i \<and> i < int (length (sl_starts listener)) then Some (sl_starts listener ! nat i) else None)"

definition StopCount :: "StartStopListener \<Rightarrow> nat" where
  "StopCount listener = length (sl_stops listener)"

definition listener_Stop :: "int \<Rightarrow> StartStopListener \<Rightarrow> StopMessage option" where
  "listener_Stop i listener =
     (if 0 \<le> i \<and> i < int (length (sl_stops listener)) then Some (sl_stops listener ! nat i) else None)"

definition listener_Reset :: "StartStopListener \<Rightarrow> StartStopListener" where
  "listener_Reset listener = listener\<lparr>sl_starts := [], sl_stops := []\<rparr>"

subsection \<open>What a message becomes\<close>

definition start_wire :: "PendingStartMessage \<Rightarrow> StartMessage" where
  "start_wire m = \<lparr>sm_MessageId = MessageId m, sm_AppGuid = AppGuid m, sm_AppVersion = AppVersion m,
     sm_InstanceIndex = IndexToStart m\<rparr>"

definition stop_app :: "(string, App) gomap \<Rightarrow> PendingStopMessage \<Rightarrow> App option" where
  "stop_app apps m = map_of apps (AppKey (AppGuid m) (AppVersion m))"

definition stop_wire :: "(string, App) gomap \<Rightarrow> PendingStopMessage \<Rightarrow> StopMessage" where
  "stop_wire apps m =
     (let app = the (stop_app apps m); i = hb_InstanceIndex (InstanceWithGuid app (InstanceGuid m))
      in \<lparr>xm_MessageId = MessageId m, xm_AppGuid = AppGuid m, xm_AppVersion = AppVersion m,
          xm_InstanceGuid = InstanceGuid m, xm_InstanceIndex = i,
          xm_IsDuplicate = (IsDesired app \<and> IsIndexDesired app i)\<rparr>)"

lemma startMessageToSend_wire: "startMessageToSend s m = Some x \<Longrightarrow> x = start_wire m"
  by (auto simp: startMessageToSend_def start_wire_def Let_def split: if_splits option.splits)

lemma stopMessageToSend_wire: "stopMessageToSend s m = Some x \<Longrightarrow> x = stop_wire (se_apps s) m"
  by (auto simp: stopMessageToSend_def stop_wire_def stop_app_def Let_def split: if_splits option.splits)

text \<open>A message that the listener takes for what it is.\<close>

definition plain_words :: "PendingStartMessage \<Rightarrow> bool" where
  "plain_words m \<longleftrightarrow> \<not> list_ex (contains_word ''is_duplicate'') [MessageId m, AppGuid m, AppVersion m]"

definition start_clean :: "PendingStartMessage \<Rightarrow> bool" where
  "start_clean m \<longleftrightarrow> in_int64 (IndexToStart m) \<and> plain_words m"

definition stop_clean :: "(string, App) gomap \<Rightarrow> PendingStopMessage \<Rightarrow> bool" where
  "stop_clean apps m \<longleftrightarrow> (case stop_app apps m of
     None \<Rightarrow> True | Some app \<Rightarrow> in_int64 (hb_InstanceIndex (InstanceWithGuid app (InstanceGuid m))))"

lemma field_words:
  "\<not> contains_word ''is_duplicate'' ''message_id''" "\<not> contains_word ''is_duplicate'' ''droplet''"
  "\<not> contains_word ''is_duplicate'' ''version''" "\<not> contains_word ''is_duplicate'' ''instance_index''"
  "contains_word ''is_duplicate'' ''is_duplicate''"
  by code_simp+

lemma start_taken:
  assumes "start_clean m"
  shows "listener_ServeHTTP (Inr (StartMessage_ToJSON (start_wire m))) l = (Some 200, l\<lparr>sl_starts := sl_starts l @ [start_wire m]\<rparr>)"
proof -
  have "\<not> body_contains ''is_duplicate'' (StartMessage_ToJSON (start_wire m))"
    using assms by (simp add: StartMessage_ToJSON_def start_wire_def start_clean_def plain_words_def field_words)
  moreover have "NewStartMessageFromJSON (StartMessage_ToJSON (start_wire m)) = Some (start_wire m)"
    using assms by (intro StartMessage_json_roundtrip) (simp add: start_wire_def start_clean_def)
  ultimately show ?thesis by (simp add: listener_ServeHTTP_def)
qed

lemma stop_taken:
  assumes "in_int64 (xm_InstanceIndex x)"
  shows "listener_ServeHTTP (Inr (StopMessage_ToJSON x)) l = (Some 200, l\<lparr>sl_stops := sl_stops l @ [x]\<rparr>)"
proof -
  have "body_contains ''is_duplicate'' (StopMessage_ToJSON x)" by (simp add: StopMessage_ToJSON_def field_words)
  then show ?thesis using StopMessage_json_roundtrip [OF assms] by (simp add: listener_ServeHTTP_def)
qed

subsection \<open>A sender of the listener\<close>

text \<open>
  Every message that is posted under the URL of the cloud controller reaches the listener, and nothing
  else does; \<open>lv\<close> is its state in the world.
\<close>

definition delivers :: "'w externals \<Rightarrow> Config \<Rightarrow> ('w \<Rightarrow> StartStopListener) \<Rightarrow> bool" where
  "delivers ex conf lv \<longleftrightarrow>
     (\<forall>action guid body w.
        fst (post_message ex conf action guid body w) =
          (case fst (listener_ServeHTTP (Inr body) (lv w)) of None \<Rightarrow> Inl ''EOF'' | Some status \<Rightarrow> Inr status)
      \<and> lv (snd (post_message ex conf action guid body w)) = snd (listener_ServeHTTP (Inr body) (lv w)))"

definition apart :: "'w externals \<Rightarrow> ('w \<Rightarrow> StartStopListener) \<Rightarrow> bool" where
  "apart ex lv \<longleftrightarrow> (\<forall>w. (\<forall>ns. lv (snd (ad_SetMulti ex ns w)) = lv w) \<and> (\<forall>ks. lv (snd (ad_Delete ex ks w)) = lv w)
     \<and> (\<forall>k. lv (snd (ad_Get ex k w)) = lv w) \<and> (\<forall>d. lv (snd (ad_ListRecursively ex d w)) = lv w)
     \<and> (\<forall>url auth. lv (snd (http_get ex url auth w)) = lv w)
     \<and> (\<forall>name n. lv (snd (metrics_AddToCounter ex name n w)) = lv w)
     \<and> (\<forall>name v. lv (snd (metrics_SendValue ex name v w)) = lv w))"

lemma apartD:
  assumes "apart ex lv"
  shows "ad_SetMulti ex ns w = (e, w') \<Longrightarrow> lv w' = lv w" "ad_Delete ex ks w = (e', w') \<Longrightarrow> lv w' = lv w"
    "ad_Get ex k w = (r, w') \<Longrightarrow> lv w' = lv w" "ad_ListRecursively ex d w = (r', w') \<Longrightarrow> lv w' = lv w"
    "http_get ex url auth w = (p, w') \<Longrightarrow> lv w' = lv w"
    "metrics_AddToCounter ex name n w = (c, w') \<Longrightarrow> lv w' = lv w" "metrics_SendValue ex name v w = (c', w') \<Longrightarrow> lv w' = lv w"
  using assms unfolding apart_def by (metis snd_conv)+

lemma apart_services: "apart ex lv \<Longrightarrow> service_calls ex (\<lambda>w. lv w = L)"
  by (rule service_calls.intro) (simp_all add: apartD)

text \<open>What was sent in this call is what the listener has got beyond \<open>L\<close>.\<close>

definition in_step :: "('w \<Rightarrow> StartStopListener) \<Rightarrow> Config \<Rightarrow> (string, App) gomap \<Rightarrow> StartStopListener \<Rightarrow> sender \<times> 'w \<Rightarrow> bool" where
  "in_step lv conf apps L = (\<lambda>(s, w). se_conf s = conf \<and> se_apps s = apps
     \<and> lv w = \<lparr>sl_starts = sl_starts L @ map start_wire (sentStartMessages s),
               sl_stops = sl_stops L @ map (stop_wire apps) (sentStopMessages s)\<rparr>)"

lemma send_start_in_step:
  assumes "delivers ex conf lv" and "start_clean m" and "in_step lv conf apps L sw"
  shows "in_step lv conf apps L (send_start ex m sw)"
proof -
  obtain s w where sw: "sw = (s, w)" by fastforce
  have conf: "se_conf s = conf" using assms(3) by (simp add: in_step_def sw)
  obtain r w' where post: "post_message ex conf ''start'' (AppGuid m) (StartMessage_ToJSON (start_wire m)) w = (r, w')" by fastforce
  have "r = Inr 200 \<and> lv w' = (lv w)\<lparr>sl_starts := sl_starts (lv w) @ [start_wire m]\<rparr>"
    using assms(1) unfolding delivers_def by (metis post fst_conv snd_conv start_taken [OF assms(2)] option.simps(5))
  then show ?thesis
    using assms(3) post conf startMessageToSend_wire [of s m]
    by (auto simp: sw in_step_def send_start_def sendStartMessageHttp_def Let_def sender_defs split: option.splits)
qed

lemma send_stop_in_step:
  assumes "delivers ex conf lv" and "stop_clean apps m" and "in_step lv conf apps L sw"
  shows "in_step lv conf apps L (send_stop ex m sw)"
proof -
  obtain s w where sw: "sw = (s, w)" by fastforce
  have conf: "se_conf s = conf" "se_apps s = apps" using assms(3) by (simp_all add: in_step_def sw)
  show ?thesis
  proof (cases "stopMessageToSend s m")
    case (Some x)
    have x: "x = stop_wire apps m" using stopMessageToSend_wire [OF Some] conf by simp
    have "in_int64 (xm_InstanceIndex x)"
      using Some assms(2) conf by (auto simp: x stop_wire_def stop_clean_def stop_app_def stopMessageToSend_def Let_def split: option.splits)
    note taken = stop_taken [OF this]
    obtain r w' where post: "post_message ex conf ''stop'' (AppGuid m) (StopMessage_ToJSON x) w = (r, w')" by fastforce
    have "r = Inr 200 \<and> lv w' = (lv w)\<lparr>sl_stops := sl_stops (lv w) @ [x]\<rparr>"
      using assms(1) unfolding delivers_def by (metis post fst_conv snd_conv taken option.simps(5))
    then show ?thesis
      using assms(3) post conf Some x
      by (auto simp: sw in_step_def send_stop_def sendStopMessageHttp_def Let_def sender_defs)
  qed (use assms(3) in \<open>auto simp: sw in_step_def send_stop_def sendStopMessageHttp_def sender_defs\<close>)
qed

subsection \<open>A call of \<open>Send\<close>\<close>

lemma VerifyFreshness_apart: "apart ex lv \<Longrightarrow> VerifyFreshness ex store now w = (r, w') \<Longrightarrow> lv w' = lv w"
  by (auto simp: VerifyFreshness_def IsActualStateFresh_def dest: apartD(3)
      split: sum.splits prod.splits store_error.splits option.splits if_splits)

lemma store_result_apart:
  "apart ex lv \<Longrightarrow> store_result (ad_SetMulti ex ns w) = (e, w') \<Longrightarrow> lv w' = lv w"
  "apart ex lv \<Longrightarrow> store_result (ad_Delete ex ks w) = (e, w') \<Longrightarrow> lv w' = lv w"
  by (auto simp: store_result_def dest: apartD(1,2) split: prod.splits)

lemma try_write_apart:
  assumes "\<And>v e v'. write v = (e, v') \<Longrightarrow> lv v' = lv v"
  shows "lv (snd (try_write write sw)) = lv (snd sw)"
  using assms by (cases sw) (auto simp: try_write_def split: prod.splits option.splits)

lemma write_messages_apart:
  assumes "apart ex lv"
  shows "lv (snd (write_messages ex ch store sw)) = lv (snd sw)"
proof -
  note store = store_result_apart [OF assms]
  have counters: "lv v' = lv v" if "IncrementSentMessageMetrics ex ch ms xs v = (e, v')" for ms xs v e v'
    by (rule service_calls.metrics_keep [OF apart_services [OF assms] refl that])
  show ?thesis
    unfolding write_messages_def case_prod_beta prod.collapse
    by (subst try_write_apart,
        simp add: pending_op_defs delete_def save_def, erule store)+
      (subst try_write_apart, erule counters, rule refl)
qed

lemma Send_in_step:
  assumes "delivers ex conf lv" and "apart ex lv" and "\<forall>m\<in>set starts. start_clean m" and "\<forall>x\<in>set stops. stop_clean apps x"
    and "Send ex ch chm store now apps starts stops (new_sender conf) w = (r, s', w')"
  shows "in_step lv conf apps (lv w) (s', w')"
proof -
  let ?s0 = "(new_sender conf)\<lparr>currentTime := now, se_apps := apps\<rparr>"
  let ?L = "lv w"
  obtain f w1 where f: "VerifyFreshness ex store now w = (f, w1)" by fastforce
  have w1: "in_step lv conf apps ?L (?s0, w1)"
    using VerifyFreshness_apart [OF assms(2) f] by (cases "lv w") (simp add: in_step_def new_sender_def)
  have sorted: "set (SortStartMessagesByPriority ch starts) = set starts"
    by (metis mset_SortStartMessagesByPriority set_mset_mset)
  let ?sw1 = "sendStartMessages ex ch starts (?s0, w1)"
  have 1: "in_step lv conf apps ?L ?sw1"
    unfolding sendStartMessages_def
    by (rule fold_invariant_set [where P = "in_step lv conf apps ?L", OF w1])
      (use assms(3) sorted send_start_in_step [OF assms(1)] in blast)
  let ?sw2 = "sendStopMessages ex stops ?sw1"
  have 2: "in_step lv conf apps ?L ?sw2"
    unfolding sendStopMessages_def
    by (rule fold_invariant_set [where P = "in_step lv conf apps ?L", OF 1])
      (use assms(4) send_stop_in_step [OF assms(1)] in blast)
  obtain b where b: "fst (write_messages ex chm store ?sw2) = (fst ?sw2)\<lparr>didSucceed := b\<rparr>"
    using write_messages_frame(1) by blast
  have 3: "in_step lv conf apps ?L (write_messages ex chm store ?sw2)"
    using 2 b write_messages_apart [OF assms(2), of chm store ?sw2]
    by (cases "write_messages ex chm store ?sw2"; cases ?sw2) (simp add: in_step_def)
  have "(s', w') = (case f of Some e \<Rightarrow> (?s0, w1) | None \<Rightarrow> write_messages ex chm store ?sw2)"
    using assms(5) f by (cases f) (auto simp: Send_def Let_def split: prod.splits)
  then show ?thesis using w1 3 by (cases f) auto
qed

end
