(* ===== verification/Round_Delivery.thy ===== *)
theory Round_Delivery imports Analysis_Complete Sender_Properties Start_Stop_Listener Tool_Properties begin

text \<open>
  A round of the analyzer from end to end: the desired apps come from the repository's own server of the
  bulk API, the actual state from the store, and what the round sends arrives at the repository's own
  listener for start and stop messages.
\<close>

subsection \<open>Only posting reaches the listener\<close>

context shared_store begin

lemma apart_shared:
  assumes "apart ex lv"
  shows "shared_store ex (\<lambda>w. ok w \<and> lv w = L) conf"
proof (rule shared_store.intro)
  note lv = apartD [OF assms]
  show "service_calls ex (\<lambda>w. ok w \<and> lv w = L)"
    by (rule service_calls.intro) (auto simp: lv dest: counter_keeps page_keeps value_keeps)
  show "shared_store_axioms ex (\<lambda>w. ok w \<and> lv w = L) conf"
    by (rule shared_store_axioms.intro)
      (auto simp: lv dest: set_shared delete_shared get_shared get_seen list_shared list_seen intro: fresh_key)
qed

end

text \<open>The instance a stop message names was read from the store, or there is none and its index is 0.\<close>

lemma typed_stop_clean:
  assumes "\<forall>a\<in>snd ` set apps. app_typed a"
  shows "stop_clean apps m"
proof (cases "stop_app apps m")
  case (Some app)
  then have "app_typed app" using assms map_of_SomeD [OF Some [unfolded stop_app_def]] by force
  then have "in_int64 (hb_InstanceIndex (InstanceWithGuid app (InstanceGuid m)))"
    by (auto simp: InstanceWithGuid_def app_typed_def read_typed_def zero_InstanceHeartbeat_def simp: find_Some_iff in_set_conv_nth [symmetric] split: option.split)
  then show ?thesis by (simp add: stop_clean_def Some)
qed (simp add: stop_clean_def)

lemma typed_start_clean: "start_typed m \<Longrightarrow> plain_words m \<Longrightarrow> start_clean m"
  by (simp add: start_clean_def start_typed_def start_message_ok_def pending_ints_ok_def plain_words_def)

subsection \<open>The parts of a round\<close>

text \<open>The fetch hands over the relevant apps of the server.\<close>

lemma fetched_apps:
  assumes "fetch_setting ex json_text unrep port sv conf (dss_Apps (sv w))" and "\<forall>n. \<not> stopped n"
    and "fetchDesiredState ex conf stopped ch NewAppQueue w = Some (fetch, q, w1)"
  shows "desired_apps (DesiredApps q) = {d \<in> set (dss_Apps (sv w)). is_relevant d}" and "fetchDesiredAppsSuccess q"
proof -
  obtain batches w2 where run: "Fetch ex conf stopped ch NewAppQueue w =
      Some (fetched (int (length (dss_Apps (sv w)))), NewAppQueue\<lparr>DesiredApps := DesiredApps NewAppQueue @ batches\<rparr>, w2)"
    and same: "mset (map snd (concat batches)) = mset (filter is_relevant (dss_Apps (sv w)))"
    using fetch_served [OF assms(1,2)] by blast
  then have q: "q = SetFetchDesiredAppsSuccess True (NewAppQueue\<lparr>DesiredApps := batches\<rparr>)"
    using assms(3) by (simp add: fetchDesiredState_def fetched_def NewAppQueue_def)
  have "set (map snd (concat batches)) = set (filter is_relevant (dss_Apps (sv w)))"
    using same by (metis set_mset_mset)
  then show "desired_apps (DesiredApps q) = {d \<in> set (dss_Apps (sv w)). is_relevant d}"
    by (simp add: q desired_apps_def SetFetchDesiredAppsSuccess_def image_UN [symmetric])
  show "fetchDesiredAppsSuccess q" by (simp add: q SetFetchDesiredAppsSuccess_def)
qed

lemma served_queue_typed:
  assumes "fetch_setting ex json_text unrep port sv conf (dss_Apps (sv w))" and "\<forall>n. \<not> stopped n"
    and "\<forall>d\<in>set (dss_Apps (sv w)). is_relevant d \<longrightarrow> proper_key (ds_AppGuid d) \<and> proper_key (ds_AppVersion d)"
    and "fetchDesiredState ex conf stopped ch NewAppQueue w = Some (fetch, q, w1)"
  shows "queue_typed q"
proof -
  have "desired_typed d" if "d \<in> desired_apps (DesiredApps q)" for d
    using that assms(1,3) by (simp add: fetched_apps(1) [OF assms(1,2,4)] desired_typed_def fetch_setting_def)
  then show ?thesis by (auto simp: queue_typed_def desired_apps_def)
qed

text \<open>A round that ends without an error has analysed, and then sent what the analysis gave.\<close>

lemma round_partsE:
  assumes "analyze_round ex env store w None w'"
  obtains fetch q w1 apps ss xs store' w2 s where
    "fetchDesiredState ex (st_config store) (re_stopped env) (re_pages env) NewAppQueue w = Some (fetch, q, w1)"
    "Analyze ex (re_analyze env) (re_now env) q store w1 = (Inr (apps, ss, xs), store', w2)"
    "Send ex (re_sort env) (re_metrics env) store' (re_send_now env) apps ss xs (new_sender (st_config store'))
       (SendMetrics ex (re_metrics env) (re_metrics env) apps None w2) = (None, s, w')"
  using assms
proof (rule analyze_roundE)
  fix fetch q w1 analysis store' w3 out r s
  assume fetch: "fetchDesiredState ex (st_config store) (re_stopped env) (re_pages env) NewAppQueue w = Some (fetch, q, w1)"
    and state: "analyzeState ex (re_analyze env) (re_metrics env) (re_metrics env) (re_now env) q store w1 = (analysis, store', w3)"
    and loop: "loop_reaches fetch analysis (Finished out)"
    and sent: "send_output ex (re_sort env) (re_metrics env) store' (re_send_now env) out w3 = (r, s, w')"
    and ok: "None = map_option Inr r"
  obtain apps ss xs where triple: "out = (apps, ss, xs)" by (cases out)
  have "analysis = Inr (apps, ss, xs)" using loop_reaches_inv [OF loop] by (simp add: loop_inv_def triple)
  then obtain w2 where "Analyze ex (re_analyze env) (re_now env) q store w1 = (Inr (apps, ss, xs), store', w2)"
    "w3 = SendMetrics ex (re_metrics env) (re_metrics env) apps None w2"
    using state by (auto simp: analyzeState_def split: prod.splits sum.splits)
  with fetch sent ok show thesis by (intro that) (auto simp: send_output_def triple)
qed simp

subsection \<open>The whole round\<close>

lemma round_delivers:
  assumes "quiet_externals ex entries" and "fresh_key_ok (st_config store)" and "store_typed store (entries w)"
    and "round_sane env" and "pages_typed ex (st_config store) env w"
    and "delivers ex (st_config store) lv" and "apart ex lv" and "SenderMessageLimit (st_config store) < 2 ^ 63"
    and fetch: "fetchDesiredState ex (st_config store) (re_stopped env) (re_pages env) NewAppQueue w = Some (fetch, q, w1)"
    and run: "Analyze ex (re_analyze env) (re_now env) q store w1 = (Inr (apps, ss, xs), store', w2)"
    and send: "Send ex (re_sort env) (re_metrics env) store' (re_send_now env) apps ss xs (new_sender (st_config store'))
       (SendMetrics ex (re_metrics env) (re_metrics env) apps None w2) = (None, s, w')"
    and plain: "\<forall>m\<in>set ss. plain_words m"
  shows "sl_starts (lv w') = sl_starts (lv w) @ map start_wire
      (take (nat (SenderMessageLimit (st_config store)))
        (filter (start_due apps (re_send_now env)) (SortStartMessagesByPriority (re_sort env) ss)))"
    and "sl_stops (lv w') = sl_stops (lv w) @ map (stop_wire apps) (filter (stop_due apps (re_send_now env)) xs)"
proof -
  let ?conf = "st_config store"
  let ?ok = "\<lambda>v. typed_world entries ?conf v \<and> lv v = lv w"
  note services = apart_services [OF assms(7)]
  have world: "typed_world entries ?conf w" unfolding client_world [OF refl] by (rule assms(3))
  note shared = shared_store.apart_shared [OF shared_services.axioms(1) [OF alone_shared [OF assms(1,2)]] assms(7)]
  have q: "queue_typed q" using assms(5) fetch by (auto simp: pages_typed_def)
  have w1: "?ok w1"
    by (rule service_calls.fetchDesiredState_keep [OF shared_store.axioms(1) [OF shared] _ fetch]) (simp add: world)
  have "env_sane (re_analyze env)" using assms(4) by (simp add: round_sane_def)
  from shared_store.Analyze_typed [OF shared refl w1 this q run]
  have an: "st_config store' = ?conf" "?ok w2" "\<forall>a\<in>snd ` set apps. app_typed a" "\<forall>m\<in>set ss. start_typed m" by simp_all
  let ?w3 = "SendMetrics ex (re_metrics env) (re_metrics env) apps None w2"
  have w3: "lv ?w3 = lv w" by (rule service_calls.SendMetrics_keep [OF services]) (use an(2) in simp)
  have "in_step lv ?conf apps (lv ?w3) (s, w')"
    by (rule Send_in_step [OF assms(6,7) _ _ send [unfolded an(1)]])
      (use an(3,4) plain typed_stop_clean typed_start_clean in blast)+
  then have got: "sl_starts (lv w') = sl_starts (lv w) @ map start_wire (sentStartMessages s)"
    "sl_stops (lv w') = sl_stops (lv w) @ map (stop_wire apps) (sentStopMessages s)"
    by (simp_all add: in_step_def w3)
  note sent = Send_sent_all [OF send [unfolded an(1)] assms(8)]
  show "sl_starts (lv w') = sl_starts (lv w) @ map start_wire
      (take (nat (SenderMessageLimit ?conf))
        (filter (start_due apps (re_send_now env)) (SortStartMessagesByPriority (re_sort env) ss)))"
    and "sl_stops (lv w') = sl_stops (lv w) @ map (stop_wire apps) (filter (stop_due apps (re_send_now env)) xs)"
    unfolding got by (simp_all only: sent)
qed

text \<open>What the analysis of a round hands to the sender.\<close>

definition round_output :: "'w externals \<Rightarrow> round_env \<Rightarrow> RealStore \<Rightarrow> 'w \<Rightarrow> analysis_result option" where
  "round_output ex env store w =
     (case fetchDesiredState ex (st_config store) (re_stopped env) (re_pages env) NewAppQueue w of
        None \<Rightarrow> None
      | Some (fetch, q, w1) \<Rightarrow>
          (case fst (Analyze ex (re_analyze env) (re_now env) q store w1) of Inl e \<Rightarrow> None | Inr result \<Rightarrow> Some result))"

text \<open>
  C21. A round of the analyzer from end to end, with the repository's own bulk API at one end and its own
  listener for start and stop messages at the other: when the round ends without an error, every relevant
  app of the server was analysed with the desired state that the server has, each wanted start of it is
  among the messages, and the listener has got, in this order and each exactly once, the due starts
  in the order of their priority up to \<open>SenderMessageLimit\<close> and all due stops, and nothing else; unless an
  id or guid contains the word by which the listener recognises a stop.
\<close>

theorem round_reaches_the_listener:
  assumes "quiet_externals ex entries" and "fresh_key_ok (st_config store)" and "store_typed store (entries w)"
    and "round_sane env" and "\<forall>n. \<not> re_stopped env n"
    and "fetch_setting ex json_text unrep port sv (st_config store) (dss_Apps (sv w))"
    and "\<forall>d\<in>set (dss_Apps (sv w)). is_relevant d \<longrightarrow> proper_key (ds_AppGuid d) \<and> proper_key (ds_AppVersion d)"
    and "delivers ex (st_config store) lv" and "apart ex lv" and "SenderMessageLimit (st_config store) < 2 ^ 63"
    and "analyze_round ex env store w None w'"
  shows "\<exists>apps ss xs. round_output ex env store w = Some (apps, ss, xs)
     \<and> (\<forall>d\<in>set (dss_Apps (sv w)). is_relevant d \<longrightarrow>
          (\<exists>app. map_of apps (DesiredAppState_StoreKey d) = Some app \<and> app_Desired app = d
             \<and> (\<forall>i. start_wanted app i \<longrightarrow> (\<exists>m\<in>set ss. PendingStartMessage_StoreKey m = instance_key app i))))
     \<and> ((\<forall>m\<in>set ss. plain_words m) \<longrightarrow>
          sl_starts (lv w') = sl_starts (lv w) @ map start_wire
            (take (nat (SenderMessageLimit (st_config store)))
              (filter (start_due apps (re_send_now env)) (SortStartMessagesByPriority (re_sort env) ss)))
        \<and> sl_stops (lv w') = sl_stops (lv w) @ map (stop_wire apps) (filter (stop_due apps (re_send_now env)) xs))"
proof (rule round_partsE [OF assms(11)])
  fix fetch q w1 apps ss xs store' w2 s
  assume fetch: "fetchDesiredState ex (st_config store) (re_stopped env) (re_pages env) NewAppQueue w = Some (fetch, q, w1)"
    and run: "Analyze ex (re_analyze env) (re_now env) q store w1 = (Inr (apps, ss, xs), store', w2)"
    and send: "Send ex (re_sort env) (re_metrics env) store' (re_send_now env) apps ss xs (new_sender (st_config store'))
       (SendMetrics ex (re_metrics env) (re_metrics env) apps None w2) = (None, s, w')"
  note served = fetched_apps [OF assms(6,5)]
  have typed: "pages_typed ex (st_config store) env w"
    unfolding pages_typed_def by (intro allI impI served_queue_typed [OF assms(6,5,7)])
  have "round_output ex env store w = Some (apps, ss, xs)" by (simp add: round_output_def fetch run)
  moreover have "\<exists>app. map_of apps (DesiredAppState_StoreKey d) = Some app \<and> app_Desired app = d
      \<and> (\<forall>i. start_wanted app i \<longrightarrow> (\<exists>m\<in>set ss. PendingStartMessage_StoreKey m = instance_key app i))"
    if "d \<in> set (dss_Apps (sv w))" "is_relevant d" for d
    by (rule Analyze_wants [OF run])
      (use that assms(6) in \<open>auto simp: served(1) [OF fetch] fetch_setting_def distinct_map dest: inj_onD\<close>)
  ultimately show ?thesis
    using round_delivers [OF assms(1-4) typed assms(8-10) fetch run send] by blast
qed

subsection \<open>A round in a small world\<close>

type_synonym test_world = "memory \<times> DesiredStateServer \<times> StartStopListener"

fun in_memory :: "(memory \<Rightarrow> 'r \<times> memory) \<Rightarrow> test_world \<Rightarrow> 'r \<times> test_world" where
  "in_memory f (m, rest) = (let (r, m') = f m in (r, m', rest))"

fun test_post :: "string \<Rightarrow> string \<Rightarrow> bytes \<Rightarrow> test_world \<Rightarrow> (string + nat) \<times> test_world" where
  "test_post url auth body (m, server, listener) =
     (let (answer, listener') = listener_ServeHTTP (Inr body) listener
      in (case answer of None \<Rightarrow> Inl ''EOF'' | Some status \<Rightarrow> Inr status, m, server, listener'))"

fun test_get :: "string \<Rightarrow> string \<Rightarrow> test_world \<Rightarrow> (http_error + nat \<times> (string + bytes)) \<times> test_world" where
  "test_get url auth (m, server, listener) =
     (let (answer, server') = serve token_text 0 (drop 21 url) auth server
      in (answer_of answer, m, server', listener))"

definition test_externals :: "test_world externals" where
  "test_externals = \<lparr>
     ad_SetMulti = (\<lambda>nodes. in_memory (mem_set nodes)),
     ad_Get = (\<lambda>key. in_memory (mem_get key)),
     ad_ListRecursively = (\<lambda>key. in_memory (mem_list key)),
     ad_Delete = (\<lambda>keys. in_memory (mem_delete keys)),
     http_post = test_post,
     http_get = test_get,
     nats_Publish = (\<lambda>subject body w. (None, w)),
     metrics_AddToCounter = (\<lambda>name n. in_memory (mem_count name n)),
     metrics_SendValue = (\<lambda>name v w. (None, w))\<rparr>"

lemma test_http:
  "test_post url auth body w = (let (answer, listener') = listener_ServeHTTP (Inr body) (snd (snd w))
     in (case answer of None \<Rightarrow> Inl ''EOF'' | Some status \<Rightarrow> Inr status, fst w, fst (snd w), listener'))"
  "test_get url auth w = (let (answer, server') = serve token_text 0 (drop 21 url) auth (fst (snd w))
      in (answer_of answer, fst w, server', snd (snd w)))"
  "in_memory f w = (let (r, m') = f (fst w) in (r, m', snd w))"
  by (cases w; simp)+

lemma in_memory_eq: "in_memory f w = (r, w') \<longleftrightarrow> f (fst w) = (r, fst w') \<and> snd w' = snd w"
  by (cases w; cases w') (auto split: prod.splits)


lemma test_calls:
  "ad_SetMulti test_externals ns w = (e, w') \<longleftrightarrow> ad_SetMulti mem_externals ns (fst w) = (e, fst w') \<and> snd w' = snd w"
  "ad_Delete test_externals ks w = (e, w') \<longleftrightarrow> ad_Delete mem_externals ks (fst w) = (e, fst w') \<and> snd w' = snd w"
  "ad_Get test_externals k w = (r, w') \<longleftrightarrow> ad_Get mem_externals k (fst w) = (r, fst w') \<and> snd w' = snd w"
  "ad_ListRecursively test_externals d w = (r, w') \<longleftrightarrow> ad_ListRecursively mem_externals d (fst w) = (r, fst w') \<and> snd w' = snd w"
  "metrics_AddToCounter test_externals name n w = (c, w') \<longleftrightarrow>
     metrics_AddToCounter mem_externals name n (fst w) = (c, fst w') \<and> snd w' = snd w"
  by (simp_all add: test_externals_def mem_externals_def in_memory_eq)

lemma test_quiet: "quiet_externals test_externals (mem_view \<circ> fst)"
proof (intro quiet_externals.intro kv_adapter.intro quiet_externals_axioms.intro, unfold test_calls comp_def, goal_cases)
  case (1 ns w w') then show ?case using memory.set_multi_ok by blast
next
  case (2 ns w e w' k) then show ?case using memory.set_multi_error by blast
next
  case (3 ks w w' k) then show ?case using memory.delete_ok by blast
next
  case (4 ks w e w' k) then show ?case using memory.delete_error by blast
next
  case (5 w) then show ?case using memory.delete_nothing by simp
next
  case (6 k w n w') then show ?case by (auto intro: prod_eqI dest: memory.get_ok)
next
  case (7 k w e w') then show ?case by (auto intro: prod_eqI dest: memory.get_error)
next
  case (8 d w n w') then show ?case by (auto intro: prod_eqI dest: memory.list_ok)
next
  case (9 d w e w') then show ?case by (auto intro: prod_eqI dest: memory.list_error)
next
  case (11 name n w e w') then show ?case using quiet_memory.counter_quiet by blast
qed (auto simp: test_externals_def test_http case_prod_unfold Let_def)

lemma test_delivers: "delivers test_externals conf (snd \<circ> snd)"
  by (simp add: delivers_def post_message_def test_externals_def test_http case_prod_unfold Let_def split: option.split)

lemma test_apart: "apart test_externals (snd \<circ> snd)"
  by (simp add: apart_def test_externals_def test_http case_prod_unfold Let_def)

definition test_conf :: Config where
  "test_conf = defaults\<lparr>CCBaseURL := ''http://127.0.0.1:6001'', CCAuthUser := ''mcat'', CCAuthPassword := ''testing'',
     DesiredStateBatchSize := 2\<rparr>"

lemma test_url: "''http://127.0.0.1:6001'' = server_URL 6001"
  by (simp add: server_URL_def itoa_def digits_of.simps digit_char_def char_of_def bit_iff_odd)

lemma test_setting: "fetch_setting test_externals token_text 0 6001 (fst \<circ> snd) test_conf [sample_desired 2]"
proof -
  have "serves test_externals token_text 0 6001 (fst \<circ> snd)"
    by (simp add: serves_def test_url [symmetric] test_externals_def test_http case_prod_unfold Let_def)
  then show ?thesis
    using token_text_reads by (simp add: fetch_setting_def test_conf_def test_url defaults_def sample_desired_def in_int64_def)
qed

definition test_env :: round_env where
  "test_env = plain_round\<lparr>re_send_now := time_Unix 1100\<rparr>"

definition test_report :: Heartbeat where
  "test_report = \<lparr>DeaGuid = ''dea'', InstanceHeartbeats =
     [sample_heartbeat ''a'' 0 InstanceStateRunning, (sample_heartbeat ''z'' 0 InstanceStateRunning)\<lparr>hb_AppGuid := ''old''\<rparr>]\<rparr>"

definition test_store :: RealStore where "test_store = NewStore test_conf"

text \<open>An instance at index 0 of the app, and one of an app that nobody desires, both just reported.\<close>

definition test_start :: test_world where
  "test_start =
     (\<lparr>mem_entries =
         [([], Directory), (''/hm'', Directory), (''/hm/v0'', Directory),
          (''/hm/v0/actual-fresh'', File (FreshnessTimestamp_ToJSON \<lparr>Timestamp = 0\<rparr>)),
          (''/hm/v0/dea-presence'', Directory), (''/hm/v0/dea-presence/dea'', File (Raw ''dea'')),
          (''/hm/v0/apps'', Directory), (''/hm/v0/apps/actual'', Directory),
          (''/hm/v0/apps/actual/app,v1'', Directory),
          (''/hm/v0/apps/actual/app,v1/a'', File (Raw ''0,RUNNING,0.0,dea'')),
          (''/hm/v0/apps/actual/old,v1'', Directory),
          (''/hm/v0/apps/actual/old,v1/z'', File (Raw ''0,RUNNING,0.0,dea''))],
       mem_posts = [], mem_status = 200, mem_pages = [], mem_counters = [], mem_values = []\<rparr>,
      \<lparr>dss_Apps = [sample_desired 2], dss_NumberOfCompleteFetches = 0\<rparr>, NewStartStopListener)"

definition bumped_test :: test_world where
  "bumped_test = snd (BumpActualFreshness test_externals test_store 0
     (empty_memory, \<lparr>dss_Apps = [sample_desired 2], dss_NumberOfCompleteFetches = 0\<rparr>, NewStartStopListener))"

lemma test_start_reported:
  "snd (snd (SyncHeartbeats test_externals (time_Unix 990) (\<lambda>_. 0) [test_report] test_store bumped_test)) = test_start"
  by code_simp

lemma test_start_typed: "store_typed test_store ((mem_view \<circ> fst) test_start)"
proof -
  have conf: "fresh_key_ok test_conf" "st_config test_store = test_conf"
    by (simp_all add: fresh_key_ok_def test_conf_def defaults_def proper_key_def test_store_def NewStore_def)
  note shared = shared_services.axioms(1) [OF alone_shared [OF test_quiet conf(1)]]
  let ?w = "(empty_memory, \<lparr>dss_Apps = [sample_desired 2], dss_NumberOfCompleteFetches = 0\<rparr>, NewStartStopListener)"
  have "typed_world (mem_view \<circ> fst) test_conf ?w"
    by (simp add: typed_world_def comp_def mem_view_def empty_memory_def)
  then have fresh: "typed_world (mem_view \<circ> fst) test_conf bumped_test"
    unfolding bumped_test_def
    by (rule shared_store.BumpActualFreshness_typed [OF shared conf(2) _ _ surjective_pairing]) (simp add: Unix_def in_int64_def)
  have "heartbeat_typed test_report"
    by (simp add: heartbeat_typed_def test_report_def sample_heartbeat_def instance_typed_def proper_heartbeat_def
      proper_key_def csv_ok_def in_int64_def InstanceStateRunning_def round1_def round_half_even_def float_limit_def)
  then have "typed_world (mem_view \<circ> fst) test_conf test_start"
    unfolding test_start_reported [symmetric]
    by (intro shared_store.SyncHeartbeats_typed [OF shared conf(2) fresh, of "[test_report]" "time_Unix 990" "\<lambda>_. 0", THEN conjunct2, THEN conjunct1]) (auto intro!: prod_eqI)
  then show ?thesis unfolding client_world [OF conf(2)] .
qed


definition test_queue :: AppQueue where
  "test_queue = \<lparr>DesiredApps = [[(''app,v1'', sample_desired 2)]], fetchDesiredAppsSuccess = True\<rparr>"

definition test_fetched :: test_world where
  "test_fetched = (fst test_start, (fst (snd test_start))\<lparr>dss_NumberOfCompleteFetches := 1\<rparr>, snd (snd test_start))"


lemma test_fetch:
  "fetchDesiredState test_externals test_conf (\<lambda>_. False) (\<lambda>_ _. 0) NewAppQueue test_start =
     Some (None, test_queue, test_fetched)"
  unfolding fetchDesiredState_def Fetch_def
  by (subst fetchBatch.simps, subst fetchBatch.simps) code_simp

definition test_analyzed :: "(hm_error + analysis_result) \<times> RealStore \<times> test_world" where
  "test_analyzed = Analyze test_externals plain_env (time_Unix 1000) test_queue test_store test_fetched"

definition test_result :: analysis_result where
  "test_result = (case fst test_analyzed of Inr result \<Rightarrow> result | Inl e \<Rightarrow> ([], [], []))"

definition test_sent :: "hm_error option \<times> sender \<times> test_world" where
  "test_sent = (case test_analyzed of
     (Inr result, store', w) \<Rightarrow> send_output test_externals (\<lambda>_. 0) (\<lambda>_. 0) store' (time_Unix 1100) result
       (SendMetrics test_externals (\<lambda>_. 0) (\<lambda>_. 0) (fst result) None w)
   | (Inl e, store', w) \<Rightarrow> (Some e, new_sender test_conf, w))"

text \<open>The missing index 1 is started, the instance of the app that nobody desires is stopped.\<close>

definition test_starts :: "StartMessage list" where
  "test_starts = [\<lparr>sm_MessageId = ''id'', sm_AppGuid = ''app'', sm_AppVersion = ''v1'', sm_InstanceIndex = 1\<rparr>]"

definition test_stops :: "StopMessage list" where
  "test_stops = [\<lparr>xm_MessageId = ''id'', xm_AppGuid = ''old'', xm_AppVersion = ''v1'', xm_InstanceGuid = ''z'',
     xm_InstanceIndex = 0, xm_IsDuplicate = False\<rparr>]"

lemma test_steps_1: "fst test_analyzed = Inr test_result"
  by code_simp

lemma test_steps_2: "fst test_sent = None"
  by code_simp

lemmas test_steps = test_steps_1 test_steps_2

lemma test_messages:
  "(case test_result of (apps, ss, xs) \<Rightarrow> list_all plain_words ss
     \<and> map start_wire (take 60 (filter (start_due apps (time_Unix 1100)) (SortStartMessagesByPriority (\<lambda>_. 0) ss))) = test_starts
     \<and> map (stop_wire apps) (filter (stop_due apps (time_Unix 1100)) xs) = test_stops)"
  by code_simp

lemma test_facts:
  "re_stopped test_env = (\<lambda>_. False)" "re_pages test_env = (\<lambda>_ _. 0)" "re_analyze test_env = plain_env"
  "re_now test_env = time_Unix 1000" "re_metrics test_env = (\<lambda>_. 0)" "re_send_now test_env = time_Unix 1100"
  "re_sort test_env = (\<lambda>_. 0)" "st_config test_store = test_conf" "round_sane test_env" "fresh_key_ok test_conf"
  "SenderMessageLimit test_conf = 60"
  by (simp_all add: test_env_def plain_round_def plain_env_def round_sane_def env_sane_def now_ok_def test_store_def
      NewStore_def fresh_key_ok_def test_conf_def defaults_def proper_key_def)

lemma test_output: "round_output test_externals test_env test_store test_start = Some test_result"
  unfolding round_output_def test_facts test_fetch option.case prod.case test_analyzed_def [symmetric] test_steps sum.case by (rule refl)

lemma test_round: "analyze_round test_externals test_env test_store test_start None (snd (snd test_sent))"
proof -
  obtain store' w2 where a: "test_analyzed = (Inr test_result, store', w2)"
    using test_steps(1) by (metis prod.collapse)
  obtain s w' where sent: "test_sent = (None, s, w')" using test_steps(2) by (metis prod.collapse)
  have state: "analyzeState test_externals plain_env (\<lambda>_. 0) (\<lambda>_. 0) (time_Unix 1000) test_queue test_store test_fetched =
      (Inr test_result, store', SendMetrics test_externals (\<lambda>_. 0) (\<lambda>_. 0) (fst test_result) None w2)"
    unfolding analyzeState_def test_analyzed_def [symmetric] a by simp
  have "loop_step None (Inr test_result) (Waiting {} None) (Finished test_result)"
    by (rule output_apps) (simp add: received_def)
  then have loop: "loop_reaches None (Inr test_result) (Finished test_result)"
    unfolding loop_reaches_def by (rule r_into_rtranclp)
  have send: "send_output test_externals (\<lambda>_. 0) (\<lambda>_. 0) store' (time_Unix 1100) test_result
      (SendMetrics test_externals (\<lambda>_. 0) (\<lambda>_. 0) (fst test_result) None w2) = (None, s, w')"
    using sent unfolding test_sent_def a by simp
  have "analyze_round test_externals test_env test_store test_start (map_option Inr None) w'"
    by (rule round_sent [where env = test_env and store = test_store, unfolded test_facts, OF test_fetch state loop send])
  then show ?thesis by (simp add: sent)
qed

theorem round_reaches_the_listener_witness:
  "sl_starts (snd (snd (snd (snd test_sent)))) = test_starts \<and> sl_stops (snd (snd (snd (snd test_sent)))) = test_stops"
proof -
  obtain apps ss xs where r: "test_result = (apps, ss, xs)" by (cases test_result)
  have apps: "dss_Apps ((fst \<circ> snd) test_start) = [sample_desired 2]" by code_simp
  have empty: "snd (snd test_start) = NewStartStopListener" by code_simp
  have proper: "\<forall>d\<in>set [sample_desired 2]. is_relevant d \<longrightarrow> proper_key (ds_AppGuid d) \<and> proper_key (ds_AppVersion d)"
    by (simp add: sample_desired_def proper_key_def)
  show ?thesis
    using round_reaches_the_listener [where sv = "fst \<circ> snd" and w = test_start and store = test_store and env = test_env,
        unfolded apps test_facts, OF test_quiet test_facts(10) test_start_typed test_facts(9) _ test_setting proper
          test_delivers test_apart _ test_round]
      test_messages empty
    by (simp add: test_output r NewStartStopListener_def list_all_iff)
qed
end
