(* ===== verification/Api_Wiring.thy ===== *)
theory Api_Wiring imports App_State_Api Start_Up begin

text \<open>
  \<open>apiserver/routes.go\<close>, \<open>apiserver/handlers/handler.go\<close>, \<open>apiserver/handlers/basic_auth_handler.go\<close> and
  \<open>hm/serve_api.go\<close>: the bulk handler behind a router and a check of the password. The router and the
  check are libraries and arguments here: \<open>new_router\<close> takes the routes and the handlers by name and
  gives a handler or an error; \<open>basic_auth\<close> takes its options and wraps a handler.
\<close>

subsection \<open>Routes\<close>

record Route =
  route_Method :: string
  route_Name :: string
  route_Path :: string

definition Routes :: "Route list" where
  "Routes = [\<lparr>route_Method = ''POST'', route_Name = ''bulk_app_state'', route_Path = ''/bulk_app_state''\<rparr>]"

text \<open>
  A handler is given the request and answers with a status and the texts written. The body of a request
  comes with the error that ended its reading, if there was one.
\<close>

record api_request =
  ar_Method :: string
  ar_Path :: string
  ar_Authorization :: string
  ar_ReadError :: "string option"
  ar_Body :: bytes

type_synonym 'w api_handler = "api_request \<Rightarrow> RealStore \<Rightarrow> 'w \<Rightarrow> (nat \<times> bytes list) \<times> RealStore \<times> 'w"

text \<open>The bulk handler never sets a status, which makes it 200.\<close>

definition bulk_handler :: "'w externals \<Rightarrow> choice \<Rightarrow> time \<Rightarrow> (nat \<Rightarrow> time) \<Rightarrow> 'w api_handler" where
  "bulk_handler ex ch now clock r store w =
     (case bulk_ServeHTTP ex ch now clock (ar_ReadError r) (ar_Body r) store w of
        (written, store', w') \<Rightarrow> ((200, written), store', w'))"

definition New_handlers :: "(Route list \<Rightarrow> (string, 'w api_handler) gomap \<Rightarrow> string + 'w api_handler)
    \<Rightarrow> 'w externals \<Rightarrow> choice \<Rightarrow> time \<Rightarrow> (nat \<Rightarrow> time) \<Rightarrow> string + 'w api_handler" where
  "New_handlers new_router ex ch now clock =
     new_router Routes [(''bulk_app_state'', bulk_handler ex ch now clock)]"

subsection \<open>The password\<close>

record 'w AuthOptions =
  ao_Realm :: string
  ao_User :: string
  ao_Password :: string
  ao_UnauthorizedHandler :: "'w api_handler"

definition unauthorized :: "'w api_handler" where
  "unauthorized r store w = ((401, []), store, w)"

definition BasicAuthWrap :: "('w AuthOptions \<Rightarrow> 'w api_handler \<Rightarrow> 'w api_handler)
    \<Rightarrow> 'w api_handler \<Rightarrow> string \<Rightarrow> string \<Rightarrow> 'w api_handler" where
  "BasicAuthWrap basic_auth handler username password =
     basic_auth \<lparr>ao_Realm = ''API Authentication'', ao_User = username, ao_Password = password,
       ao_UnauthorizedHandler = unauthorized\<rparr> handler"

subsection \<open>The server\<close>

text \<open>The address and the handler of the server; a router that cannot be made is a panic.\<close>

definition ServeAPI_server :: "('w AuthOptions \<Rightarrow> 'w api_handler \<Rightarrow> 'w api_handler)
    \<Rightarrow> (Route list \<Rightarrow> (string, 'w api_handler) gomap \<Rightarrow> string + 'w api_handler)
    \<Rightarrow> 'w externals \<Rightarrow> choice \<Rightarrow> time \<Rightarrow> (nat \<Rightarrow> time) \<Rightarrow> Config \<Rightarrow> string + string \<times> 'w api_handler" where
  "ServeAPI_server basic_auth new_router ex ch now clock conf =
     (case New_handlers new_router ex ch now clock of
        Inl err \<Rightarrow> Inl err
      | Inr apiHandler \<Rightarrow>
          Inr (api_listenAddr conf,
               BasicAuthWrap basic_auth apiHandler (APIServerUsername conf) (APIServerPassword conf)))"

subsection \<open>What the libraries promise\<close>

text \<open>
  A wrapped handler is called for the headers that the check admits for the user and the password, the
  handler for everybody else in all other cases.
\<close>

definition checks_password :: "(string \<Rightarrow> string \<Rightarrow> string \<Rightarrow> bool)
    \<Rightarrow> ('w AuthOptions \<Rightarrow> 'w api_handler \<Rightarrow> 'w api_handler) \<Rightarrow> bool" where
  "checks_password admits basic_auth \<longleftrightarrow> (\<forall>opts handler r.
     basic_auth opts handler r =
       (if admits (ar_Authorization r) (ao_User opts) (ao_Password opts)
        then handler r else ao_UnauthorizedHandler opts r))"

text \<open>A router calls the handler of the route with the method and the path and answers 404 or 405 otherwise.\<close>

definition routes_requests :: "(Route list \<Rightarrow> (string, 'w api_handler) gomap \<Rightarrow> string + 'w api_handler) \<Rightarrow> bool" where
  "routes_requests new_router \<longleftrightarrow> (\<forall>routes handlers.
     (\<forall>route\<in>set routes. map_of handlers (route_Name route) \<noteq> None) \<longrightarrow>
     (\<exists>h. new_router routes handlers = Inr h \<and> (\<forall>r store w.
        h r store w =
          (case find (\<lambda>route. route_Path route = ar_Path r) routes of
             None \<Rightarrow> ((404, []), store, w)
           | Some route \<Rightarrow> if route_Method route = ar_Method r
                          then the (map_of handlers (route_Name route)) r store w
                          else ((405, []), store, w)))))"

text \<open>
  The server then always starts; it answers the one route for those it admits, and leaves store and
  world untouched for every other request.
\<close>

lemma served_requests:
  assumes "checks_password admits basic_auth" and "routes_requests new_router"
  obtains handler where
    "ServeAPI_server basic_auth new_router ex ch now clock conf = Inr (api_listenAddr conf, handler)"
    "\<And>r store w. handler r store w =
       (if \<not> admits (ar_Authorization r) (APIServerUsername conf) (APIServerPassword conf) then ((401, []), store, w)
        else if ar_Path r \<noteq> ''/bulk_app_state'' then ((404, []), store, w)
        else if ar_Method r \<noteq> ''POST'' then ((405, []), store, w)
        else bulk_handler ex ch now clock r store w)"
proof -
  let ?handlers = "[(''bulk_app_state'', bulk_handler ex ch now clock)]"
  have "\<forall>route\<in>set Routes. map_of ?handlers (route_Name route) \<noteq> None" by (simp add: Routes_def)
  then obtain h where h: "new_router Routes ?handlers = Inr h"
    "\<And>r store w. h r store w =
       (case find (\<lambda>route. route_Path route = ar_Path r) Routes of
          None \<Rightarrow> ((404, []), store, w)
        | Some route \<Rightarrow> if route_Method route = ar_Method r
                       then the (map_of ?handlers (route_Name route)) r store w else ((405, []), store, w))"
    using assms(2) unfolding routes_requests_def by blast
  have start: "ServeAPI_server basic_auth new_router ex ch now clock conf =
      Inr (api_listenAddr conf, BasicAuthWrap basic_auth h (APIServerUsername conf) (APIServerPassword conf))"
    by (simp add: ServeAPI_server_def New_handlers_def h(1))
  show thesis
    using assms(1) by (intro that [OF start]) (auto simp: BasicAuthWrap_def checks_password_def unauthorized_def h(2) Routes_def)
qed

end
