(* ===== verification/Message_Listeners.thy ===== *)
theory Message_Listeners imports Api_Wiring Evacuator begin

text \<open>
  The processes that listen to the outside: the evacuator (\<open>Run\<close> of \<open>evacuator/evacuator.go\<close>), the listener
  for heartbeats over the message bus (\<open>Run\<close> of \<open>actualstatelisteners/nats_listener.go\<close>) and the routes of the
  one over HTTP (\<open>actualstatelisteners/http_listener.go\<close>).

  The message bus is outside: it answers \<open>Subscribe\<close> with an error or none, and calls the callback for
  every message as long as the subscription lasts. A callback is a step; what it does to the world is the
  argument \<open>handle\<close>.
\<close>

subsection \<open>Subscribers\<close>

text \<open>
  \<open>sb_returned\<close> is what \<open>Run\<close> has returned, if it has: an error or none. \<open>sb_handled\<close> are the messages for which
  the callback was called, in order.
\<close>

record ('m, 'w) subscriber =
  sb_subscribed :: bool
  sb_ready :: bool
  sb_returned :: "string option option"
  sb_world :: 'w
  sb_handled :: "'m list"

text \<open>The evacuator returns the error of \<open>Subscribe\<close> and is not ready then.\<close>

definition Evacuator_Run :: "string option \<Rightarrow> 'w \<Rightarrow> ('m, 'w) subscriber" where
  "Evacuator_Run err w =
     (case err of
        Some e \<Rightarrow> \<lparr>sb_subscribed = False, sb_ready = False, sb_returned = Some (Some e), sb_world = w, sb_handled = []\<rparr>
      | None \<Rightarrow> \<lparr>sb_subscribed = True, sb_ready = True, sb_returned = None, sb_world = w, sb_handled = []\<rparr>)"

text \<open>The listener for heartbeats drops the error.\<close>

definition NatsListener_Run :: "string option \<Rightarrow> 'w \<Rightarrow> ('m, 'w) subscriber" where
  "NatsListener_Run err w =
     \<lparr>sb_subscribed = (err = None), sb_ready = True, sb_returned = None, sb_world = w, sb_handled = []\<rparr>"

inductive subscriber_step :: "('m \<Rightarrow> 'w \<Rightarrow> 'w) \<Rightarrow> ('m, 'w) subscriber \<Rightarrow> ('m, 'w) subscriber \<Rightarrow> bool"
  for handle :: "'m \<Rightarrow> 'w \<Rightarrow> 'w" where
  message_handled: "sb_subscribed b \<Longrightarrow>
     subscriber_step handle b (b\<lparr>sb_world := handle m (sb_world b), sb_handled := sb_handled b @ [m]\<rparr>)"
| subscriber_signalled: "sb_ready b \<Longrightarrow> sb_returned b = None \<Longrightarrow>
     subscriber_step handle b (b\<lparr>sb_subscribed := False, sb_returned := Some None\<rparr>)"

inductive_cases subscriber_stepE: "subscriber_step handle b b'"

definition subscriber_reaches :: "('m \<Rightarrow> 'w \<Rightarrow> 'w) \<Rightarrow> ('m, 'w) subscriber \<Rightarrow> ('m, 'w) subscriber \<Rightarrow> bool" where
  "subscriber_reaches handle = (subscriber_step handle)\<^sup>*\<^sup>*"

subsection \<open>What a subscriber has done\<close>

definition subscriber_inv :: "('m \<Rightarrow> 'w \<Rightarrow> 'w) \<Rightarrow> 'w \<Rightarrow> ('m, 'w) subscriber \<Rightarrow> bool" where
  "subscriber_inv handle w b \<longleftrightarrow> sb_world b = fold handle (sb_handled b) w
     \<and> (sb_subscribed b \<longrightarrow> sb_ready b \<and> sb_returned b = None)"

lemma subscriber_inv_reaches:
  assumes "subscriber_reaches handle b0 b" and "subscriber_inv handle w b0"
  shows "subscriber_inv handle w b \<and> sb_ready b = sb_ready b0"
  using assms(1) [unfolded subscriber_reaches_def]
proof (induction rule: rtranclp_induct)
  case (step b b')
  then show ?case by (auto simp: subscriber_inv_def elim: subscriber_stepE)
qed (simp add: assms(2))

lemma unsubscribed_is_deaf:
  assumes "subscriber_reaches handle b0 b" and "\<not> sb_subscribed b0"
  shows "\<not> sb_subscribed b \<and> sb_world b = sb_world b0 \<and> sb_handled b = sb_handled b0"
  using assms(1) [unfolded subscriber_reaches_def]
proof (induction rule: rtranclp_induct)
  case (step b b')
  then show ?case by (auto elim: subscriber_stepE)
qed (simp add: assms(2))

text \<open>
  An evacuator is ready exactly if it has subscribed, and its world is that of the reactions to the messages so
  far, each in the surroundings \<open>fst p\<close> of its call.
\<close>

lemma Evacuator_reacts:
  assumes "subscriber_reaches (\<lambda>p. handle_message ex (fst p) conf store (snd p)) (Evacuator_Run err w) b"
  shows "(sb_ready b \<longleftrightarrow> err = None)
     \<and> sb_world b = fold (\<lambda>p. handle_message ex (fst p) conf store (snd p)) (sb_handled b) w
     \<and> (err \<noteq> None \<longrightarrow> sb_world b = w)"
  using subscriber_inv_reaches [OF assms, of w] unsubscribed_is_deaf [OF assms]
  by (cases err) (auto simp: Evacuator_Run_def subscriber_inv_def)

text \<open>
  The listener for heartbeats becomes ready even when the message bus has refused its subscription, and then
  no heartbeat over the bus ever reaches the syncer.
\<close>

theorem NatsListener_ready_but_deaf:
  assumes "subscriber_reaches handle_nats_heartbeat (NatsListener_Run (Some err) y) b"
  shows "sb_ready b \<and> sb_world b = y \<and> sb_handled b = []"
  using subscriber_inv_reaches [OF assms, of y] unsubscribed_is_deaf [OF assms]
  by (simp add: NatsListener_Run_def subscriber_inv_def)

theorem NatsListener_ready_but_deaf_witness:
  "sb_ready ((NatsListener_Run (Some ''timeout'') y :: (bytes, syncer) subscriber)\<lparr>sb_returned := Some None\<rparr>)"
proof -
  let ?b = "NatsListener_Run (Some ''timeout'') y :: (bytes, syncer) subscriber"
  have "subscriber_step handle_nats_heartbeat ?b (?b\<lparr>sb_subscribed := False, sb_returned := Some None\<rparr>)"
    by (rule subscriber_signalled) (simp_all add: NatsListener_Run_def)
  then have "subscriber_reaches handle_nats_heartbeat ?b (?b\<lparr>sb_subscribed := False, sb_returned := Some None\<rparr>)"
    unfolding subscriber_reaches_def by (rule r_into_rtranclp)
  from NatsListener_ready_but_deaf [OF this] show ?thesis by simp
qed

subsection \<open>Heartbeats over HTTP\<close>

definition listener_routes :: "Route list" where
  "listener_routes = [\<lparr>route_Method = ''POST'', route_Name = ''dea_heartbeat_listener'', route_Path = ''/dea/heartbeat''\<rparr>]"

type_synonym listener_handler = "api_request \<Rightarrow> syncer \<Rightarrow> nat \<times> syncer"

definition heartbeat_handler :: listener_handler where
  "heartbeat_handler r = heartbeat_ServeHTTP (case ar_ReadError r of Some err \<Rightarrow> Inl err | None \<Rightarrow> Inr (ar_Body r))"

definition NewHttpListener :: "(Route list \<Rightarrow> (string, listener_handler) gomap \<Rightarrow> string + listener_handler)
    \<Rightarrow> string + listener_handler" where
  "NewHttpListener new_router = new_router listener_routes [(''dea_heartbeat_listener'', heartbeat_handler)]"

end
