(* ===== verification/App_Fixture.thy ===== *)
theory App_Fixture imports Analyzer_Properties Analysis_Sound Messages begin

text \<open>
  \<open>testhelpers/appfixture/\<close>: the apps and DEAs with which the repository tests itself, and that the analysis
  leaves alone an app which runs as the fixture says.

  The maps of a fixture are shared by all its copies, so that the operations give back the fixture as it is
  afterwards. A random guid is an argument.
\<close>

record fixture_instance =
  fi_InstanceGuid :: string
  fi_InstanceIndex :: int
  fi_AppGuid :: string
  fi_AppVersion :: string
  fi_DeaGuid :: string

record AppFixture =
  fx_AppGuid :: string
  fx_AppVersion :: string
  fx_instances :: "(int, fixture_instance) gomap"
  fx_DeaGuid :: string

definition newAppForDeaGuid :: "string \<Rightarrow> string \<Rightarrow> string \<Rightarrow> AppFixture" where
  "newAppForDeaGuid guid version deaGuid =
     \<lparr>fx_AppGuid = guid, fx_AppVersion = version, fx_instances = [], fx_DeaGuid = deaGuid\<rparr>"

definition NewAppFixture :: "string \<Rightarrow> string \<Rightarrow> string \<Rightarrow> AppFixture" where
  "NewAppFixture deaGuid guid version = newAppForDeaGuid guid version deaGuid"

definition CrashedInstanceHeartbeatAtIndex :: "string \<Rightarrow> AppFixture \<Rightarrow> int \<Rightarrow> InstanceHeartbeat" where
  "CrashedInstanceHeartbeatAtIndex guid app index =
     \<lparr>hb_AppGuid = fx_AppGuid app, hb_AppVersion = fx_AppVersion app, hb_InstanceGuid = guid,
      hb_InstanceIndex = index, hb_State = InstanceStateCrashed, hb_StateTimestamp = Num 0,
      hb_DeaGuid = fx_DeaGuid app\<rparr>"

text \<open>The guid is drawn only for an instance that is not there yet.\<close>

definition InstanceAtIndex :: "string \<Rightarrow> AppFixture \<Rightarrow> int \<Rightarrow> fixture_instance \<times> AppFixture" where
  "InstanceAtIndex guid app index =
     (case map_of (fx_instances app) index of
        Some i \<Rightarrow> (i, app)
      | None \<Rightarrow>
          (let i = \<lparr>fi_InstanceGuid = guid, fi_InstanceIndex = index, fi_AppGuid = fx_AppGuid app,
                    fi_AppVersion = fx_AppVersion app, fi_DeaGuid = fx_DeaGuid app\<rparr>
           in (i, app\<lparr>fx_instances := mput index i (fx_instances app)\<rparr>)))"

definition fixture_DesiredState :: "AppFixture \<Rightarrow> int \<Rightarrow> DesiredAppState" where
  "fixture_DesiredState app numberOfInstances =
     \<lparr>ds_AppGuid = fx_AppGuid app, ds_AppVersion = fx_AppVersion app, ds_NumberOfInstances = numberOfInstances,
      ds_State = AppStateStarted, ds_PackageState = AppPackageStateStaged\<rparr>"

definition instance_Heartbeat :: "fixture_instance \<Rightarrow> InstanceHeartbeat" where
  "instance_Heartbeat i =
     \<lparr>hb_AppGuid = fi_AppGuid i, hb_AppVersion = fi_AppVersion i, hb_InstanceGuid = fi_InstanceGuid i,
      hb_InstanceIndex = fi_InstanceIndex i, hb_State = InstanceStateRunning, hb_StateTimestamp = Num 0,
      hb_DeaGuid = fi_DeaGuid i\<rparr>"

definition instance_DropletExited :: "fixture_instance \<Rightarrow> DropletExitedReason \<Rightarrow> DropletExited" where
  "instance_DropletExited i reason =
     \<lparr>de_CCPartition = ''default'', de_AppGuid = fi_AppGuid i, de_AppVersion = fi_AppVersion i,
      de_InstanceGuid = fi_InstanceGuid i, de_InstanceIndex = fi_InstanceIndex i, de_Reason = reason,
      de_ExitStatusCode = 0, de_ExitDescription = ''exited'', de_CrashTimestamp = 0\<rparr>"

text \<open>The loop over the first instances; a negative number panics, as no slice has that length.\<close>

fun fixture_heartbeats :: "(int \<Rightarrow> string) \<Rightarrow> AppFixture \<Rightarrow> int list \<Rightarrow> InstanceHeartbeat list \<times> AppFixture" where
  "fixture_heartbeats guids app [] = ([], app)"
| "fixture_heartbeats guids app (i # is) =
     (let (instance, app1) = InstanceAtIndex (guids i) app i;
          (hs, app2) = fixture_heartbeats guids app1 is
      in (instance_Heartbeat instance # hs, app2))"

definition fixture_Heartbeat :: "(int \<Rightarrow> string) \<Rightarrow> AppFixture \<Rightarrow> int \<Rightarrow> (Heartbeat \<times> AppFixture) option" where
  "fixture_Heartbeat guids app instances =
     (if instances < 0 then None
      else let (hs, app') = fixture_heartbeats guids app (upto_index instances)
           in Some (\<lparr>DeaGuid = fx_DeaGuid app, InstanceHeartbeats = hs\<rparr>, app'))"

subsection \<open>DEAs\<close>

record DeaFixture =
  dx_DeaGuid :: string
  dx_apps :: "(int, AppFixture) gomap"

definition NewDeaFixture :: "string \<Rightarrow> DeaFixture" where
  "NewDeaFixture guid = \<lparr>dx_DeaGuid = guid, dx_apps = []\<rparr>"

definition dea_GetApp :: "string \<times> string \<Rightarrow> DeaFixture \<Rightarrow> int \<Rightarrow> AppFixture \<times> DeaFixture" where
  "dea_GetApp guids dea index =
     (case map_of (dx_apps dea) index of
        Some app \<Rightarrow> (app, dea)
      | None \<Rightarrow> (let app = newAppForDeaGuid (fst guids) (snd guids) (dx_DeaGuid dea)
                 in (app, dea\<lparr>dx_apps := mput index app (dx_apps dea)\<rparr>)))"

text \<open>The instance is put into the map of the app, which the copy in the DEA shares.\<close>

fun dea_heartbeats :: "(int \<Rightarrow> string \<times> string) \<Rightarrow> (int \<Rightarrow> string) \<Rightarrow> DeaFixture \<Rightarrow> int list
    \<Rightarrow> InstanceHeartbeat list \<times> DeaFixture" where
  "dea_heartbeats apps guids dea [] = ([], dea)"
| "dea_heartbeats apps guids dea (i # is) =
     (let (app, dea1) = dea_GetApp (apps i) dea i;
          (instance, app') = InstanceAtIndex (guids i) app 0;
          (hs, dea2) = dea_heartbeats apps guids (dea1\<lparr>dx_apps := mput i app' (dx_apps dea1)\<rparr>) is
      in (instance_Heartbeat instance # hs, dea2))"

definition dea_Heartbeat :: "(int \<Rightarrow> string \<times> string) \<Rightarrow> (int \<Rightarrow> string) \<Rightarrow> DeaFixture \<Rightarrow> int \<Rightarrow> Heartbeat \<times> DeaFixture" where
  "dea_Heartbeat apps guids dea numApps =
     (let (hs, dea') = dea_heartbeats apps guids dea (upto_index numApps)
      in (\<lparr>DeaGuid = dx_DeaGuid dea, InstanceHeartbeats = hs\<rparr>, dea'))"

definition dea_HeartbeatWith :: "DeaFixture \<Rightarrow> InstanceHeartbeat list \<Rightarrow> Heartbeat" where
  "dea_HeartbeatWith dea hs = \<lparr>DeaGuid = dx_DeaGuid dea, InstanceHeartbeats = hs\<rparr>"

subsection \<open>The first instances of a fixture\<close>

text \<open>Every instance is filed under its index, as an instance of the app of the fixture.\<close>

definition fixture_ok :: "AppFixture \<Rightarrow> bool" where
  "fixture_ok app \<longleftrightarrow> (\<forall>k i. map_of (fx_instances app) k = Some i \<longrightarrow>
     fi_InstanceIndex i = k \<and> fi_AppGuid i = fx_AppGuid app \<and> fi_AppVersion i = fx_AppVersion app)"

lemma NewAppFixture_ok: "fixture_ok (NewAppFixture dea guid version)"
  by (simp add: fixture_ok_def NewAppFixture_def newAppForDeaGuid_def)

lemma InstanceAtIndex_ok:
  assumes "fixture_ok app" and "InstanceAtIndex guid app k = (i, app')"
  shows "fixture_ok app'" and "fi_InstanceIndex i = k" and "fx_AppGuid app' = fx_AppGuid app"
    and "fi_AppGuid i = fx_AppGuid app" and "InstanceAtIndex guid' app' k = (i, app')"
  using assms by (auto simp: InstanceAtIndex_def fixture_ok_def Let_def split: option.splits if_splits)

lemma fixture_heartbeats_ok:
  "fixture_ok app \<Longrightarrow> fixture_heartbeats guids app is = (hs, app') \<Longrightarrow>
     map hb_InstanceIndex hs = is \<and> (\<forall>h\<in>set hs. hb_State h = InstanceStateRunning \<and> hb_AppGuid h = fx_AppGuid app)"
proof (induction "is" arbitrary: app hs app')
  case (Cons i "is")
  obtain x app1 where x: "InstanceAtIndex (guids i) app i = (x, app1)" by fastforce
  obtain hs' app2 where rest: "fixture_heartbeats guids app1 is = (hs', app2)" by fastforce
  note ok = InstanceAtIndex_ok [OF Cons.prems(1) x]
  have "hs = instance_Heartbeat x # hs'" using Cons.prems(2) x rest by simp
  then show ?case using Cons.IH [OF ok(1) rest] ok by (simp add: instance_Heartbeat_def)
qed simp

subsection \<open>An app that runs as desired\<close>

text \<open>One running instance at each desired index and nothing else.\<close>

definition runs_as_desired :: "App \<Rightarrow> bool" where
  "runs_as_desired app \<longleftrightarrow>
     map hb_InstanceIndex (app_InstanceHeartbeats app) = desired_indices app
   \<and> (\<forall>h\<in>set (app_InstanceHeartbeats app). hb_State h = InstanceStateRunning)"

lemma running_state: "hb_State h = InstanceStateRunning \<Longrightarrow> IsStartingOrRunning h \<and> \<not> IsEvacuating h"
  by (simp add: IsStartingOrRunning_def IsRunning_def IsEvacuating_def InstanceStateRunning_def InstanceStateEvacuating_def)

lemma settled_no_start:
  assumes "app_ok app" and "runs_as_desired app"
  shows "\<not> start_wanted app i"
proof
  assume w: "start_wanted app i"
  note r = assms(2) [unfolded runs_as_desired_def]
  have "\<not> HasEvacuatingInstanceAtIndex app i"
    using r running_state by (auto simp: HasEvacuatingInstanceAtIndex_iff)
  then have "i \<in> set (desired_indices app)" using w by (simp add: start_wanted_def)
  then obtain h where "h \<in> set (app_InstanceHeartbeats app)" "hb_InstanceIndex h = i"
    using r by (metis imageE set_map)
  then have "HasStartingOrRunningInstanceAtIndex app i"
    using r running_state by (auto simp: HasStartingOrRunningInstanceAtIndex_iff [OF assms(1)])
  then show False using w by (simp add: start_wanted_def)
qed

lemma distinct_filter_one: "distinct (map f xs) \<Longrightarrow> length (filter (\<lambda>x. f x = i) xs) \<le> 1"
  by (induction xs) (auto simp: filter_empty_conv image_iff)

lemma settled_no_stop:
  assumes "app_ok app" and "runs_as_desired app" and "h \<in> set (app_InstanceHeartbeats app)"
  shows "\<not> stop_grounds pending app h"
proof -
  note r = assms(2) [unfolded runs_as_desired_def]
  have h: "IsStartingOrRunning h" "\<not> IsEvacuating h" using r assms(3) running_state by auto
  have "hb_InstanceIndex h \<in> set (desired_indices app)" using r assms(3) by (metis image_eqI set_map)
  then have desired: "IsIndexDesired app (hb_InstanceIndex h)" by simp
  have "distinct (map hb_InstanceIndex (app_InstanceHeartbeats app))" by (simp add: r desired_indices_def upto_index_def)
  then have "length (filter (\<lambda>k. hb_InstanceIndex k = i) (app_InstanceHeartbeats app)) \<le> 1" for i
    by (rule distinct_filter_one)
  then have "\<not> 1 < length (StartingOrRunningInstancesAtIndex app (hb_InstanceIndex h))"
    unfolding StartingOrRunningInstancesAtIndex_def InstanceHeartbeatsAtIndex_eq [OF assms(1)]
    by (meson length_filter_le not_le order_trans)
  then show ?thesis using h desired by (simp add: stop_grounds_def Let_def)
qed

text \<open>The analysis queues nothing for such an app.\<close>

lemma settled_app_is_left_alone:
  assumes "app_ok app" and "runs_as_desired app"
  shows "an_startMessages (run_analysis env conf starts stops app n) = []
     \<and> an_stopMessages (run_analysis env conf starts stops app n) = []"
proof -
  let ?a = "newAppAnalyzer app (ev_clock env n) starts stops conf"
  have "an_startMessages (run_analysis env conf starts stops app n) = []"
    unfolding run_analysis_def analyzeApp_starts no_starts_iff
    using expected_start_wanted settled_no_start [OF assms] by metis
  moreover have "p \<notin> set (an_stopMessages (run_analysis env conf starts stops app n))" for p
    using run_analysis_stops [of p env conf starts stops app n] settled_no_stop [OF assms] assms(1)
    by (auto simp: sound_stop_def)
  then have "an_stopMessages (run_analysis env conf starts stops app n) = []" by (metis list.set_intros(1) neq_Nil_conv)
  ultimately show ?thesis by blast
qed

text \<open>In particular none for an app of which the fixture reports as many instances as it desires.\<close>

lemma fixture_is_left_alone:
  assumes "fixture_ok f" and "fixture_Heartbeat guids f k = Some (hb, f')" and "gomap_ok cs"
  shows "runs_as_desired (NewApp (fx_AppGuid f) (fx_AppVersion f) (fixture_DesiredState f k) (InstanceHeartbeats hb) cs)"
    and "app_ok (NewApp (fx_AppGuid f) (fx_AppVersion f) (fixture_DesiredState f k) (InstanceHeartbeats hb) cs)"
proof -
  obtain hs app' where run: "fixture_heartbeats guids f (upto_index k) = (hs, app')" by fastforce
  then have hs: "InstanceHeartbeats hb = hs" using assms(2) by (auto simp: fixture_Heartbeat_def split: if_splits)
  show "runs_as_desired (NewApp (fx_AppGuid f) (fx_AppVersion f) (fixture_DesiredState f k) (InstanceHeartbeats hb) cs)"
    using fixture_heartbeats_ok [OF assms(1) run]
    by (simp add: runs_as_desired_def hs NewApp_def desired_indices_def NumberOfDesiredInstances_def fixture_DesiredState_def
        AppStateStarted_def)
  show "app_ok (NewApp (fx_AppGuid f) (fx_AppVersion f) (fixture_DesiredState f k) (InstanceHeartbeats hb) cs)"
    by (rule app_ok_NewApp [OF assms(3)])
qed

end
