(* ===== verification/Log_Descriptions.thy ===== *)
theory Log_Descriptions imports Go_Format App_Model Pending_Messages begin

text \<open>
  The \<open>LogDescription\<close> of every model: the entries that go into the log for an app, an instance, a
  desired state, a \<open>droplet.exited\<close> and the pending messages. \<open>time.Time.String\<close> depends on the time
  zone of the process and is the argument \<open>time_String\<close>; \<open>unrep\<close> is what the conversion to \<open>int\<close> makes of a
  number without an \<open>int\<close>.
\<close>

type_synonym lager_Data = "(string, string) gomap"

subsection \<open>Instances and apps\<close>

definition InstanceHeartbeat_LogDescription :: "int \<Rightarrow> InstanceHeartbeat \<Rightarrow> lager_Data" where
  "InstanceHeartbeat_LogDescription unrep h =
     [(''AppGuid'', hb_AppGuid h), (''AppVersion'', hb_AppVersion h), (''InstanceGuid'', hb_InstanceGuid h),
      (''InstanceIndex'', itoa (hb_InstanceIndex h)), (''State'', hb_State h),
      (''StateTimestamp'', itoa (int_of_float unrep (hb_StateTimestamp h))), (''DeaGuid'', hb_DeaGuid h)]"

definition DesiredAppState_LogDescription :: "DesiredAppState \<Rightarrow> lager_Data" where
  "DesiredAppState_LogDescription d =
     [(''AppGuid'', ds_AppGuid d), (''AppVersion'', ds_AppVersion d),
      (''NumberOfInstances'', itoa (ds_NumberOfInstances d)), (''State'', ds_State d),
      (''PackageState'', ds_PackageState d)]"

text \<open>A text between quotation marks; nothing in it is escaped.\<close>

definition quoted :: "string \<Rightarrow> string" where
  "quoted s = [CHR 0x22] @ s @ [CHR 0x22]"

definition desired_text :: "App \<Rightarrow> string" where
  "desired_text a =
     (if IsDesired a
      then ''{'' @ quoted ''NumberOfInstances'' @ '':'' @ itoa (ds_NumberOfInstances (app_Desired a)) @ '',''
        @ quoted ''State'' @ '':'' @ quoted (ds_State (app_Desired a)) @ '',''
        @ quoted ''PackageState'' @ '':'' @ quoted (ds_PackageState (app_Desired a)) @ ''}''
      else ''None'')"

definition instance_text :: "InstanceHeartbeat \<Rightarrow> string" where
  "instance_text h = ''{'' @ quoted ''InstanceGuid'' @ '':'' @ quoted (hb_InstanceGuid h) @ '',''
     @ quoted ''InstanceIndex'' @ '':'' @ itoa (hb_InstanceIndex h) @ '',''
     @ quoted ''State'' @ '':'' @ quoted (hb_State h) @ ''}''"

definition crash_text :: "CrashCountRec \<Rightarrow> string" where
  "crash_text c = ''{'' @ quoted ''InstanceIndex'' @ '':'' @ itoa (cc_InstanceIndex c) @ '', ''
     @ quoted ''CrashCount'' @ '':'' @ itoa (cc_CrashCount c) @ ''}''"

definition App_LogDescription :: "choice \<Rightarrow> App \<Rightarrow> lager_Data" where
  "App_LogDescription ch a =
     (let instanceHeartbeats = fold (\<lambda>heartbeat texts. texts @ [instance_text heartbeat]) (app_InstanceHeartbeats a) [];
          crashCounts = fold (\<lambda>(i, crashCount) texts. texts @ [crash_text crashCount]) (go_range ch (app_CrashCounts a)) []
      in [(''AppGuid'', app_AppGuid a), (''AppVersion'', app_AppVersion a), (''Desired'', desired_text a),
          (''InstanceHeartbeats'', ''['' @ join_with '','' instanceHeartbeats @ '']''),
          (''CrashCounts'', ''['' @ join_with '','' crashCounts @ '']'')])"

subsection \<open>Messages\<close>

definition DropletExited_LogDescription :: "DropletExited \<Rightarrow> lager_Data" where
  "DropletExited_LogDescription e =
     [(''AppGuid'', de_AppGuid e), (''AppVersion'', de_AppVersion e), (''InstanceGuid'', de_InstanceGuid e),
      (''InstanceIndex'', itoa (de_InstanceIndex e)), (''Reason'', de_Reason e),
      (''ExitStatusCode'', itoa (de_ExitStatusCode e)), (''ExitDescription'', de_ExitDescription e)]"

definition pendingLogDescription :: "(time \<Rightarrow> string) \<Rightarrow> 'm PendingMessage_scheme \<Rightarrow> lager_Data" where
  "pendingLogDescription time_String m =
     [(''SendOn'', time_String (time_Unix (SendOn m))), (''SentOn'', time_String (time_Unix (SentOn m))),
      (''KeepAlive'', itoa (KeepAlive m)), (''MessageId'', MessageId m), (''AppGuid'', AppGuid m),
      (''AppVersion'', AppVersion m)]"

definition PendingStartMessage_LogDescription :: "(time \<Rightarrow> string) \<Rightarrow> PendingStartMessage \<Rightarrow> lager_Data" where
  "PendingStartMessage_LogDescription time_String m =
     mput ''StartReason'' (StartReason m)
       (mput ''SkipVerification'' (if SkipVerification m then ''true'' else ''false'')
         (mput ''IndexToStart'' (itoa (IndexToStart m)) (pendingLogDescription time_String m)))"

definition PendingStopMessage_LogDescription :: "(time \<Rightarrow> string) \<Rightarrow> PendingStopMessage \<Rightarrow> lager_Data" where
  "PendingStopMessage_LogDescription time_String m =
     mput ''StopReason'' (StopReason m)
       (mput ''InstanceGuid'' (InstanceGuid m) (pendingLogDescription time_String m))"

subsection \<open>What a log entry tells\<close>

text \<open>Entries under every key differ, so that none hides another.\<close>

lemma log_keys_distinct:
  "gomap_ok (InstanceHeartbeat_LogDescription unrep h)" "gomap_ok (DesiredAppState_LogDescription d)"
  "gomap_ok (App_LogDescription ch a)" "gomap_ok (DropletExited_LogDescription e)"
  "gomap_ok (PendingStartMessage_LogDescription time_String m)" "gomap_ok (PendingStopMessage_LogDescription time_String s)"
  by (simp_all add: gomap_ok_def InstanceHeartbeat_LogDescription_def DesiredAppState_LogDescription_def
      App_LogDescription_def DropletExited_LogDescription_def PendingStartMessage_LogDescription_def
      PendingStopMessage_LogDescription_def pendingLogDescription_def mput_def Let_def)

text \<open>The entry of a desired state names it completely.\<close>

lemma desired_log_complete:
  "DesiredAppState_LogDescription d = DesiredAppState_LogDescription e \<longleftrightarrow> d = e"
  by (auto simp: DesiredAppState_LogDescription_def intro: DesiredAppState.equality)

text \<open>The entry of a start message says where it is going to start.\<close>

lemma start_log_index:
  "PendingStartMessage_LogDescription time_String m = PendingStartMessage_LogDescription time_String n \<Longrightarrow>
     AppGuid m = AppGuid n \<and> AppVersion m = AppVersion n \<and> IndexToStart m = IndexToStart n
     \<and> MessageId m = MessageId n \<and> StartReason m = StartReason n"
  by (simp add: PendingStartMessage_LogDescription_def pendingLogDescription_def mput_def)

end
