(* ===== verification/Spec2Isabelle.thy ===== *)
theory Spec2Isabelle
  imports Analyzer_Properties Analysis_Properties Store_Properties Sender_Properties
    Listener_Properties Service_Properties System_Properties Tool_Properties Round_Delivery Message_Listeners App_Fixture Log_Descriptions Api_Wiring
begin

text \<open>
  HM9000, the health manager of Cloud Foundry: it compares the instances that should run (the desired
  state, fetched from the cloud controller) with those that do (the actual state, reported by the
  DEAs in heartbeats and kept in etcd), and asks for instances to be started and stopped.

  \<^bold>\<open>How the program works\<close>

  The DEAs send heartbeats over NATS and HTTP to the listeners (\<open>actualstatelisteners/\<close>); the syncer
  collects them and once per tick writes them to the store (\<open>store/actual_state.go\<close>), bumps or revokes
  the freshness of the actual state (\<open>store/freshness.go\<close>) and starts the instances of evacuating DEAs
  elsewhere. The analyzer process (\<open>hm/manage_desired_state.go\<close>) runs in rounds: it fetches the desired
  apps page by page (\<open>desiredstatefetcher/\<close>), puts the apps of the store together
  (\<open>store/apps.go\<close>), analyses every app (\<open>analyzer/\<close>), which yields pending start and stop messages,
  stores these and hands them to the sender (\<open>sender/\<close>), which checks once more what is due and posts
  it to the cloud controller. The evacuator (\<open>evacuator/\<close>) reacts to droplets that exit with their
  DEA, the API server (\<open>apiserver/\<close>) answers with the apps of the store, the shredder (\<open>shredder/\<close>)
  removes old schema versions from it. Each of them is a command of one binary (\<open>hm9000.go\<close>, \<open>hm/\<close>), run
  as a process of its own behind a lock; they share nothing but the store.

  \<^bold>\<open>Conventions\<close>

  A Go map is an association list with distinct keys (\<open>gomap\<close>, \<open>mput\<close>, \<open>mdel\<close>), and a range over a
  map a permutation of it chosen by an argument of type \<open>choice\<close>, so that a theorem holds for every
  order. Machine integers are \<open>int\<close> with \<open>wrap64\<close> written out, or \<open>64 word\<close> where the code has
  \<open>uint64\<close>; times are nanoseconds since the epoch; \<open>float64\<close> is a rational or one of the special values.
  A JSON text is the document it parses to (\<open>Doc\<close>), any other text is \<open>Raw\<close>. Errors are values of
  \<open>hm_error\<close> or of a type of the component, in a sum or an option. A function that reaches outside takes the
  record \<open>externals\<close> and the world \<open>'w\<close> and returns the new world; readings of the clock, random ids
  and verdicts of a \<open>select\<close> are arguments. What is relied on outside is stated by two locales:
  \<open>kv_adapter\<close>, the documented behaviour of the four calls of the store adapter, and
  \<open>quiet_externals\<close>, that HTTP and the metrics client do not touch the store. A write that fails may
  have written any part of its nodes, a deletion any part of its keys. Both are interpreted on an
  adapter in memory, on which the witnesses run the model.

  \<^bold>\<open>Theories\<close>

  \<^item> \<open>Go_Runtime\<close>, \<open>Go_Strings\<close>, \<open>Go_Json\<close>, \<open>Go_Format\<close>: the part of the language and its library that the
    program uses, with its lemmas and hints.
  \<^item> \<open>Config\<close> (\<open>config/config.go\<close>), \<open>Heartbeats\<close>, \<open>Desired_State\<close>, \<open>Messages\<close>,
    \<open>Pending_Messages\<close>, \<open>App_Model\<close> (\<open>models/\<close>): the data with its codecs, and the queries of an app
    with its index, kept consistent by \<open>app_ok\<close>. \<open>Log_Descriptions\<close>: what they write into the log.
  \<^item> \<open>Crash_Delay\<close>, \<open>App_Analyzer\<close>, \<open>Analyzer\<close> (\<open>analyzer/\<close>): the backoff, the analysis of one app
    and the run over all apps; \<open>App_Analyzer_Facts\<close> characterises the messages of one app,
    \<open>Analyzer_Facts\<close> the frames of a run and \<open>Analysis_Sound\<close> where its messages come from.
  \<^item> \<open>Store_Adapter\<close>: the calls to the outside and their contract. \<open>Store_Core\<close>,
    \<open>Store_Freshness\<close>, \<open>Store_Actual\<close>, \<open>Store_Apps\<close>, \<open>Store_Compact\<close> (\<open>store/\<close>): the client; the
    locales \<open>storeable\<close> and \<open>message_store\<close> turn its files into an abstract map of messages.
    \<open>Store_Actual_Facts\<close> relates a sync of the caches to the specification \<open>report\<close> and the store to
    the cache (\<open>mirrors\<close>); \<open>Store_Evacuation\<close> says which instances a sync hands out.
    \<open>Store_Metrics\<close> (\<open>store/metrics.go\<close>) writes a number and reads it back.
  \<^item> \<open>Metrics\<close> (\<open>helpers/metricsaccountant/\<close>, \<open>analyzer/app_metrics.go\<close>), \<open>Sender\<close>
    (\<open>sender/sender.go\<close>); \<open>Sender_Facts\<close> compares each step with an ideal one that meets no error,
    \<open>Sender_Store\<close> gives the effect of a call on the abstract maps of pending messages.
  \<^item> \<open>Desired_State_Fetcher\<close> (\<open>desiredstatefetcher/\<close>) and \<open>Desired_State_Manager\<close>
    (\<open>hm/manage_desired_state.go\<close>): the fetch as a partial function against runs of the
    server, and a round with its loop over three channels as step relations.
  \<^item> \<open>Actual_State_Syncer\<close> (\<open>actualstatelisteners/\<close>) with \<open>Actual_State_Syncer_Facts\<close>, \<open>Evacuator\<close>,
    \<open>App_State_Api\<close>, \<open>Api_Wiring\<close> (\<open>apiserver/\<close>), \<open>Component_Runner\<close> (\<open>hm/ifrit.go\<close>, \<open>shredder/\<close>): the services around them; the syncer and the loop
    of a component are step relations with invariants over everything reachable. \<open>Message_Listeners\<close> adds the
    subscriptions of the evacuator and of the heartbeat listener, and the route of the one over HTTP.
  \<^item> \<open>Store_Typed\<close> says what the store may hold at each path, and when a single node may be written.
    \<open>Shared_Store\<close> states what a client may rely on when others write to the store between any two of its
    calls: the locale \<open>shared_store\<close>, with \<open>with_others\<close> as the adapter that lets them. \<open>Shared_Reads\<close>,
    \<open>Store_Typed_Ops\<close>, \<open>Analysis_Typed\<close> and \<open>Services_Typed\<close> show under this locale what each read answers and that
    each operation writes typed nodes only; \<open>Store_Typed_Reads\<close> has the exact answers when nobody
    interferes, \<open>Analysis_Complete\<close> what a run of the analyzer leaves pending. \<open>System\<close> interleaves all
    processes over one store.
  \<^item> \<open>Command_Line\<close> (\<open>hm9000.go\<close>) and \<open>Start_Up\<close> (\<open>hm/common.go\<close> and the files of the commands): flags, the
    steps before a component starts, addresses, groups and exit codes. \<open>Store_Dump\<close> (\<open>hm/store.go\<close>),
    \<open>Usage_Tracker\<close> (\<open>hm/usage_tracker.go\<close>): the tools. \<open>Desired_State_Server\<close>
    (\<open>testhelpers/desiredstateserver/\<close>) and \<open>Start_Stop_Listener\<close> (\<open>testhelpers/startstoplistener/\<close>): the two ends
    against which the repository runs the whole program, joined by a round in \<open>Round_Delivery\<close>.
    \<open>App_Fixture\<close> (\<open>testhelpers/appfixture/\<close>): its sample apps, which the analysis leaves alone.
  \<^item> \<open>Samples\<close> and the theories ending in \<open>Properties\<close>: the claims C1 to C40 with their witnesses.

  \<^bold>\<open>What is shown\<close>

  For one app: exactly which starts and stops are queued, when they become due, and that starts come
  before stops (C1 to C7), with the backoff (C8). For the sender: what it selects, that it never stops
  the last instance, its effect on the store and its errors (C9 to C11, C24, C25, C27). For the
  store: cache and store after a sync (C12, C13), the apps read back and compaction (C22, C23), and two ways
  in which an error is lost (C26, C28). For the whole system: whatever the interleaving of its processes,
  with others at work between any two of their calls, writes that fail half way and entries that
  expire, the store decodes at the type of every path (C14), so that no entry hides another from a reader
  (C15) and an analysis never fails with a decoder (C16). For a run of the analyzer: after it every
  wanted start is pending and every instance of an undesired app has a pending stop (C17, C18), every start
  and every stop that it returns was pending before or has its grounds (C19, C20), and nothing is written
  after a failed fetch (C29). For a whole round: what the bulk API desires is analysed, and what is due arrives
  at the listener, in order and once (C21). For the fetch: what it collects, and that it comes back
  with every relevant app from the server of the repository (C34, C35). For the processes: no heartbeat is
  lost in any interleaving, a pass that fails revokes the freshness, the loops go on, and how many
  starts one process may send (C30 to C33, C36 to C40). The other theorems, on the freshness, the pending
  messages, the gauges, the limit and the order of the sender, the loop over the channels, the server of a
  fetch, the subscriptions and the tools, have no number.

  \<^bold>\<open>Bounds and partiality\<close>

  Nothing bounds the number of pages of a fetch: \<open>fetchBatch\<close> is a \<open>partial_function\<close>, shown to return
  for every server that makes progress (\<open>Fetch_terminates\<close>). Every other loop of the code runs over a finite
  list and is a \<open>fold\<close> or a structural recursion; the endless loops of the processes are relations of
  single iterations. The only fuel is that of the in-memory adapter of the samples, which
  uses the length of the longest key for the depth of a tree. The backoff theorems assume the
  numbers of the configuration to be small enough not to wrap (\<open>backoff_ok\<close>, \<open>config_sane\<close>).

  \<^bold>\<open>Not modelled\<close>

  Calls of the logger. The libraries behind the commands: the parser of the flags, the clients of etcd,
  NATS and consul, locks, the router, the check of passwords, TLS and the groups of processes; they are
  arguments where the code relies on their results. The HTTP client (\<open>helpers/httpclient/\<close>) and the random
  ids (\<open>models/guid.go\<close>) are wrappers of libraries. The other fakes and fixtures of the tests (\<open>fakestore\<close>,
  \<open>fakesender\<close>, \<open>fakes\<close>, the rest of \<open>testhelpers/\<close>) replace parts that are modelled, or are generated. Mutexes around a few
  assignments are taken for granted: a step of a relation holds them. Expiry of keys in etcd is
  outside the contract of the adapter, which relates the store just before and just after a call; it is
  a step of its own in \<open>System\<close>.
\<close>

end
